(* ===== verification/Ngx.thy ===== *)
theory Ngx
  imports Main "HOL-Library.Word"
begin

text \<open>
  The prelude of the development: the nginx types the module is written in, the part of
  nginx core the module calls, and the lemmas and fact collections the components share.

  nginx itself is not part of the repository.  Every nginx function whose result the module
  depends on is therefore a field of the record \<open>ngx_core\<close>, and every definition that uses
  one takes the record as its first argument.  What the module relies on is the predicate
  \<open>ngx_core_ok\<close>: documented behaviour of those functions, one conjunct each.  The record
  \<open>core_ref\<close> is a concrete instance that satisfies it.
\<close>

section \<open>Strings, return codes, addresses\<close>

text \<open>
  An \<open>ngx_str_t\<close> is a pointer and a length; it is modelled by the list of its bytes.
  A pointer into shared memory is an \<open>addr\<close>; NULL is the absence of one (\<open>None\<close>).
\<close>

type_synonym ngx_str = string
type_synonym addr = nat

datatype ngx_rc =
    NGX_OK
  | NGX_ERROR
  | NGX_AGAIN
  | NGX_DONE
  | NGX_DECLINED
  | NGX_HTTP nat

named_theorems ngx_simps \<open>unfolding rules for the small definitions of the model\<close>
named_theorems wf_intros \<open>preservation of well-formedness by the operations\<close>

text \<open>The byte 0 ends a C string; \<open>c_prefix n s\<close> is what a C function that compares at most
  \<open>n\<close> bytes sees of the buffer \<open>s\<close>.\<close>

definition c_nul :: char where
  "c_nul = CHR 0x00"

definition c_prefix :: "nat \<Rightarrow> string \<Rightarrow> string" where
  "c_prefix n s = takeWhile (\<lambda>c. c \<noteq> c_nul) (take n s)"

lemma c_nul_char [simp]:
  "c_nul = Char b0 b1 b2 b3 b4 b5 b6 b7 \<longleftrightarrow>
     \<not> b0 \<and> \<not> b1 \<and> \<not> b2 \<and> \<not> b3 \<and> \<not> b4 \<and> \<not> b5 \<and> \<not> b6 \<and> \<not> b7"
  "Char b0 b1 b2 b3 b4 b5 b6 b7 = c_nul \<longleftrightarrow>
     \<not> b0 \<and> \<not> b1 \<and> \<not> b2 \<and> \<not> b3 \<and> \<not> b4 \<and> \<not> b5 \<and> \<not> b6 \<and> \<not> b7"
  by (auto simp: c_nul_def)

text \<open>C's \<open>strncmp(a, b, n) == 0\<close>, which \<open>ngx_strncmp\<close> is a macro for, and
  \<open>strcmp(a, b) == 0\<close>.\<close>

definition c_strncmp_eq :: "string \<Rightarrow> string \<Rightarrow> nat \<Rightarrow> bool" where
  "c_strncmp_eq a b n \<longleftrightarrow> c_prefix n a = c_prefix n b"

definition c_strcmp_eq :: "string \<Rightarrow> string \<Rightarrow> bool" where
  "c_strcmp_eq a b \<longleftrightarrow> takeWhile (\<lambda>c. c \<noteq> c_nul) a = takeWhile (\<lambda>c. c \<noteq> c_nul) b"

definition to_lower :: "char \<Rightarrow> char" where
  "to_lower c = (let n = (of_char c :: nat) in if 65 \<le> n \<and> n \<le> 90 then char_of (n + 32) else c)"

definition lower :: "string \<Rightarrow> string" where
  "lower s = map to_lower s"

lemma length_lower [simp]: "length (lower s) = length s"
  by (simp add: lower_def)

lemma lower_Nil [simp]: "lower [] = []"
  by (simp add: lower_def)

lemma c_prefix_no_nul: "c_nul \<notin> set s \<Longrightarrow> c_prefix n s = take n s"
  unfolding c_prefix_def by (metis (mono_tags, lifting) in_set_takeD takeWhile_eq_all_conv)

lemma c_strncmp_eq_no_nul:
  "c_nul \<notin> set a \<Longrightarrow> c_nul \<notin> set b \<Longrightarrow> c_strncmp_eq a b n \<longleftrightarrow> take n a = take n b"
  by (simp add: c_strncmp_eq_def c_prefix_no_nul)

lemma c_strncmp_eq_refl [simp]: "c_strncmp_eq a a n"
  by (simp add: c_strncmp_eq_def)

section \<open>Pool allocation\<close>

text \<open>
  \<open>ngx_palloc\<close>, \<open>ngx_pnalloc\<close>, \<open>ngx_pcalloc\<close>, \<open>ngx_array_push\<close> and
  \<open>ngx_array_create\<close> take memory from a pool and return NULL when there is none.  The
  outcomes of the coming calls are a list of booleans; when it is used up, calls succeed.
\<close>

type_synonym pool = "bool list"

fun pool_alloc :: "pool \<Rightarrow> bool \<times> pool" where
  "pool_alloc [] = (True, [])"
| "pool_alloc (b # bs) = (b, bs)"

section \<open>Red-black trees\<close>

text \<open>
  A node of an \<open>ngx_rbtree_t\<close> is embedded in the object it indexes; \<open>RbNode red l k a r\<close>
  is the node with colour, left child, \<open>key\<close>, address of the object and right child.
\<close>

datatype rbtree = Sentinel | RbNode bool rbtree nat addr rbtree

fun inorder :: "rbtree \<Rightarrow> (nat \<times> addr) list" where
  "inorder Sentinel = []"
| "inorder (RbNode c l k a r) = inorder l @ (k, a) # inorder r"

section \<open>The slab allocator\<close>

text \<open>
  The slab pool of a shared zone is known by the history of its operations, newest first:
  which block an allocation returns may depend on all of it.  \<open>slab_live\<close> is the set of
  blocks that were allocated and not freed.
\<close>

datatype slab_ev = SlabAlloc nat addr | SlabFree addr

fun slab_live :: "slab_ev list \<Rightarrow> addr set" where
  "slab_live [] = {}"
| "slab_live (SlabAlloc n a # h) = insert a (slab_live h)"
| "slab_live (SlabFree a # h) = slab_live h - {a}"

section \<open>nginx core as a parameter\<close>

record ngx_core =
  crc32_short :: "string \<Rightarrow> 32 word"
  crc32_long :: "string \<Rightarrow> 32 word"
  memn2cmp :: "string \<Rightarrow> string \<Rightarrow> int"
  strncasecmp :: "string \<Rightarrow> string \<Rightarrow> nat \<Rightarrow> int"
  hextoi1 :: "char \<Rightarrow> int"
  rbtree_insert :: "(rbtree \<Rightarrow> nat \<Rightarrow> addr \<Rightarrow> rbtree) \<Rightarrow> rbtree \<Rightarrow> nat \<Rightarrow> addr \<Rightarrow> rbtree"
  rbtree_delete :: "rbtree \<Rightarrow> addr \<Rightarrow> rbtree"
  slab_alloc :: "slab_ev list \<Rightarrow> nat \<Rightarrow> addr option"
  sizeof_shm_zone :: nat
  sizeof_shm_file :: nat
  sizeof_shm_key_entry :: nat
  sizeof_shm_tag_entry :: nat
  sizeof_shm_tag_member :: nat
  sizeof_store_shctx :: nat
  sizeof_metrics_shctx :: nat

text \<open>
  The documented behaviour: \<open>ngx_memn2cmp\<close> is a total order on byte strings whose zero is
  equality; \<open>ngx_strncasecmp\<close> is zero when the first \<open>n\<close> bytes, up to a NUL, agree
  ignoring ASCII case; \<open>ngx_hextoi\<close> of one byte is the value of a hexadecimal digit or
  \<open>NGX_ERROR\<close>; \<open>ngx_rbtree_insert\<close> makes a first node the root and otherwise calls the
  tree's insert callback and rotates; \<open>ngx_rbtree_delete\<close> unlinks one node and rotates
  (rotations keep the in-order sequence); the slab allocator never returns a live block.
\<close>

definition hex_value :: "char \<Rightarrow> int option" where
  "hex_value c = (let n = (of_char c :: nat) in
     if 48 \<le> n \<and> n \<le> 57 then Some (int n - 48)
     else if 97 \<le> n \<and> n \<le> 102 then Some (int n - 87)
     else if 65 \<le> n \<and> n \<le> 70 then Some (int n - 55)
     else None)"

definition memn2cmp_ok :: "(string \<Rightarrow> string \<Rightarrow> int) \<Rightarrow> bool" where
  "memn2cmp_ok cmp \<longleftrightarrow>
     (\<forall>a b. cmp a b = 0 \<longleftrightarrow> a = b) \<and>
     (\<forall>a b. cmp a b < 0 \<longleftrightarrow> 0 < cmp b a) \<and>
     (\<forall>a b c. cmp a b < 0 \<longrightarrow> cmp b c < 0 \<longrightarrow> cmp a c < 0)"

definition strncasecmp_ok :: "(string \<Rightarrow> string \<Rightarrow> nat \<Rightarrow> int) \<Rightarrow> bool" where
  "strncasecmp_ok f \<longleftrightarrow>
     (\<forall>a b n. f a b n = 0 \<longleftrightarrow> lower (c_prefix n a) = lower (c_prefix n b))"

definition hextoi_ok :: "(char \<Rightarrow> int) \<Rightarrow> bool" where
  "hextoi_ok f \<longleftrightarrow> (\<forall>c. f c = (case hex_value c of None \<Rightarrow> -1 | Some v \<Rightarrow> v))"

definition rbtree_ok :: "((rbtree \<Rightarrow> nat \<Rightarrow> addr \<Rightarrow> rbtree) \<Rightarrow> rbtree \<Rightarrow> nat \<Rightarrow> addr \<Rightarrow> rbtree) \<Rightarrow>
    (rbtree \<Rightarrow> addr \<Rightarrow> rbtree) \<Rightarrow> bool" where
  "rbtree_ok ins del \<longleftrightarrow>
     (\<forall>cb t k a. inorder (ins cb t k a) =
        (if t = Sentinel then [(k, a)] else inorder (cb t k a))) \<and>
     (\<forall>t a. inorder (del t a) = filter (\<lambda>n. snd n \<noteq> a) (inorder t))"

definition slab_ok :: "(slab_ev list \<Rightarrow> nat \<Rightarrow> addr option) \<Rightarrow> bool" where
  "slab_ok alloc \<longleftrightarrow> (\<forall>h n a. alloc h n = Some a \<longrightarrow> a \<notin> slab_live h)"

definition ngx_core_ok :: "ngx_core \<Rightarrow> bool" where
  "ngx_core_ok N \<longleftrightarrow>
     memn2cmp_ok (memn2cmp N) \<and> strncasecmp_ok (strncasecmp N) \<and> hextoi_ok (hextoi1 N) \<and>
     rbtree_ok (rbtree_insert N) (rbtree_delete N) \<and> slab_ok (slab_alloc N)"

lemma core_okD:
  assumes "ngx_core_ok N"
  shows "memn2cmp N a b = 0 \<longleftrightarrow> a = b"
    and "memn2cmp N a b < 0 \<longleftrightarrow> 0 < memn2cmp N b a"
    and "memn2cmp N a b < 0 \<Longrightarrow> memn2cmp N b c < 0 \<Longrightarrow> memn2cmp N a c < 0"
    and "strncasecmp N a b n = 0 \<longleftrightarrow> lower (c_prefix n a) = lower (c_prefix n b)"
    and "hextoi1 N ch = (case hex_value ch of None \<Rightarrow> -1 | Some v \<Rightarrow> v)"
    and "inorder (rbtree_insert N cb t k x) =
           (if t = Sentinel then [(k, x)] else inorder (cb t k x))"
    and "inorder (rbtree_delete N t x) = filter (\<lambda>n. snd n \<noteq> x) (inorder t)"
    and "slab_alloc N h m = Some x \<Longrightarrow> x \<notin> slab_live h"
  using assms
  unfolding ngx_core_ok_def memn2cmp_ok_def strncasecmp_ok_def hextoi_ok_def rbtree_ok_def slab_ok_def
  by blast+

section \<open>A concrete instance\<close>

fun memn2cmp_ref :: "string \<Rightarrow> string \<Rightarrow> int" where
  "memn2cmp_ref [] [] = 0"
| "memn2cmp_ref [] (_ # _) = -1"
| "memn2cmp_ref (_ # _) [] = 1"
| "memn2cmp_ref (x # xs) (y # ys) =
     (if x = y then memn2cmp_ref xs ys else int (of_char x) - int (of_char y))"

definition strncasecmp_ref :: "string \<Rightarrow> string \<Rightarrow> nat \<Rightarrow> int" where
  "strncasecmp_ref a b n = memn2cmp_ref (lower (c_prefix n a)) (lower (c_prefix n b))"

definition hextoi1_ref :: "char \<Rightarrow> int" where
  "hextoi1_ref c = (case hex_value c of None \<Rightarrow> -1 | Some v \<Rightarrow> v)"

definition rbtree_insert_ref ::
  "(rbtree \<Rightarrow> nat \<Rightarrow> addr \<Rightarrow> rbtree) \<Rightarrow> rbtree \<Rightarrow> nat \<Rightarrow> addr \<Rightarrow> rbtree" where
  "rbtree_insert_ref cb t k a =
     (case t of Sentinel \<Rightarrow> RbNode False Sentinel k a Sentinel | RbNode _ _ _ _ _ \<Rightarrow> cb t k a)"

fun rbtree_of_list :: "(nat \<times> addr) list \<Rightarrow> rbtree" where
  "rbtree_of_list [] = Sentinel"
| "rbtree_of_list ((k, a) # ns) = RbNode False Sentinel k a (rbtree_of_list ns)"

definition rbtree_delete_ref :: "rbtree \<Rightarrow> addr \<Rightarrow> rbtree" where
  "rbtree_delete_ref t a = rbtree_of_list (filter (\<lambda>n. snd n \<noteq> a) (inorder t))"

text \<open>Two checksums of the bytes, different from each other, and an allocator that hands out
  an address above all it has handled and has room for \<open>cap\<close> operations.\<close>

fun slab_top :: "slab_ev list \<Rightarrow> addr" where
  "slab_top [] = 0"
| "slab_top (SlabAlloc n a # h) = max (Suc a) (slab_top h)"
| "slab_top (SlabFree a # h) = slab_top h"

definition slab_alloc_ref :: "nat \<Rightarrow> slab_ev list \<Rightarrow> nat \<Rightarrow> addr option" where
  "slab_alloc_ref cap h n = (if length h < cap then Some (slab_top h) else None)"

definition crc_ref :: "nat \<Rightarrow> string \<Rightarrow> 32 word" where
  "crc_ref m s = of_nat (foldl (\<lambda>h c. (h * m + of_char c) mod 1000) 0 s)"

definition core_ref :: "nat \<Rightarrow> ngx_core" where
  "core_ref cap = \<lparr>crc32_short = crc_ref 3, crc32_long = crc_ref 7, memn2cmp = memn2cmp_ref,
     strncasecmp = strncasecmp_ref, hextoi1 = hextoi1_ref,
     rbtree_insert = rbtree_insert_ref, rbtree_delete = rbtree_delete_ref,
     slab_alloc = slab_alloc_ref cap,
     sizeof_shm_zone = 384, sizeof_shm_file = 160, sizeof_shm_key_entry = 72,
     sizeof_shm_tag_entry = 72, sizeof_shm_tag_member = 48, sizeof_store_shctx = 24,
     sizeof_metrics_shctx = 144\<rparr>"

lemma memn2cmp_ref_0: "memn2cmp_ref a b = 0 \<longleftrightarrow> a = b"
  by (induction a b rule: memn2cmp_ref.induct) auto

lemma memn2cmp_ref_swap: "memn2cmp_ref a b = - memn2cmp_ref b a"
  by (induction a b rule: memn2cmp_ref.induct) auto

lemma memn2cmp_ref_trans:
  "memn2cmp_ref a b < 0 \<Longrightarrow> memn2cmp_ref b c < 0 \<Longrightarrow> memn2cmp_ref a c < 0"
proof (induction a b arbitrary: c rule: memn2cmp_ref.induct)
  case (4 x xs y ys)
  then show ?case by (cases c) (auto split: if_splits)
next
  case (2 u us)
  then show ?case by (cases c) auto
qed auto

lemma memn2cmp_ok_ref: "memn2cmp_ok memn2cmp_ref"
  unfolding memn2cmp_ok_def
  by (metis memn2cmp_ref_0 memn2cmp_ref_swap memn2cmp_ref_trans neg_less_0_iff_less)

lemma inorder_rbtree_of_list [simp]: "inorder (rbtree_of_list ns) = ns"
  by (induction ns rule: rbtree_of_list.induct) auto

lemma rbtree_ok_ref: "rbtree_ok rbtree_insert_ref rbtree_delete_ref"
  by (auto simp: rbtree_ok_def rbtree_insert_ref_def rbtree_delete_ref_def split: rbtree.splits)

lemma slab_live_below_top: "slab_live h \<subseteq> {..<slab_top h}"
  by (induction h rule: slab_live.induct) auto

lemma slab_ok_ref: "slab_ok (slab_alloc_ref cap)"
  using slab_live_below_top by (fastforce simp: slab_ok_def slab_alloc_ref_def split: if_splits)

lemma core_ref_ok [simp]: "ngx_core_ok (core_ref cap)"
  by (simp add: ngx_core_ok_def core_ref_def memn2cmp_ok_ref rbtree_ok_ref slab_ok_ref
      strncasecmp_ok_def strncasecmp_ref_def memn2cmp_ref_0 hextoi_ok_def hextoi1_ref_def)

end
