(* ===== verification/Rbtree.thy ===== *)
theory Rbtree
  imports Ngx
begin

text \<open>
  The search trees of the module.  \<open>insert_generic\<close> and \<open>lookup_generic\<close> are the two
  callbacks-driven routines of \<^verbatim>\<open>src/src/ngx_cache_pilot_index_store.c\<close> that all shared-memory
  trees go through: nodes are ordered by a 32-bit hash and, where hashes collide, by the
  string of the object the node is embedded in.  The three callbacks of the C interface are
  parameters: \<open>node_string\<close> (the string of a node), \<open>node_data\<close> (the object of a node) and
  \<open>node_cmp\<close> (comparison of a needle with an object).

  The locale \<open>node_order\<close> states what these routines need of the comparison, and proves
  once that insertion keeps the tree ordered and that lookup finds exactly what is there.
\<close>

section \<open>Insertion and lookup\<close>

fun insert_generic :: "(addr \<Rightarrow> ngx_str) \<Rightarrow> (addr \<Rightarrow> 'd) \<Rightarrow> (ngx_str \<Rightarrow> 'd \<Rightarrow> int) \<Rightarrow>
    rbtree \<Rightarrow> nat \<Rightarrow> addr \<Rightarrow> rbtree" where
  "insert_generic node_string node_data node_cmp Sentinel k a = RbNode True Sentinel k a Sentinel"
| "insert_generic node_string node_data node_cmp (RbNode c l tk t r) k a =
     (if k < tk then RbNode c (insert_generic node_string node_data node_cmp l k a) tk t r
      else if tk < k then RbNode c l tk t (insert_generic node_string node_data node_cmp r k a)
      else if node_cmp (node_string a) (node_data t) < 0
      then RbNode c (insert_generic node_string node_data node_cmp l k a) tk t r
      else RbNode c l tk t (insert_generic node_string node_data node_cmp r k a))"

fun lookup_generic :: "rbtree \<Rightarrow> nat \<Rightarrow> ngx_str \<Rightarrow> (addr \<Rightarrow> 'd) \<Rightarrow> (ngx_str \<Rightarrow> 'd \<Rightarrow> int) \<Rightarrow>
    addr option" where
  "lookup_generic Sentinel hash needle node_data node_cmp = None"
| "lookup_generic (RbNode c l k a r) hash needle node_data node_cmp =
     (if hash < k then lookup_generic l hash needle node_data node_cmp
      else if k < hash then lookup_generic r hash needle node_data node_cmp
      else let rc = node_cmp needle (node_data a) in
        if rc = 0 then Some a
        else if rc < 0 then lookup_generic l hash needle node_data node_cmp
        else lookup_generic r hash needle node_data node_cmp)"

section \<open>The order of a tree\<close>

definition node_less :: "(ngx_str \<Rightarrow> ngx_str \<Rightarrow> int) \<Rightarrow> (addr \<Rightarrow> ngx_str) \<Rightarrow> nat \<times> addr \<Rightarrow> nat \<times> addr \<Rightarrow> bool" where
  "node_less cmp str m n \<longleftrightarrow>
     fst m < fst n \<or> fst m = fst n \<and> cmp (str (snd m)) (str (snd n)) < 0"

text \<open>
  \<open>tree_of cmp hash str t A\<close>: the tree \<open>t\<close> indexes exactly the objects of \<open>A\<close>, each under its
  hash, in the order of hashes and strings.
\<close>

definition tree_of :: "(ngx_str \<Rightarrow> ngx_str \<Rightarrow> int) \<Rightarrow> (addr \<Rightarrow> nat) \<Rightarrow> (addr \<Rightarrow> ngx_str) \<Rightarrow> rbtree \<Rightarrow> addr set \<Rightarrow> bool" where
  "tree_of cmp hash str t A \<longleftrightarrow>
     sorted_wrt (node_less cmp str) (inorder t) \<and> set (inorder t) = (\<lambda>a. (hash a, a)) ` A"

lemma tree_of_cong:
  assumes "\<And>a. a \<in> A \<Longrightarrow> hash a = hash' a" and "\<And>a. a \<in> A \<Longrightarrow> str a = str' a"
  shows "tree_of cmp hash str t A \<longleftrightarrow> tree_of cmp hash' str' t A"
proof -
  have img: "(\<lambda>a. (hash a, a)) ` A = (\<lambda>a. (hash' a, a)) ` A"
    using assms(1) by auto
  have "set (inorder t) = (\<lambda>a. (hash a, a)) ` A \<Longrightarrow>
      sorted_wrt (node_less cmp str) (inorder t) = sorted_wrt (node_less cmp str') (inorder t)"
    by (intro iffI; erule sorted_wrt_mono_rel [rotated])
      (auto simp: node_less_def assms(2))
  with img show ?thesis unfolding tree_of_def by metis
qed

lemma tree_of_empty [simp]: "tree_of cmp hash str Sentinel A \<longleftrightarrow> A = {}"
  by (auto simp: tree_of_def)

lemma tree_of_Sentinel: "tree_of cmp hash str Sentinel {}"
  by simp

lemma set_insert_generic:
  "set (inorder (insert_generic ns nd nc t k a)) = insert (k, a) (set (inorder t))"
  by (induction t) auto

section \<open>The contract of the comparison\<close>

locale node_order =
  fixes ok :: "'e \<Rightarrow> bool"
    and cmp :: "'e \<Rightarrow> ngx_str \<Rightarrow> ngx_str \<Rightarrow> int"
  assumes cmp_0: "ok e \<Longrightarrow> cmp e a b = 0 \<longleftrightarrow> a = b"
    and cmp_swap: "ok e \<Longrightarrow> cmp e a b < 0 \<longleftrightarrow> 0 < cmp e b a"
    and cmp_trans: "ok e \<Longrightarrow> cmp e a b < 0 \<Longrightarrow> cmp e b c < 0 \<Longrightarrow> cmp e a c < 0"
begin

lemma node_less_trans:
  "ok e \<Longrightarrow> node_less (cmp e) str x y \<Longrightarrow> node_less (cmp e) str y z \<Longrightarrow> node_less (cmp e) str x z"
  by (auto simp: node_less_def intro: cmp_trans)

lemma node_less_irrefl: "ok e \<Longrightarrow> \<not> node_less (cmp e) str x x"
  using cmp_0 [of e "str (snd x)" "str (snd x)"] by (simp add: node_less_def)

lemma node_less_total:
  "ok e \<Longrightarrow> (fst x, str (snd x)) \<noteq> (fst y, str (snd y)) \<Longrightarrow>
     \<not> node_less (cmp e) str x y \<Longrightarrow> node_less (cmp e) str y x"
  using cmp_0 [of e "str (snd x)" "str (snd y)"] cmp_swap [of e "str (snd y)" "str (snd x)"]
  by (auto simp: node_less_def)

text \<open>Insertion of a node whose hash and string are not in the tree keeps it ordered.\<close>

lemma sorted_insert_generic:
  assumes "ok e" and "nd_cmp = (\<lambda>needle d. cmp e needle (sd d))" and "\<And>x. sd (nd x) = str x"
    and "sorted_wrt (node_less (cmp e) str) (inorder t)"
    and "\<forall>n \<in> set (inorder t). (fst n, str (snd n)) \<noteq> (k, str a)"
  shows "sorted_wrt (node_less (cmp e) str) (inorder (insert_generic str nd nd_cmp t k a))"
  using assms(4,5)
proof (induction t)
  case (RbNode c l tk t r)
  let ?less = "node_less (cmp e) str"
  have parts: "sorted_wrt ?less (inorder l)" "sorted_wrt ?less (inorder r)"
    "\<forall>x \<in> set (inorder l). ?less x (tk, t)" "\<forall>x \<in> set (inorder r). ?less (tk, t) x"
    "\<forall>x \<in> set (inorder l). \<forall>y \<in> set (inorder r). ?less x y"
    using RbNode.prems(1) by (auto simp: sorted_wrt_append)
  have IH: "sorted_wrt ?less (inorder (insert_generic str nd nd_cmp l k a))"
    "sorted_wrt ?less (inorder (insert_generic str nd nd_cmp r k a))"
    using RbNode parts by auto
  show ?case
  proof (cases "?less (k, a) (tk, t)")
    case True
    with parts(4) have "\<forall>y \<in> set (inorder r). ?less (k, a) y"
      by (blast intro: node_less_trans [OF assms(1)])
    moreover have "insert_generic str nd nd_cmp (RbNode c l tk t r) k a =
        RbNode c (insert_generic str nd nd_cmp l k a) tk t r"
      using True by (auto simp: node_less_def assms(2,3))
    ultimately show ?thesis
      using True parts IH by (simp add: sorted_wrt_append set_insert_generic)
  next
    case False
    moreover have "(tk, str t) \<noteq> (k, str a)" using RbNode.prems(2) by auto
    ultimately have gt: "?less (tk, t) (k, a)"
      using node_less_total [OF assms(1), of "(k, a)" str "(tk, t)"] by auto
    with parts(3) have "\<forall>x \<in> set (inorder l). ?less x (k, a)"
      by (blast intro: node_less_trans [OF assms(1)])
    moreover have "insert_generic str nd nd_cmp (RbNode c l tk t r) k a =
        RbNode c l tk t (insert_generic str nd nd_cmp r k a)"
      using False by (auto simp: node_less_def assms(2,3))
    ultimately show ?thesis
      using gt parts IH by (simp add: sorted_wrt_append set_insert_generic)
  qed
qed simp

text \<open>Lookup in an ordered tree returns a node exactly when one with this hash and string is
  there.\<close>

lemma lookup_generic_sound:
  assumes "ok e" and "nd_cmp = (\<lambda>needle d. cmp e needle (sd d))" and "\<And>x. sd (nd x) = str x"
  shows "lookup_generic t h needle nd nd_cmp = Some a \<Longrightarrow>
    (h, a) \<in> set (inorder t) \<and> str a = needle"
  by (induction t) (auto simp: assms(2,3) cmp_0 [OF assms(1)] Let_def split: if_splits)

lemma lookup_generic_complete:
  assumes "ok e" and "nd_cmp = (\<lambda>needle d. cmp e needle (sd d))" and "\<And>x. sd (nd x) = str x"
    and "sorted_wrt (node_less (cmp e) str) (inorder t)"
    and "(h, a) \<in> set (inorder t)" and "str a = needle"
  shows "lookup_generic t h needle nd nd_cmp = Some a"
  using assms(4,5)
proof (induction t)
  case (RbNode c l tk t r)
  let ?less = "node_less (cmp e) str"
  have parts: "sorted_wrt ?less (inorder l)" "sorted_wrt ?less (inorder r)"
    "\<forall>x \<in> set (inorder l). ?less x (tk, t)" "\<forall>x \<in> set (inorder r). ?less (tk, t) x"
    using RbNode.prems(1) by (auto simp: sorted_wrt_append)
  from RbNode.prems(2) consider
      (l) "(h, a) \<in> set (inorder l)" | (m) "h = tk" "a = t" | (r) "(h, a) \<in> set (inorder r)"
    by auto
  then show ?case
  proof cases
    case l
    with parts(3) have "?less (h, a) (tk, t)" by blast
    then have "h < tk \<or> h = tk \<and> cmp e needle (str t) < 0"
      by (auto simp: node_less_def assms(6))
    with l RbNode.IH(1) parts(1) show ?thesis by (auto simp: assms(2,3) Let_def)
  next
    case m
    with assms(6) show ?thesis by (simp add: assms(2,3) cmp_0 [OF assms(1)])
  next
    case r
    with parts(4) have "?less (tk, t) (h, a)" by blast
    then have "tk < h \<or> tk = h \<and> 0 < cmp e needle (str t)"
      by (auto simp: node_less_def assms(6) cmp_swap [OF assms(1)])
    with r RbNode.IH(2) parts(2) show ?thesis by (auto simp: assms(2,3) Let_def)
  qed
qed simp

lemma lookup_generic_tree_of:
  assumes "ok e" and "nd_cmp = (\<lambda>needle d. cmp e needle (sd d))" and "\<And>x. sd (nd x) = str x"
    and "tree_of (cmp e) hash str t A"
  shows "lookup_generic t h needle nd nd_cmp = Some a \<longleftrightarrow> a \<in> A \<and> hash a = h \<and> str a = needle"
proof
  assume "lookup_generic t h needle nd nd_cmp = Some a"
  then have "(h, a) \<in> set (inorder t) \<and> str a = needle"
    by (rule lookup_generic_sound [OF assms(1-3)])
  with assms(4) show "a \<in> A \<and> hash a = h \<and> str a = needle"
    by (auto simp: tree_of_def)
next
  assume *: "a \<in> A \<and> hash a = h \<and> str a = needle"
  with assms(4) have "sorted_wrt (node_less (cmp e) str) (inorder t)" "(h, a) \<in> set (inorder t)"
    by (auto simp: tree_of_def)
  then show "lookup_generic t h needle nd nd_cmp = Some a"
    using * by (intro lookup_generic_complete [OF assms(1-3)]) auto
qed

end

section \<open>The trees of the index\<close>

interpretation rb: node_order ngx_core_ok memn2cmp
  by unfold_locales (rule core_okD; assumption)+

lemma tree_of_insert:
  assumes "ngx_core_ok N" and "cb = insert_generic str nd nd_cmp"
    and "nd_cmp = (\<lambda>needle d. memn2cmp N needle (sd d))" and "\<And>x. sd (nd x) = str x"
    and "tree_of (memn2cmp N) hash str t A" and "hash a = k"
    and "\<forall>x \<in> A. (hash x, str x) \<noteq> (k, str a)"
  shows "tree_of (memn2cmp N) hash str (rbtree_insert N cb t k a) (insert a A)"
proof (cases "t = Sentinel")
  case True
  with assms(1,5,6) show ?thesis by (simp add: tree_of_def core_okD(6))
next
  case False
  have "\<forall>n \<in> set (inorder t). (fst n, str (snd n)) \<noteq> (k, str a)"
    using assms(5,7) by (auto simp: tree_of_def)
  then have "sorted_wrt (node_less (memn2cmp N) str) (inorder (cb t k a))"
    using rb.sorted_insert_generic [OF assms(1,3,4)] assms(2,5) by (simp add: tree_of_def)
  with False assms(1,2,5,6) show ?thesis
    by (auto simp: tree_of_def core_okD(6) set_insert_generic)
qed

lemma tree_of_delete:
  assumes "ngx_core_ok N" and "tree_of (memn2cmp N) hash str t A"
  shows "tree_of (memn2cmp N) hash str (rbtree_delete N t a) (A - {a})"
  using assms by (auto simp: tree_of_def core_okD(7) sorted_wrt_filter)

end
