(* ===== verification/Shm_Zone.thy ===== *)
theory Shm_Zone
  imports Rbtree
begin

text \<open>
  One zone of the shared-memory index: the structures of
  \<^verbatim>\<open>src/src/ngx_cache_pilot_index_store_internal.h\<close> and the routines of
  \<^verbatim>\<open>src/src/ngx_cache_pilot_index_store.c\<close> that work on one zone while the mutex of the
  slab pool is held.

  The blocks of a zone refer to each other by address: files are on the queue of their key
  entry, members are on the queue of their tag entry and on the queue of their file.  They
  live in four typed heaps, one per structure, so that aliasing is explicit.  A queue is the
  list of its elements; removing an element twice or following a freed address is visible as
  a miss in a heap.
\<close>

section \<open>Structures\<close>

record shm_file =
  f_hash :: nat
  f_key_entry :: "addr option"
  f_tag_members :: "addr list"
  f_mtime :: int
  f_size :: int
  f_tag_count :: nat
  f_path_len :: nat
  f_key_len :: nat
  f_data :: string

record shm_key_entry =
  ke_hash :: nat
  ke_files :: "addr list"
  ke_key :: ngx_str

record shm_tag_entry =
  te_hash :: nat
  te_files :: "addr list"
  te_tag :: ngx_str

record shm_tag_member =
  tm_entry :: addr
  tm_file :: addr

record shm_zone =
  z_name :: ngx_str
  z_files :: "addr list"
  z_path_index :: rbtree
  z_key_index :: rbtree
  z_tag_index :: rbtree
  z_bootstrap_complete :: bool
  z_last_bootstrap_at :: int
  z_last_updated_at :: int
  fheap :: "addr \<rightharpoonup> shm_file"
  kheap :: "addr \<rightharpoonup> shm_key_entry"
  theap :: "addr \<rightharpoonup> shm_tag_entry"
  mheap :: "addr \<rightharpoonup> shm_tag_member"

record slab_pool =
  slab :: "slab_ev list"
  alloc_failures :: "64 word"

text \<open>In-place update of the block at an address.\<close>

definition modify :: "('x \<Rightarrow> 'x) \<Rightarrow> addr \<Rightarrow> (addr \<rightharpoonup> 'x) \<Rightarrow> (addr \<rightharpoonup> 'x)" where
  "modify g a h = h(a := map_option g (h a))"

lemma modify_apply: "modify g a h b = (if b = a then map_option g (h a) else h b)"
  by (simp add: modify_def)

lemma dom_modify [simp]: "dom (modify g a h) = dom h"
  by (auto simp: modify_def split: if_splits)

section \<open>Slab pool\<close>

definition alloc_locked :: "ngx_core \<Rightarrow> slab_pool \<Rightarrow> nat \<Rightarrow> addr option \<times> slab_pool" where
  "alloc_locked N p nbytes =
     (case slab_alloc N (slab p) nbytes of
        None \<Rightarrow> (None, p\<lparr>alloc_failures := alloc_failures p + 1\<rparr>)
      | Some a \<Rightarrow> (Some a, p\<lparr>slab := SlabAlloc nbytes a # slab p\<rparr>))"

definition slab_free_locked :: "slab_pool \<Rightarrow> addr \<Rightarrow> slab_pool" where
  "slab_free_locked p a = p\<lparr>slab := SlabFree a # slab p\<rparr>"

section \<open>The strings of the structures\<close>

definition shm_file_path :: "shm_file \<Rightarrow> ngx_str" where
  "shm_file_path f = take (f_path_len f) (f_data f)"

definition shm_file_key :: "shm_file \<Rightarrow> ngx_str" where
  "shm_file_key f = take (f_key_len f) (drop (f_path_len f + 1) (f_data f))"

definition path_hash :: "ngx_core \<Rightarrow> ngx_str \<Rightarrow> nat" where
  "path_hash N path = unat (crc32_long N path)"

definition path_hash_legacy :: "ngx_core \<Rightarrow> ngx_str \<Rightarrow> nat" where
  "path_hash_legacy N path = unat (crc32_short N path)"

definition path_cmp :: "ngx_core \<Rightarrow> ngx_str \<Rightarrow> shm_file \<Rightarrow> int" where
  "path_cmp N path f = memn2cmp N path (shm_file_path f)"

definition key_cmp :: "ngx_core \<Rightarrow> ngx_str \<Rightarrow> shm_key_entry \<Rightarrow> int" where
  "key_cmp N key e = memn2cmp N key (ke_key e)"

definition tag_cmp :: "ngx_core \<Rightarrow> ngx_str \<Rightarrow> shm_tag_entry \<Rightarrow> int" where
  "tag_cmp N tag e = memn2cmp N tag (te_tag e)"

text \<open>The callbacks \<open>node_data\<close> and \<open>node_string\<close> of the three trees.\<close>

definition path_node_data :: "shm_zone \<Rightarrow> addr \<Rightarrow> shm_file" where
  "path_node_data z a = the (fheap z a)"

definition key_node_data :: "shm_zone \<Rightarrow> addr \<Rightarrow> shm_key_entry" where
  "key_node_data z a = the (kheap z a)"

definition tag_node_data :: "shm_zone \<Rightarrow> addr \<Rightarrow> shm_tag_entry" where
  "tag_node_data z a = the (theap z a)"

definition path_node_string :: "shm_zone \<Rightarrow> addr \<Rightarrow> ngx_str" where
  "path_node_string z a = shm_file_path (path_node_data z a)"

definition key_node_string :: "shm_zone \<Rightarrow> addr \<Rightarrow> ngx_str" where
  "key_node_string z a = ke_key (key_node_data z a)"

definition tag_node_string :: "shm_zone \<Rightarrow> addr \<Rightarrow> ngx_str" where
  "tag_node_string z a = te_tag (tag_node_data z a)"

definition path_insert :: "ngx_core \<Rightarrow> shm_zone \<Rightarrow> rbtree \<Rightarrow> nat \<Rightarrow> addr \<Rightarrow> rbtree" where
  "path_insert N z = insert_generic (path_node_string z) (path_node_data z) (path_cmp N)"

definition key_insert :: "ngx_core \<Rightarrow> shm_zone \<Rightarrow> rbtree \<Rightarrow> nat \<Rightarrow> addr \<Rightarrow> rbtree" where
  "key_insert N z = insert_generic (key_node_string z) (key_node_data z) (key_cmp N)"

definition tag_insert :: "ngx_core \<Rightarrow> shm_zone \<Rightarrow> rbtree \<Rightarrow> nat \<Rightarrow> addr \<Rightarrow> rbtree" where
  "tag_insert N z = insert_generic (tag_node_string z) (tag_node_data z) (tag_cmp N)"

section \<open>Lookups\<close>

definition lookup_key_entry :: "ngx_core \<Rightarrow> shm_zone \<Rightarrow> ngx_str \<Rightarrow> addr option" where
  "lookup_key_entry N z key =
     lookup_generic (z_key_index z) (unat (crc32_short N key)) key (key_node_data z) (key_cmp N)"

definition lookup_tag_entry :: "ngx_core \<Rightarrow> shm_zone \<Rightarrow> ngx_str \<Rightarrow> addr option" where
  "lookup_tag_entry N z tag =
     lookup_generic (z_tag_index z) (unat (crc32_short N tag)) tag (tag_node_data z) (tag_cmp N)"

definition lookup_file :: "ngx_core \<Rightarrow> shm_zone \<Rightarrow> ngx_str \<Rightarrow> addr option" where
  "lookup_file N z path =
     (let hash = path_hash N path in
      case lookup_generic (z_path_index z) hash path (path_node_data z) (path_cmp N) of
        Some f \<Rightarrow> Some f
      | None \<Rightarrow>
          let legacy_hash = path_hash_legacy N path in
          if legacy_hash = hash then None
          else lookup_generic (z_path_index z) legacy_hash path (path_node_data z) (path_cmp N))"

section \<open>Entries\<close>

definition get_key_entry_locked ::
  "ngx_core \<Rightarrow> slab_pool \<Rightarrow> shm_zone \<Rightarrow> ngx_str \<Rightarrow> bool \<Rightarrow> addr option \<times> slab_pool \<times> shm_zone" where
  "get_key_entry_locked N p z key create =
     (case lookup_key_entry N z key of
        Some e \<Rightarrow> (Some e, p, z)
      | None \<Rightarrow>
          if \<not> create then (None, p, z)
          else (case alloc_locked N p (sizeof_shm_key_entry N + length key) of
              (None, p1) \<Rightarrow> (None, p1, z)
            | (Some e, p1) \<Rightarrow>
                let hash = unat (crc32_short N key);
                    entry = \<lparr>ke_hash = hash, ke_files = [], ke_key = key\<rparr>;
                    z1 = z\<lparr>kheap := (kheap z)(e \<mapsto> entry)\<rparr>
                in (Some e, p1,
                    z1\<lparr>z_key_index := rbtree_insert N (key_insert N z1) (z_key_index z1) hash e\<rparr>)))"

definition get_tag_entry_locked ::
  "ngx_core \<Rightarrow> slab_pool \<Rightarrow> shm_zone \<Rightarrow> ngx_str \<Rightarrow> bool \<Rightarrow> addr option \<times> slab_pool \<times> shm_zone" where
  "get_tag_entry_locked N p z tag create =
     (case lookup_tag_entry N z tag of
        Some e \<Rightarrow> (Some e, p, z)
      | None \<Rightarrow>
          if \<not> create then (None, p, z)
          else (case alloc_locked N p (sizeof_shm_tag_entry N + length tag) of
              (None, p1) \<Rightarrow> (None, p1, z)
            | (Some e, p1) \<Rightarrow>
                let hash = unat (crc32_short N tag);
                    entry = \<lparr>te_hash = hash, te_files = [], te_tag = tag\<rparr>;
                    z1 = z\<lparr>theap := (theap z)(e \<mapsto> entry)\<rparr>
                in (Some e, p1,
                    z1\<lparr>z_tag_index := rbtree_insert N (tag_insert N z1) (z_tag_index z1) hash e\<rparr>)))"

definition free_empty_key_entry_locked ::
  "ngx_core \<Rightarrow> slab_pool \<Rightarrow> shm_zone \<Rightarrow> addr \<Rightarrow> slab_pool \<times> shm_zone" where
  "free_empty_key_entry_locked N p z e =
     (if ke_files (the (kheap z e)) \<noteq> [] then (p, z)
      else (slab_free_locked p e,
            z\<lparr>z_key_index := rbtree_delete N (z_key_index z) e, kheap := (kheap z)(e := None)\<rparr>))"

definition free_empty_tag_entry_locked ::
  "ngx_core \<Rightarrow> slab_pool \<Rightarrow> shm_zone \<Rightarrow> addr \<Rightarrow> slab_pool \<times> shm_zone" where
  "free_empty_tag_entry_locked N p z e =
     (if te_files (the (theap z e)) \<noteq> [] then (p, z)
      else (slab_free_locked p e,
            z\<lparr>z_tag_index := rbtree_delete N (z_tag_index z) e, theap := (theap z)(e := None)\<rparr>))"

section \<open>Linking\<close>

definition link_exact_key_locked ::
  "ngx_core \<Rightarrow> slab_pool \<Rightarrow> shm_zone \<Rightarrow> addr \<Rightarrow> ngx_rc \<times> slab_pool \<times> shm_zone" where
  "link_exact_key_locked N p z file =
     (let f = the (fheap z file) in
      if f_key_len f = 0 then (NGX_OK, p, z)
      else (case get_key_entry_locked N p z (shm_file_key f) True of
          (None, p1, z1) \<Rightarrow> (NGX_ERROR, p1, z1)
        | (Some e, p1, z1) \<Rightarrow>
            (NGX_OK, p1,
             z1\<lparr>fheap := modify (\<lambda>f. f\<lparr>f_key_entry := Some e\<rparr>) file (fheap z1),
               kheap := modify (\<lambda>k. k\<lparr>ke_files := ke_files k @ [file]\<rparr>) e (kheap z1)\<rparr>)))"

definition link_member :: "shm_zone \<Rightarrow> addr \<Rightarrow> addr \<Rightarrow> addr \<Rightarrow> shm_zone" where
  "link_member z entry m file =
     z\<lparr>mheap := (mheap z)(m \<mapsto> \<lparr>tm_entry = entry, tm_file = file\<rparr>),
       theap := modify (\<lambda>t. t\<lparr>te_files := te_files t @ [m]\<rparr>) entry (theap z),
       fheap := modify (\<lambda>f. f\<lparr>f_tag_members := f_tag_members f @ [m]\<rparr>) file (fheap z)\<rparr>"

fun link_tags_loop ::
  "ngx_core \<Rightarrow> slab_pool \<Rightarrow> shm_zone \<Rightarrow> addr \<Rightarrow> ngx_str list \<Rightarrow> ngx_rc \<times> slab_pool \<times> shm_zone" where
  "link_tags_loop N p z file [] = (NGX_OK, p, z)"
| "link_tags_loop N p z file (tag # tags) =
     (case get_tag_entry_locked N p z tag True of
        (None, p1, z1) \<Rightarrow> (NGX_ERROR, p1, z1)
      | (Some entry, p1, z1) \<Rightarrow>
          (case alloc_locked N p1 (sizeof_shm_tag_member N) of
             (None, p2) \<Rightarrow> (NGX_ERROR, p2, z1)
           | (Some m, p2) \<Rightarrow> link_tags_loop N p2 (link_member z1 entry m file) file tags))"

definition link_tags_locked ::
  "ngx_core \<Rightarrow> slab_pool \<Rightarrow> shm_zone \<Rightarrow> addr \<Rightarrow> ngx_str list option \<Rightarrow> ngx_rc \<times> slab_pool \<times> shm_zone" where
  "link_tags_locked N p z file tags =
     (case tags of
        None \<Rightarrow> (NGX_OK, p, z)
      | Some ts \<Rightarrow> if ts = [] then (NGX_OK, p, z) else link_tags_loop N p z file ts)"

section \<open>Removing a file\<close>

text \<open>One round of the loop over the members of a file: off both queues, free the entry if that
  was its last member, free the member.\<close>

definition remove_member ::
  "ngx_core \<Rightarrow> slab_pool \<Rightarrow> shm_zone \<Rightarrow> addr \<Rightarrow> addr \<Rightarrow> slab_pool \<times> shm_zone" where
  "remove_member N p z file m =
     (let entry = tm_entry (the (mheap z m));
          z1 = z\<lparr>theap := modify (\<lambda>t. t\<lparr>te_files := remove1 m (te_files t)\<rparr>) entry (theap z),
                 fheap := modify (\<lambda>f. f\<lparr>f_tag_members := remove1 m (f_tag_members f)\<rparr>) file (fheap z)\<rparr>;
          (p2, z2) = free_empty_tag_entry_locked N p z1 entry
      in (slab_free_locked p2 m, z2\<lparr>mheap := (mheap z2)(m := None)\<rparr>))"

fun remove_members ::
  "ngx_core \<Rightarrow> slab_pool \<Rightarrow> shm_zone \<Rightarrow> addr \<Rightarrow> addr list \<Rightarrow> slab_pool \<times> shm_zone" where
  "remove_members N p z file [] = (p, z)"
| "remove_members N p z file (m # ms) =
     (let (p1, z1) = remove_member N p z file m in remove_members N p1 z1 file ms)"

definition unlink_key :: "ngx_core \<Rightarrow> slab_pool \<Rightarrow> shm_zone \<Rightarrow> addr \<Rightarrow> slab_pool \<times> shm_zone" where
  "unlink_key N p z file =
     (case f_key_entry (the (fheap z file)) of
        None \<Rightarrow> (p, z)
      | Some e \<Rightarrow>
          let z1 = z\<lparr>kheap := modify (\<lambda>k. k\<lparr>ke_files := remove1 file (ke_files k)\<rparr>) e (kheap z)\<rparr>;
              (p2, z2) = free_empty_key_entry_locked N p z1 e
          in (p2, z2\<lparr>fheap := modify (\<lambda>f. f\<lparr>f_key_entry := None\<rparr>) file (fheap z2)\<rparr>))"

definition remove_file_locked ::
  "ngx_core \<Rightarrow> slab_pool \<Rightarrow> shm_zone \<Rightarrow> addr \<Rightarrow> slab_pool \<times> shm_zone" where
  "remove_file_locked N p z file =
     (let (p1, z1) = unlink_key N p z file;
          (p2, z2) = remove_members N p1 z1 file (f_tag_members (the (fheap z1 file)))
      in (slab_free_locked p2 file,
          z2\<lparr>z_path_index := rbtree_delete N (z_path_index z2) file,
             z_files := remove1 file (z_files z2),
             fheap := (fheap z2)(file := None)\<rparr>))"

definition touch_zone_locked :: "int \<Rightarrow> shm_zone \<Rightarrow> shm_zone" where
  "touch_zone_locked now z = z\<lparr>z_last_updated_at := now\<rparr>"

section \<open>Inserting a file\<close>

text \<open>The bytes after the fixed part of a file block: path, key and tags, each with a NUL.\<close>

definition file_data :: "ngx_str \<Rightarrow> ngx_str \<Rightarrow> ngx_str list \<Rightarrow> string" where
  "file_data path key tags =
     path @ [c_nul] @ key @ [c_nul] @ concat (map (\<lambda>t. t @ [c_nul]) tags)"

definition file_alloc_size :: "ngx_core \<Rightarrow> ngx_str \<Rightarrow> ngx_str \<Rightarrow> ngx_str list \<Rightarrow> nat" where
  "file_alloc_size N path key tags =
     sizeof_shm_file N + length path + 1 + length key + 1 + sum_list (map (\<lambda>t. length t + 1) tags)"

definition tags_elts :: "ngx_str list option \<Rightarrow> ngx_str list" where
  "tags_elts tags = (case tags of None \<Rightarrow> [] | Some ts \<Rightarrow> ts)"

definition new_file :: "ngx_core \<Rightarrow> ngx_str \<Rightarrow> ngx_str \<Rightarrow> int \<Rightarrow> int \<Rightarrow> ngx_str list option \<Rightarrow> shm_file" where
  "new_file N path key mtime fsize tags =
     \<lparr>f_hash = path_hash N path, f_key_entry = None, f_tag_members = [],
      f_mtime = mtime, f_size = fsize, f_tag_count = length (tags_elts tags),
      f_path_len = length path, f_key_len = length key,
      f_data = file_data path key (tags_elts tags)\<rparr>"

definition insert_file :: "ngx_core \<Rightarrow> shm_zone \<Rightarrow> addr \<Rightarrow> shm_file \<Rightarrow> shm_zone" where
  "insert_file N z a f =
     (let z1 = z\<lparr>fheap := (fheap z)(a \<mapsto> f)\<rparr> in
      z1\<lparr>z_path_index := rbtree_insert N (path_insert N z1) (z_path_index z1) (f_hash f) a,
         z_files := z_files z1 @ [a]\<rparr>)"

text \<open>The part of \<open>upsert_file_meta\<close> between finding the zone and releasing the mutex.\<close>

definition upsert_in_zone ::
  "ngx_core \<Rightarrow> int \<Rightarrow> slab_pool \<Rightarrow> shm_zone \<Rightarrow> ngx_str \<Rightarrow> ngx_str \<Rightarrow> int \<Rightarrow> int \<Rightarrow>
     ngx_str list option \<Rightarrow> ngx_rc \<times> slab_pool \<times> shm_zone" where
  "upsert_in_zone N now p z path key mtime fsize tags =
     (let (p1, z1) = (case lookup_file N z path of
            Some old \<Rightarrow> remove_file_locked N p z old | None \<Rightarrow> (p, z))
      in case alloc_locked N p1 (file_alloc_size N path key (tags_elts tags)) of
           (None, p2) \<Rightarrow> (NGX_ERROR, p2, z1)
         | (Some file, p2) \<Rightarrow>
             let z2 = insert_file N z1 file (new_file N path key mtime fsize tags);
                 (rc3, p3, z3) = link_exact_key_locked N p2 z2 file
             in if rc3 \<noteq> NGX_OK
                then (let (p4, z4) = remove_file_locked N p3 z3 file in (NGX_ERROR, p4, z4))
                else let (rc4, p4, z4) = link_tags_locked N p3 z3 file tags
                     in if rc4 \<noteq> NGX_OK
                        then (let (p5, z5) = remove_file_locked N p4 z4 file in (NGX_ERROR, p5, z5))
                        else (NGX_OK, p4, touch_zone_locked now z4))"

end
