(* ===== verification/Zone_Wf.thy ===== *)
theory Zone_Wf
  imports Shm_Zone
begin

text \<open>
  Well-formedness of a zone of the index and its preservation by every routine of
  \<open>Shm_Zone\<close>: the queue of files and the three trees agree with the heaps, the links between
  files, key entries, tag entries and members are mutual, and paths are unique.
\<close>

section \<open>The invariant\<close>

definition files_wf :: "shm_zone \<Rightarrow> bool" where
  "files_wf z \<longleftrightarrow> distinct (z_files z) \<and> set (z_files z) = dom (fheap z)"

text \<open>Paths are unique and NUL-free, and the tree key of a file is the hash of its path, either
  the current one or the one older releases used.\<close>

definition path_wf :: "ngx_core \<Rightarrow> shm_zone \<Rightarrow> bool" where
  "path_wf N z \<longleftrightarrow>
     tree_of (memn2cmp N) (\<lambda>a. f_hash (path_node_data z a)) (path_node_string z) (z_path_index z)
       (dom (fheap z)) \<and>
     (\<forall>a f. fheap z a = Some f \<longrightarrow>
        (f_hash f = path_hash N (shm_file_path f) \<or> f_hash f = path_hash_legacy N (shm_file_path f)) \<and>
        c_nul \<notin> set (shm_file_path f) \<and> length (shm_file_path f) = f_path_len f \<and>
        length (shm_file_key f) = f_key_len f) \<and>
     (\<forall>a b f g. fheap z a = Some f \<longrightarrow> fheap z b = Some g \<longrightarrow>
        shm_file_path f = shm_file_path g \<longrightarrow> a = b)"

definition key_tree_wf :: "ngx_core \<Rightarrow> shm_zone \<Rightarrow> bool" where
  "key_tree_wf N z \<longleftrightarrow>
     tree_of (memn2cmp N) (\<lambda>a. ke_hash (key_node_data z a)) (key_node_string z) (z_key_index z)
       (dom (kheap z)) \<and>
     (\<forall>e k. kheap z e = Some k \<longrightarrow> ke_hash k = unat (crc32_short N (ke_key k)))"

definition tag_tree_wf :: "ngx_core \<Rightarrow> shm_zone \<Rightarrow> bool" where
  "tag_tree_wf N z \<longleftrightarrow>
     tree_of (memn2cmp N) (\<lambda>a. te_hash (tag_node_data z a)) (tag_node_string z) (z_tag_index z)
       (dom (theap z)) \<and>
     (\<forall>e t. theap z e = Some t \<longrightarrow> te_hash t = unat (crc32_short N (te_tag t)))"

text \<open>The links are relations between heaps: a file is on the queue of its key entry, which
  has its key; a member is on the queue of its tag entry and on the queue of its file.\<close>

definition key_links :: "(addr \<rightharpoonup> shm_file) \<Rightarrow> (addr \<rightharpoonup> shm_key_entry) \<Rightarrow> bool" where
  "key_links fh kh \<longleftrightarrow>
     (\<forall>e k. kh e = Some k \<longrightarrow> distinct (ke_files k) \<and>
        (\<forall>a. a \<in> set (ke_files k) \<longleftrightarrow> (\<exists>f. fh a = Some f \<and> f_key_entry f = Some e))) \<and>
     (\<forall>a f e. fh a = Some f \<longrightarrow> f_key_entry f = Some e \<longrightarrow>
        (\<exists>k. kh e = Some k \<and> ke_key k = shm_file_key f))"

definition tag_links ::
  "(addr \<rightharpoonup> shm_file) \<Rightarrow> (addr \<rightharpoonup> shm_tag_entry) \<Rightarrow> (addr \<rightharpoonup> shm_tag_member) \<Rightarrow> bool" where
  "tag_links fh th mh \<longleftrightarrow>
     (\<forall>e t. th e = Some t \<longrightarrow> distinct (te_files t) \<and>
        (\<forall>m. m \<in> set (te_files t) \<longleftrightarrow> (\<exists>mm. mh m = Some mm \<and> tm_entry mm = e))) \<and>
     (\<forall>a f. fh a = Some f \<longrightarrow> distinct (f_tag_members f) \<and>
        (\<forall>m. m \<in> set (f_tag_members f) \<longleftrightarrow> (\<exists>mm. mh m = Some mm \<and> tm_file mm = a))) \<and>
     (\<forall>m mm. mh m = Some mm \<longrightarrow> tm_entry mm \<in> dom th \<and> tm_file mm \<in> dom fh)"

definition key_links_wf :: "shm_zone \<Rightarrow> bool" where
  "key_links_wf z \<longleftrightarrow> key_links (fheap z) (kheap z)"

definition tag_links_wf :: "shm_zone \<Rightarrow> bool" where
  "tag_links_wf z \<longleftrightarrow> tag_links (fheap z) (theap z) (mheap z)"

definition zone_wf :: "ngx_core \<Rightarrow> shm_zone \<Rightarrow> bool" where
  "zone_wf N z \<longleftrightarrow>
     files_wf z \<and> path_wf N z \<and> key_tree_wf N z \<and> tag_tree_wf N z \<and> key_links_wf z \<and> tag_links_wf z"

lemmas zone_wf_defs =
  zone_wf_def files_wf_def path_wf_def key_tree_wf_def tag_tree_wf_def key_links_wf_def tag_links_wf_def

lemmas node_defs =
  path_node_data_def key_node_data_def tag_node_data_def
  path_node_string_def key_node_string_def tag_node_string_def

section \<open>Lookups find what is there\<close>

lemma lookup_key_entry_wf:
  assumes "ngx_core_ok N" and "key_tree_wf N z"
  shows "lookup_key_entry N z key = Some e \<longleftrightarrow> (\<exists>k. kheap z e = Some k \<and> ke_key k = key)"
proof -
  have "lookup_key_entry N z key = Some e \<longleftrightarrow>
      e \<in> dom (kheap z) \<and> ke_hash (key_node_data z e) = unat (crc32_short N key) \<and>
      key_node_string z e = key"
    unfolding lookup_key_entry_def
    by (rule rb.lookup_generic_tree_of [where sd = ke_key])
      (use assms in \<open>auto simp: key_cmp_def fun_eq_iff key_node_string_def [abs_def] key_tree_wf_def\<close>)
  then show ?thesis using assms(2) by (auto simp: key_tree_wf_def node_defs)
qed

lemma lookup_tag_entry_wf:
  assumes "ngx_core_ok N" and "tag_tree_wf N z"
  shows "lookup_tag_entry N z tag = Some e \<longleftrightarrow> (\<exists>t. theap z e = Some t \<and> te_tag t = tag)"
proof -
  have "lookup_tag_entry N z tag = Some e \<longleftrightarrow>
      e \<in> dom (theap z) \<and> te_hash (tag_node_data z e) = unat (crc32_short N tag) \<and>
      tag_node_string z e = tag"
    unfolding lookup_tag_entry_def
    by (rule rb.lookup_generic_tree_of [where sd = te_tag])
      (use assms in \<open>auto simp: tag_cmp_def fun_eq_iff tag_node_string_def [abs_def] tag_tree_wf_def\<close>)
  then show ?thesis using assms(2) by (auto simp: tag_tree_wf_def node_defs)
qed

lemma lookup_file_wf:
  assumes "ngx_core_ok N" and "path_wf N z"
  shows "lookup_file N z path = Some a \<longleftrightarrow> (\<exists>f. fheap z a = Some f \<and> shm_file_path f = path)"
proof -
  have gen: "lookup_generic (z_path_index z) h path (path_node_data z) (path_cmp N) = Some a \<longleftrightarrow>
      (\<exists>f. fheap z a = Some f \<and> f_hash f = h \<and> shm_file_path f = path)" for h a
  proof -
    have "lookup_generic (z_path_index z) h path (path_node_data z) (path_cmp N) = Some a \<longleftrightarrow>
        a \<in> dom (fheap z) \<and> f_hash (path_node_data z a) = h \<and> path_node_string z a = path"
      by (rule rb.lookup_generic_tree_of [where sd = shm_file_path])
        (use assms in \<open>auto simp: path_cmp_def fun_eq_iff path_node_string_def [abs_def] path_wf_def\<close>)
    then show ?thesis by (auto simp: node_defs)
  qed
  have uniq: "\<And>a b f g. fheap z a = Some f \<Longrightarrow> fheap z b = Some g \<Longrightarrow>
      shm_file_path f = path \<Longrightarrow> shm_file_path g = path \<Longrightarrow> a = b"
    and hash: "\<And>a f. fheap z a = Some f \<Longrightarrow>
      f_hash f = path_hash N (shm_file_path f) \<or> f_hash f = path_hash_legacy N (shm_file_path f)"
    using assms(2) unfolding path_wf_def by blast+
  show ?thesis
  proof (cases "lookup_generic (z_path_index z) (path_hash N path) path (path_node_data z) (path_cmp N)")
    case (Some b)
    with gen [of "path_hash N path" b] uniq show ?thesis by (auto simp: lookup_file_def)
  next
    case None
    then have "\<not> (\<exists>a f. fheap z a = Some f \<and> f_hash f = path_hash N path \<and> shm_file_path f = path)"
      by (metis gen option.distinct(1))
    with None hash show ?thesis
      by (auto simp: lookup_file_def gen Let_def split: if_splits) metis+
  qed
qed

text \<open>A well-formed zone never holds a dangling reference: what a queue, a tree or a back
  pointer names is a live block of the right kind.\<close>

lemma zone_wf_no_dangling:
  assumes "zone_wf N z"
  shows "set (z_files z) \<subseteq> dom (fheap z)"
    and "snd ` set (inorder (z_path_index z)) \<subseteq> dom (fheap z)"
    and "snd ` set (inorder (z_key_index z)) \<subseteq> dom (kheap z)"
    and "snd ` set (inorder (z_tag_index z)) \<subseteq> dom (theap z)"
    and "fheap z a = Some f \<Longrightarrow> f_key_entry f = Some e \<Longrightarrow> e \<in> dom (kheap z)"
    and "fheap z a = Some f \<Longrightarrow> set (f_tag_members f) \<subseteq> dom (mheap z)"
    and "kheap z e = Some k \<Longrightarrow> set (ke_files k) \<subseteq> dom (fheap z)"
    and "theap z e = Some t \<Longrightarrow> set (te_files t) \<subseteq> dom (mheap z)"
    and "mheap z m = Some mm \<Longrightarrow> tm_entry mm \<in> dom (theap z) \<and> tm_file mm \<in> dom (fheap z)"
proof -
  note wf = assms [unfolded zone_wf_def]
  show "set (z_files z) \<subseteq> dom (fheap z)" using wf by (simp add: files_wf_def)
  show "snd ` set (inorder (z_path_index z)) \<subseteq> dom (fheap z)"
    "snd ` set (inorder (z_key_index z)) \<subseteq> dom (kheap z)"
    "snd ` set (inorder (z_tag_index z)) \<subseteq> dom (theap z)"
    using wf by (auto simp: path_wf_def key_tree_wf_def tag_tree_wf_def tree_of_def)
  show "fheap z a = Some f \<Longrightarrow> f_key_entry f = Some e \<Longrightarrow> e \<in> dom (kheap z)"
    "kheap z e = Some k \<Longrightarrow> set (ke_files k) \<subseteq> dom (fheap z)"
    using wf unfolding key_links_wf_def key_links_def by blast+
  show "fheap z a = Some f \<Longrightarrow> set (f_tag_members f) \<subseteq> dom (mheap z)"
    "theap z e = Some t \<Longrightarrow> set (te_files t) \<subseteq> dom (mheap z)"
    "mheap z m = Some mm \<Longrightarrow> tm_entry mm \<in> dom (theap z) \<and> tm_file mm \<in> dom (fheap z)"
    using wf unfolding tag_links_wf_def tag_links_def by blast+
qed

end
