(* ===== verification/Zone_Ops.thy ===== *)
theory Zone_Ops
  imports Zone_Wf
begin

text \<open>
  Every routine of \<open>Shm_Zone\<close> keeps \<open>zone_wf\<close>, also on its failure paths, and the effect of
  each on the files of the zone and their tags.
\<close>

section \<open>Views that do not depend on the links\<close>

text \<open>The path tree depends on the hash and the data of files only, the entry trees on hash and
  string of entries only.\<close>

definition file_core :: "shm_file \<Rightarrow> nat \<times> nat \<times> nat \<times> string" where
  "file_core f = (f_hash f, f_path_len f, f_key_len f, f_data f)"

lemma file_core_eqD:
  "file_core f = file_core g \<Longrightarrow> f_hash f = f_hash g \<and> shm_file_path f = shm_file_path g \<and>
     shm_file_key f = shm_file_key g \<and> f_path_len f = f_path_len g \<and> f_key_len f = f_key_len g"
  by (simp add: file_core_def shm_file_path_def shm_file_key_def)

lemma file_core_upd [simp]:
  "file_core (f\<lparr>f_key_entry := x\<rparr>) = file_core f" "file_core (f\<lparr>f_tag_members := ms\<rparr>) = file_core f"
  by (simp_all add: file_core_def)

lemma shm_file_upd [simp]:
  "shm_file_path (f\<lparr>f_key_entry := x\<rparr>) = shm_file_path f"
  "shm_file_path (f\<lparr>f_tag_members := ms\<rparr>) = shm_file_path f"
  "shm_file_key (f\<lparr>f_key_entry := x\<rparr>) = shm_file_key f"
  "shm_file_key (f\<lparr>f_tag_members := ms\<rparr>) = shm_file_key f"
  by (simp_all add: shm_file_path_def shm_file_key_def)

text \<open>Two heaps that agree on a view of their blocks.\<close>

lemma heap_view:
  assumes "\<And>e. map_option g (h' e) = map_option g (h e)"
  shows "dom h' = dom h"
    and "h' e = Some x' \<Longrightarrow> \<exists>x. h e = Some x \<and> g x' = g x"
    and "e \<in> dom h \<Longrightarrow> g (the (h' e)) = g (the (h e))"
proof -
  have iff: "h' e = None \<longleftrightarrow> h e = None" for e
    using assms [of e] by (metis map_option_is_None)
  then show "dom h' = dom h" by (auto simp: dom_def)
  show "h' e = Some x' \<Longrightarrow> \<exists>x. h e = Some x \<and> g x' = g x"
    using assms [of e] by (cases "h e") auto
  show "e \<in> dom h \<Longrightarrow> g (the (h' e)) = g (the (h e))"
    using assms [of e] by (cases "h' e"; cases "h e") auto
qed

lemma path_wf_cong:
  assumes wf: "path_wf N z" and idx: "z_path_index z' = z_path_index z"
    and view: "\<And>a. map_option file_core (fheap z' a) = map_option file_core (fheap z a)"
  shows "path_wf N z'"
proof -
  note hv = heap_view [of file_core "fheap z'" "fheap z", OF view]
  have tree: "tree_of (memn2cmp N) (\<lambda>a. f_hash (path_node_data z' a)) (path_node_string z') (z_path_index z)
      (dom (fheap z))"
  proof (rule tree_of_cong [THEN iffD2])
    show "tree_of (memn2cmp N) (\<lambda>a. f_hash (path_node_data z a)) (path_node_string z) (z_path_index z)
        (dom (fheap z))" using wf by (simp add: path_wf_def)
    show "f_hash (path_node_data z' a) = f_hash (path_node_data z a)"
      "path_node_string z' a = path_node_string z a" if "a \<in> dom (fheap z)" for a
      using file_core_eqD [OF hv(3) [OF that]] by (simp_all add: node_defs)
  qed
  have one: "(f_hash f = path_hash N (shm_file_path f) \<or> f_hash f = path_hash_legacy N (shm_file_path f)) \<and>
        c_nul \<notin> set (shm_file_path f) \<and> length (shm_file_path f) = f_path_len f \<and>
        length (shm_file_key f) = f_key_len f" if fa: "fheap z' a = Some f" for a f
  proof -
    from hv(2) [OF fa] obtain g where g: "fheap z a = Some g" "file_core f = file_core g" by blast
    from wf g(1) have "(f_hash g = path_hash N (shm_file_path g) \<or> f_hash g = path_hash_legacy N (shm_file_path g)) \<and>
        c_nul \<notin> set (shm_file_path g) \<and> length (shm_file_path g) = f_path_len g \<and>
        length (shm_file_key g) = f_key_len g" unfolding path_wf_def by blast
    then show ?thesis using file_core_eqD [OF g(2)] by simp
  qed
  have "a = b" if fa: "fheap z' a = Some f" and fb: "fheap z' b = Some g"
    and eq: "shm_file_path f = shm_file_path g" for a b f g
  proof -
    from hv(2) [OF fa] obtain f0 where f0: "fheap z a = Some f0" "file_core f = file_core f0" by blast
    from hv(2) [OF fb] obtain g0 where g0: "fheap z b = Some g0" "file_core g = file_core g0" by blast
    have "shm_file_path f0 = shm_file_path g0"
      using eq file_core_eqD [OF f0(2)] file_core_eqD [OF g0(2)] by simp
    with wf f0(1) g0(1) show ?thesis unfolding path_wf_def by blast
  qed
  with one tree show ?thesis
    unfolding path_wf_def hv(1) idx by blast
qed

lemma key_tree_wf_cong:
  assumes wf: "key_tree_wf N z" and idx: "z_key_index z' = z_key_index z"
    and view: "\<And>e. map_option (\<lambda>k. (ke_hash k, ke_key k)) (kheap z' e) =
             map_option (\<lambda>k. (ke_hash k, ke_key k)) (kheap z e)"
  shows "key_tree_wf N z'"
proof -
  note hv = heap_view [of "\<lambda>k. (ke_hash k, ke_key k)" "kheap z'" "kheap z", OF view]
  have "tree_of (memn2cmp N) (\<lambda>a. ke_hash (key_node_data z' a)) (key_node_string z') (z_key_index z)
      (dom (kheap z))"
  proof (rule tree_of_cong [THEN iffD2])
    show "tree_of (memn2cmp N) (\<lambda>a. ke_hash (key_node_data z a)) (key_node_string z) (z_key_index z)
        (dom (kheap z))" using wf by (simp add: key_tree_wf_def)
    show "ke_hash (key_node_data z' a) = ke_hash (key_node_data z a)"
      "key_node_string z' a = key_node_string z a" if "a \<in> dom (kheap z)" for a
      using hv(3) [OF that] by (simp_all add: node_defs)
  qed
  moreover have "ke_hash k = unat (crc32_short N (ke_key k))" if k: "kheap z' e = Some k" for e k
    using hv(2) [OF k] wf by (auto simp: key_tree_wf_def)
  ultimately show ?thesis
    unfolding key_tree_wf_def hv(1) idx by blast
qed

lemma tag_tree_wf_cong:
  assumes wf: "tag_tree_wf N z" and idx: "z_tag_index z' = z_tag_index z"
    and view: "\<And>e. map_option (\<lambda>k. (te_hash k, te_tag k)) (theap z' e) =
             map_option (\<lambda>k. (te_hash k, te_tag k)) (theap z e)"
  shows "tag_tree_wf N z'"
proof -
  note hv = heap_view [of "\<lambda>k. (te_hash k, te_tag k)" "theap z'" "theap z", OF view]
  have "tree_of (memn2cmp N) (\<lambda>a. te_hash (tag_node_data z' a)) (tag_node_string z') (z_tag_index z)
      (dom (theap z))"
  proof (rule tree_of_cong [THEN iffD2])
    show "tree_of (memn2cmp N) (\<lambda>a. te_hash (tag_node_data z a)) (tag_node_string z) (z_tag_index z)
        (dom (theap z))" using wf by (simp add: tag_tree_wf_def)
    show "te_hash (tag_node_data z' a) = te_hash (tag_node_data z a)"
      "tag_node_string z' a = tag_node_string z a" if "a \<in> dom (theap z)" for a
      using hv(3) [OF that] by (simp_all add: node_defs)
  qed
  moreover have "te_hash k = unat (crc32_short N (te_tag k))" if k: "theap z' e = Some k" for e k
    using hv(2) [OF k] wf by (auto simp: tag_tree_wf_def)
  ultimately show ?thesis
    unfolding tag_tree_wf_def hv(1) idx by blast
qed

text \<open>Deleting a node from a tree and its block from the heap.\<close>

lemma key_tree_wf_delete:
  assumes "ngx_core_ok N" and "key_tree_wf N z"
  shows "key_tree_wf N (z\<lparr>z_key_index := rbtree_delete N (z_key_index z) e, kheap := (kheap z)(e := None)\<rparr>)"
proof -
  let ?z = "z\<lparr>z_key_index := rbtree_delete N (z_key_index z) e, kheap := (kheap z)(e := None)\<rparr>"
  have "tree_of (memn2cmp N) (\<lambda>a. ke_hash (key_node_data z a)) (key_node_string z)
      (rbtree_delete N (z_key_index z) e) (dom (kheap z) - {e})"
    using assms by (intro tree_of_delete) (simp_all add: key_tree_wf_def)
  then have "tree_of (memn2cmp N) (\<lambda>a. ke_hash (key_node_data ?z a)) (key_node_string ?z)
      (rbtree_delete N (z_key_index z) e) (dom (kheap z) - {e})"
    by (subst tree_of_cong [where hash' = "\<lambda>a. ke_hash (key_node_data z a)" and str' = "key_node_string z"])
      (auto simp: node_defs)
  with assms(2) show ?thesis by (auto simp: key_tree_wf_def)
qed

lemma tag_tree_wf_delete:
  assumes "ngx_core_ok N" and "tag_tree_wf N z"
  shows "tag_tree_wf N (z\<lparr>z_tag_index := rbtree_delete N (z_tag_index z) e, theap := (theap z)(e := None)\<rparr>)"
proof -
  let ?z = "z\<lparr>z_tag_index := rbtree_delete N (z_tag_index z) e, theap := (theap z)(e := None)\<rparr>"
  have "tree_of (memn2cmp N) (\<lambda>a. te_hash (tag_node_data z a)) (tag_node_string z)
      (rbtree_delete N (z_tag_index z) e) (dom (theap z) - {e})"
    using assms by (intro tree_of_delete) (simp_all add: tag_tree_wf_def)
  then have "tree_of (memn2cmp N) (\<lambda>a. te_hash (tag_node_data ?z a)) (tag_node_string ?z)
      (rbtree_delete N (z_tag_index z) e) (dom (theap z) - {e})"
    by (subst tree_of_cong [where hash' = "\<lambda>a. te_hash (tag_node_data z a)" and str' = "tag_node_string z"])
      (auto simp: node_defs)
  with assms(2) show ?thesis by (auto simp: tag_tree_wf_def)
qed

section \<open>Frame rules\<close>

lemma files_wf_frame [simp]:
  "files_wf (z\<lparr>z_name := x0\<rparr>) = files_wf z"
  "files_wf (z\<lparr>z_bootstrap_complete := x1\<rparr>) = files_wf z"
  "files_wf (z\<lparr>z_last_bootstrap_at := x2\<rparr>) = files_wf z"
  "files_wf (z\<lparr>z_last_updated_at := x3\<rparr>) = files_wf z"
  "files_wf (z\<lparr>z_path_index := x4\<rparr>) = files_wf z"
  "files_wf (z\<lparr>z_key_index := x5\<rparr>) = files_wf z"
  "files_wf (z\<lparr>z_tag_index := x6\<rparr>) = files_wf z"
  "files_wf (z\<lparr>kheap := x7\<rparr>) = files_wf z"
  "files_wf (z\<lparr>theap := x8\<rparr>) = files_wf z"
  "files_wf (z\<lparr>mheap := x9\<rparr>) = files_wf z"
  by (simp_all add: files_wf_def)

lemma path_wf_frame [simp]:
  "path_wf N (z\<lparr>z_name := x0\<rparr>) = path_wf N z"
  "path_wf N (z\<lparr>z_bootstrap_complete := x1\<rparr>) = path_wf N z"
  "path_wf N (z\<lparr>z_last_bootstrap_at := x2\<rparr>) = path_wf N z"
  "path_wf N (z\<lparr>z_last_updated_at := x3\<rparr>) = path_wf N z"
  "path_wf N (z\<lparr>z_files := x4\<rparr>) = path_wf N z"
  "path_wf N (z\<lparr>z_key_index := x5\<rparr>) = path_wf N z"
  "path_wf N (z\<lparr>z_tag_index := x6\<rparr>) = path_wf N z"
  "path_wf N (z\<lparr>kheap := x7\<rparr>) = path_wf N z"
  "path_wf N (z\<lparr>theap := x8\<rparr>) = path_wf N z"
  "path_wf N (z\<lparr>mheap := x9\<rparr>) = path_wf N z"
  by (simp_all add: path_wf_def node_defs [abs_def])

lemma key_tree_wf_frame [simp]:
  "key_tree_wf N (z\<lparr>z_name := x0\<rparr>) = key_tree_wf N z"
  "key_tree_wf N (z\<lparr>z_bootstrap_complete := x1\<rparr>) = key_tree_wf N z"
  "key_tree_wf N (z\<lparr>z_last_bootstrap_at := x2\<rparr>) = key_tree_wf N z"
  "key_tree_wf N (z\<lparr>z_last_updated_at := x3\<rparr>) = key_tree_wf N z"
  "key_tree_wf N (z\<lparr>z_files := x4\<rparr>) = key_tree_wf N z"
  "key_tree_wf N (z\<lparr>z_path_index := x5\<rparr>) = key_tree_wf N z"
  "key_tree_wf N (z\<lparr>z_tag_index := x6\<rparr>) = key_tree_wf N z"
  "key_tree_wf N (z\<lparr>fheap := x7\<rparr>) = key_tree_wf N z"
  "key_tree_wf N (z\<lparr>theap := x8\<rparr>) = key_tree_wf N z"
  "key_tree_wf N (z\<lparr>mheap := x9\<rparr>) = key_tree_wf N z"
  by (simp_all add: key_tree_wf_def node_defs [abs_def])

lemma tag_tree_wf_frame [simp]:
  "tag_tree_wf N (z\<lparr>z_name := x0\<rparr>) = tag_tree_wf N z"
  "tag_tree_wf N (z\<lparr>z_bootstrap_complete := x1\<rparr>) = tag_tree_wf N z"
  "tag_tree_wf N (z\<lparr>z_last_bootstrap_at := x2\<rparr>) = tag_tree_wf N z"
  "tag_tree_wf N (z\<lparr>z_last_updated_at := x3\<rparr>) = tag_tree_wf N z"
  "tag_tree_wf N (z\<lparr>z_files := x4\<rparr>) = tag_tree_wf N z"
  "tag_tree_wf N (z\<lparr>z_path_index := x5\<rparr>) = tag_tree_wf N z"
  "tag_tree_wf N (z\<lparr>z_key_index := x6\<rparr>) = tag_tree_wf N z"
  "tag_tree_wf N (z\<lparr>fheap := x7\<rparr>) = tag_tree_wf N z"
  "tag_tree_wf N (z\<lparr>kheap := x8\<rparr>) = tag_tree_wf N z"
  "tag_tree_wf N (z\<lparr>mheap := x9\<rparr>) = tag_tree_wf N z"
  by (simp_all add: tag_tree_wf_def node_defs [abs_def])

lemma key_links_wf_frame [simp]:
  "key_links_wf (z\<lparr>z_name := x0\<rparr>) = key_links_wf z"
  "key_links_wf (z\<lparr>z_bootstrap_complete := x1\<rparr>) = key_links_wf z"
  "key_links_wf (z\<lparr>z_last_bootstrap_at := x2\<rparr>) = key_links_wf z"
  "key_links_wf (z\<lparr>z_last_updated_at := x3\<rparr>) = key_links_wf z"
  "key_links_wf (z\<lparr>z_files := x4\<rparr>) = key_links_wf z"
  "key_links_wf (z\<lparr>z_path_index := x5\<rparr>) = key_links_wf z"
  "key_links_wf (z\<lparr>z_key_index := x6\<rparr>) = key_links_wf z"
  "key_links_wf (z\<lparr>z_tag_index := x7\<rparr>) = key_links_wf z"
  "key_links_wf (z\<lparr>theap := x8\<rparr>) = key_links_wf z"
  "key_links_wf (z\<lparr>mheap := x9\<rparr>) = key_links_wf z"
  by (simp_all add: key_links_wf_def)

lemma tag_links_wf_frame [simp]:
  "tag_links_wf (z\<lparr>z_name := x0\<rparr>) = tag_links_wf z"
  "tag_links_wf (z\<lparr>z_bootstrap_complete := x1\<rparr>) = tag_links_wf z"
  "tag_links_wf (z\<lparr>z_last_bootstrap_at := x2\<rparr>) = tag_links_wf z"
  "tag_links_wf (z\<lparr>z_last_updated_at := x3\<rparr>) = tag_links_wf z"
  "tag_links_wf (z\<lparr>z_files := x4\<rparr>) = tag_links_wf z"
  "tag_links_wf (z\<lparr>z_path_index := x5\<rparr>) = tag_links_wf z"
  "tag_links_wf (z\<lparr>z_key_index := x6\<rparr>) = tag_links_wf z"
  "tag_links_wf (z\<lparr>z_tag_index := x7\<rparr>) = tag_links_wf z"
  "tag_links_wf (z\<lparr>kheap := x8\<rparr>) = tag_links_wf z"
  by (simp_all add: tag_links_wf_def)

section \<open>Changing the links\<close>

lemma key_links_add:
  assumes "key_links fh kh" and "kh e = None" and "ke_files k = []"
  shows "key_links fh (kh(e \<mapsto> k))"
  using assms unfolding key_links_def by (auto split: if_splits) (metis option.distinct(1))+

lemma key_links_del:
  assumes "key_links fh kh" and "kh e = Some k" and "ke_files k = []"
  shows "key_links fh (kh(e := None))"
  using assms unfolding key_links_def by (auto split: if_splits) force

lemma key_links_link:
  assumes "key_links fh kh" and "fh a = Some f" and "f_key_entry f = None"
    and "kh e = Some k" and "ke_key k = shm_file_key f"
  shows "key_links (modify (\<lambda>f. f\<lparr>f_key_entry := Some e\<rparr>) a fh)
           (modify (\<lambda>k. k\<lparr>ke_files := ke_files k @ [a]\<rparr>) e kh)"
  using assms unfolding key_links_def by (fastforce simp: modify_apply split: if_splits)

lemma key_links_unlink:
  assumes "key_links fh kh" and "fh a = Some f" and "f_key_entry f = Some e"
  shows "key_links (modify (\<lambda>f. f\<lparr>f_key_entry := None\<rparr>) a fh)
           (modify (\<lambda>k. k\<lparr>ke_files := remove1 a (ke_files k)\<rparr>) e kh)"
  using assms unfolding key_links_def by (fastforce simp: modify_apply split: if_splits)

lemma key_links_new_file:
  assumes "key_links fh kh" and "fh a = None" and "f_key_entry f = None"
  shows "key_links (fh(a \<mapsto> f)) kh"
  using assms unfolding key_links_def by (auto split: if_splits)

lemma key_links_del_file:
  assumes "key_links fh kh" and "fh a = Some f" and "f_key_entry f = None"
  shows "key_links (fh(a := None)) kh"
  using assms unfolding key_links_def by (auto split: if_splits)

lemma key_links_cong:
  assumes "key_links fh kh"
    and "\<And>a. map_option (\<lambda>f. (f_key_entry f, shm_file_key f)) (fh' a) =
             map_option (\<lambda>f. (f_key_entry f, shm_file_key f)) (fh a)"
  shows "key_links fh' kh"
proof -
  have fwd: "\<exists>g. fh a = Some g \<and> f_key_entry g = f_key_entry f \<and> shm_file_key g = shm_file_key f"
    if "fh' a = Some f" for a f using assms(2) [of a] that by (cases "fh a") auto
  have bwd: "\<exists>g. fh' a = Some g \<and> f_key_entry g = f_key_entry f"
    if "fh a = Some f" for a f using assms(2) [of a] that by (cases "fh' a") auto
  have iff: "(\<exists>f. fh' a = Some f \<and> f_key_entry f = e) \<longleftrightarrow> (\<exists>f. fh a = Some f \<and> f_key_entry f = e)" for a e
    using fwd bwd by metis
  have "\<exists>k. kh e = Some k \<and> ke_key k = shm_file_key f" if "fh' a = Some f" "f_key_entry f = Some e" for a f e
    using fwd [OF that(1)] that(2) assms(1) unfolding key_links_def by metis
  with assms(1) iff show ?thesis unfolding key_links_def by simp
qed

lemma tag_links_add:
  assumes "tag_links fh th mh" and "th e = None" and "te_files t = []"
  shows "tag_links fh (th(e \<mapsto> t)) mh"
  using assms unfolding tag_links_def by (auto split: if_splits)

lemma tag_links_del:
  assumes "tag_links fh th mh" and "th e = Some t" and "te_files t = []"
  shows "tag_links fh (th(e := None)) mh"
  using assms unfolding tag_links_def by (auto split: if_splits) force

lemma tag_links_new_file:
  assumes "tag_links fh th mh" and "fh a = None" and "f_tag_members f = []"
  shows "tag_links (fh(a \<mapsto> f)) th mh"
  using assms unfolding tag_links_def by (auto split: if_splits)

lemma tag_links_del_file:
  assumes "tag_links fh th mh" and "fh a = Some f" and "f_tag_members f = []"
  shows "tag_links (fh(a := None)) th mh"
  using assms unfolding tag_links_def by (auto split: if_splits) force

lemma tag_links_link:
  assumes "tag_links fh th mh" and "mh m = None" and "a \<in> dom fh" and "e \<in> dom th"
  shows "tag_links (modify (\<lambda>f. f\<lparr>f_tag_members := f_tag_members f @ [m]\<rparr>) a fh)
           (modify (\<lambda>t. t\<lparr>te_files := te_files t @ [m]\<rparr>) e th)
           (mh(m \<mapsto> \<lparr>tm_entry = e, tm_file = a\<rparr>))"
  using assms unfolding tag_links_def by (fastforce simp: modify_apply split: if_splits)

lemma tag_links_unlink:
  assumes "tag_links fh th mh" and "mh m = Some mm"
  shows "tag_links (modify (\<lambda>f. f\<lparr>f_tag_members := remove1 m (f_tag_members f)\<rparr>) (tm_file mm) fh)
           (modify (\<lambda>t. t\<lparr>te_files := remove1 m (te_files t)\<rparr>) (tm_entry mm) th)
           (mh(m := None))"
  using assms unfolding tag_links_def by (fastforce simp: modify_apply split: if_splits)

lemma tag_links_cong:
  assumes "tag_links fh th mh"
    and "\<And>a. map_option f_tag_members (fh' a) = map_option f_tag_members (fh a)"
  shows "tag_links fh' th mh"
proof -
  have "\<exists>g. fh a = Some g \<and> f_tag_members g = f_tag_members f" if "fh' a = Some f" for a f
    using assms(2) [of a] that by (cases "fh a") auto
  then have "distinct (f_tag_members f) \<and>
      (\<forall>m. m \<in> set (f_tag_members f) \<longleftrightarrow> (\<exists>mm. mh m = Some mm \<and> tm_file mm = a))" if "fh' a = Some f" for a f
    using that assms(1) unfolding tag_links_def by metis
  moreover have "dom fh' = dom fh" by (rule heap_view(1) [OF assms(2)])
  ultimately show ?thesis using assms(1) unfolding tag_links_def by simp
qed

section \<open>Adding entries\<close>

lemma zone_wf_add_key_entry:
  assumes ok: "ngx_core_ok N" and wf: "zone_wf N z" and fresh: "kheap z e = None"
    and new: "\<And>x k. kheap z x = Some k \<Longrightarrow> ke_key k \<noteq> key"
    and z1: "z1 = z\<lparr>kheap := (kheap z)(e \<mapsto> \<lparr>ke_hash = h, ke_files = [], ke_key = key\<rparr>)\<rparr>"
    and h: "h = unat (crc32_short N key)"
  shows "zone_wf N (z1\<lparr>z_key_index := rbtree_insert N (key_insert N z1) (z_key_index z1) h e\<rparr>)"
proof -
  let ?z = "z1\<lparr>z_key_index := rbtree_insert N (key_insert N z1) (z_key_index z1) h e\<rparr>"
  note parts = wf [unfolded zone_wf_def]
  have tree: "tree_of (memn2cmp N) (\<lambda>a. ke_hash (key_node_data z1 a)) (key_node_string z1) (z_key_index z)
      (dom (kheap z))"
  proof (rule tree_of_cong [THEN iffD2])
    show "tree_of (memn2cmp N) (\<lambda>a. ke_hash (key_node_data z a)) (key_node_string z) (z_key_index z)
        (dom (kheap z))" using parts by (simp add: key_tree_wf_def)
  qed (use fresh in \<open>auto simp: node_defs z1\<close>)
  have "tree_of (memn2cmp N) (\<lambda>a. ke_hash (key_node_data z1 a)) (key_node_string z1)
      (rbtree_insert N (key_insert N z1) (z_key_index z) h e) (insert e (dom (kheap z)))"
  proof (rule tree_of_insert [OF ok _ _ _ tree])
    show "key_insert N z1 = insert_generic (key_node_string z1) (key_node_data z1) (key_cmp N)"
      by (simp add: key_insert_def)
    show "key_cmp N = (\<lambda>needle d. memn2cmp N needle (ke_key d))"
      by (simp add: key_cmp_def [abs_def])
    show "ke_key (key_node_data z1 x) = key_node_string z1 x" for x
      by (simp add: key_node_string_def)
    have "key_node_string z1 x \<noteq> key_node_string z1 e" if "x \<in> dom (kheap z)" for x
      using that new fresh by (cases "x = e") (fastforce simp: node_defs z1)+
    then show "\<forall>x \<in> dom (kheap z).
        (ke_hash (key_node_data z1 x), key_node_string z1 x) \<noteq> (h, key_node_string z1 e)" by blast
    show "ke_hash (key_node_data z1 e) = h" by (simp add: node_defs z1)
  qed
  then have "key_tree_wf N ?z"
    using parts h by (auto simp: key_tree_wf_def node_defs [abs_def] z1)
  moreover have "key_links_wf ?z"
    using parts fresh by (simp add: key_links_wf_def z1 key_links_add)
  ultimately show ?thesis
    using parts by (simp add: zone_wf_def z1)
qed

lemma zone_wf_add_tag_entry:
  assumes ok: "ngx_core_ok N" and wf: "zone_wf N z" and fresh: "theap z e = None"
    and new: "\<And>x t. theap z x = Some t \<Longrightarrow> te_tag t \<noteq> tag"
    and z1: "z1 = z\<lparr>theap := (theap z)(e \<mapsto> \<lparr>te_hash = h, te_files = [], te_tag = tag\<rparr>)\<rparr>"
    and h: "h = unat (crc32_short N tag)"
  shows "zone_wf N (z1\<lparr>z_tag_index := rbtree_insert N (tag_insert N z1) (z_tag_index z1) h e\<rparr>)"
proof -
  let ?z = "z1\<lparr>z_tag_index := rbtree_insert N (tag_insert N z1) (z_tag_index z1) h e\<rparr>"
  note parts = wf [unfolded zone_wf_def]
  have tree: "tree_of (memn2cmp N) (\<lambda>a. te_hash (tag_node_data z1 a)) (tag_node_string z1) (z_tag_index z)
      (dom (theap z))"
  proof (rule tree_of_cong [THEN iffD2])
    show "tree_of (memn2cmp N) (\<lambda>a. te_hash (tag_node_data z a)) (tag_node_string z) (z_tag_index z)
        (dom (theap z))" using parts by (simp add: tag_tree_wf_def)
  qed (use fresh in \<open>auto simp: node_defs z1\<close>)
  have "tree_of (memn2cmp N) (\<lambda>a. te_hash (tag_node_data z1 a)) (tag_node_string z1)
      (rbtree_insert N (tag_insert N z1) (z_tag_index z) h e) (insert e (dom (theap z)))"
  proof (rule tree_of_insert [OF ok _ _ _ tree])
    show "tag_insert N z1 = insert_generic (tag_node_string z1) (tag_node_data z1) (tag_cmp N)"
      by (simp add: tag_insert_def)
    show "tag_cmp N = (\<lambda>needle d. memn2cmp N needle (te_tag d))"
      by (simp add: tag_cmp_def [abs_def])
    show "te_tag (tag_node_data z1 x) = tag_node_string z1 x" for x
      by (simp add: tag_node_string_def)
    have "tag_node_string z1 x \<noteq> tag_node_string z1 e" if "x \<in> dom (theap z)" for x
      using that new fresh by (cases "x = e") (fastforce simp: node_defs z1)+
    then show "\<forall>x \<in> dom (theap z).
        (te_hash (tag_node_data z1 x), tag_node_string z1 x) \<noteq> (h, tag_node_string z1 e)" by blast
    show "te_hash (tag_node_data z1 e) = h" by (simp add: node_defs z1)
  qed
  then have "tag_tree_wf N ?z"
    using parts h by (auto simp: tag_tree_wf_def node_defs [abs_def] z1)
  moreover have "tag_links_wf ?z"
    using parts fresh by (simp add: tag_links_wf_def z1 tag_links_add)
  ultimately show ?thesis
    using parts by (simp add: zone_wf_def z1)
qed

section \<open>Linking and unlinking\<close>

lemma zone_wf_link_key:
  assumes wf: "zone_wf N z" and "fheap z a = Some f" and "f_key_entry f = None"
    and "kheap z e = Some k" and "ke_key k = shm_file_key f"
  shows "zone_wf N (z\<lparr>fheap := modify (\<lambda>f. f\<lparr>f_key_entry := Some e\<rparr>) a (fheap z),
               kheap := modify (\<lambda>k. k\<lparr>ke_files := ke_files k @ [a]\<rparr>) e (kheap z)\<rparr>)" (is "zone_wf N ?z")
proof -
  note parts = wf [unfolded zone_wf_def]
  have "files_wf ?z" using parts by (simp add: files_wf_def)
  moreover have "path_wf N ?z"
    by (rule path_wf_cong [of N z]) (use parts in \<open>simp_all add: modify_apply option.map_comp comp_def\<close>)
  moreover have "key_tree_wf N ?z"
    by (rule key_tree_wf_cong [of N z]) (use parts in \<open>simp_all add: modify_apply option.map_comp comp_def\<close>)
  moreover have "tag_tree_wf N ?z" using parts by simp
  moreover have "key_links_wf ?z"
    using parts assms(2-) key_links_link by (simp add: key_links_wf_def)
  moreover have "tag_links_wf ?z"
    using parts by (auto simp: tag_links_wf_def modify_apply option.map_comp comp_def
        intro: tag_links_cong [of "fheap z"])
  ultimately show ?thesis by (simp add: zone_wf_def)
qed

lemma zone_wf_link_member:
  assumes wf: "zone_wf N z" and "mheap z m = None" and "a \<in> dom (fheap z)" and "e \<in> dom (theap z)"
  shows "zone_wf N (link_member z e m a)" (is "zone_wf N ?z")
proof -
  note parts = wf [unfolded zone_wf_def]
  have "files_wf ?z" using parts by (simp add: files_wf_def link_member_def)
  moreover have "path_wf N ?z"
    by (rule path_wf_cong [of N z])
      (use parts in \<open>simp_all add: link_member_def modify_apply option.map_comp comp_def\<close>)
  moreover have "tag_tree_wf N ?z"
    by (rule tag_tree_wf_cong [of N z])
      (use parts in \<open>simp_all add: link_member_def modify_apply option.map_comp comp_def\<close>)
  moreover have "key_tree_wf N ?z" using parts by (simp add: link_member_def)
  moreover have "tag_links_wf ?z"
    using parts assms(2-) tag_links_link by (simp add: tag_links_wf_def link_member_def)
  moreover have "key_links_wf ?z"
    using parts by (auto simp: key_links_wf_def link_member_def modify_apply option.map_comp comp_def
        intro: key_links_cong [of "fheap z"])
  ultimately show ?thesis by (simp add: zone_wf_def)
qed

text \<open>The two unlinkings, before the entry that may have become empty is freed.\<close>

definition drop_key :: "shm_zone \<Rightarrow> addr \<Rightarrow> addr \<Rightarrow> shm_zone" where
  "drop_key z a e = z\<lparr>fheap := modify (\<lambda>f. f\<lparr>f_key_entry := None\<rparr>) a (fheap z),
     kheap := modify (\<lambda>k. k\<lparr>ke_files := remove1 a (ke_files k)\<rparr>) e (kheap z)\<rparr>"

definition drop_member :: "shm_zone \<Rightarrow> addr \<Rightarrow> addr \<Rightarrow> addr \<Rightarrow> shm_zone" where
  "drop_member z a e m =
     z\<lparr>theap := modify (\<lambda>t. t\<lparr>te_files := remove1 m (te_files t)\<rparr>) e (theap z),
       fheap := modify (\<lambda>f. f\<lparr>f_tag_members := remove1 m (f_tag_members f)\<rparr>) a (fheap z),
       mheap := (mheap z)(m := None)\<rparr>"

lemma zone_wf_drop_key:
  assumes wf: "zone_wf N z" and "fheap z a = Some f" and "f_key_entry f = Some e"
  shows "zone_wf N (drop_key z a e)" (is "zone_wf N ?z")
proof -
  note parts = wf [unfolded zone_wf_def]
  have "files_wf ?z" using parts by (simp add: files_wf_def drop_key_def)
  moreover have "path_wf N ?z"
    by (rule path_wf_cong [of N z])
      (use parts in \<open>simp_all add: drop_key_def modify_apply option.map_comp comp_def\<close>)
  moreover have "key_tree_wf N ?z"
    by (rule key_tree_wf_cong [of N z])
      (use parts in \<open>simp_all add: drop_key_def modify_apply option.map_comp comp_def\<close>)
  moreover have "tag_tree_wf N ?z" using parts by (simp add: drop_key_def)
  moreover have "key_links_wf ?z"
    using parts assms(2-) key_links_unlink by (simp add: key_links_wf_def drop_key_def)
  moreover have "tag_links_wf ?z"
    using parts by (auto simp: tag_links_wf_def drop_key_def modify_apply option.map_comp comp_def
        intro: tag_links_cong [of "fheap z"])
  ultimately show ?thesis by (simp add: zone_wf_def)
qed

lemma zone_wf_drop_member:
  assumes wf: "zone_wf N z" and "mheap z m = Some mm"
  shows "zone_wf N (drop_member z (tm_file mm) (tm_entry mm) m)" (is "zone_wf N ?z")
proof -
  note parts = wf [unfolded zone_wf_def]
  have "files_wf ?z" using parts by (simp add: files_wf_def drop_member_def)
  moreover have "path_wf N ?z"
    by (rule path_wf_cong [of N z])
      (use parts in \<open>simp_all add: drop_member_def modify_apply option.map_comp comp_def\<close>)
  moreover have "tag_tree_wf N ?z"
    by (rule tag_tree_wf_cong [of N z])
      (use parts in \<open>simp_all add: drop_member_def modify_apply option.map_comp comp_def\<close>)
  moreover have "key_tree_wf N ?z" using parts by (simp add: drop_member_def)
  moreover have "tag_links_wf ?z"
    using parts assms(2-) tag_links_unlink by (simp add: tag_links_wf_def drop_member_def)
  moreover have "key_links_wf ?z"
    using parts by (auto simp: key_links_wf_def drop_member_def modify_apply option.map_comp comp_def
        intro: key_links_cong [of "fheap z"])
  ultimately show ?thesis by (simp add: zone_wf_def)
qed

section \<open>Freeing an entry, adding and deleting a file\<close>

lemma zone_wf_free_key:
  assumes ok: "ngx_core_ok N" and wf: "zone_wf N z" and "e \<in> dom (kheap z)"
    and free: "free_empty_key_entry_locked N p z e = (p', z')"
  shows "zone_wf N z'"
proof (cases "ke_files (the (kheap z e)) = []")
  case True
  note parts = wf [unfolded zone_wf_def]
  have "key_links_wf z'"
    using True parts assms(3) key_links_del [of "fheap z" "kheap z" e] free
    by (auto simp: free_empty_key_entry_locked_def key_links_wf_def)
  moreover have "key_tree_wf N z'"
    using True free key_tree_wf_delete [OF ok] parts by (auto simp: free_empty_key_entry_locked_def)
  ultimately show ?thesis using True free parts
    by (auto simp: free_empty_key_entry_locked_def zone_wf_def)
next
  case False
  with wf free show ?thesis by (simp add: free_empty_key_entry_locked_def)
qed

lemma zone_wf_free_tag:
  assumes ok: "ngx_core_ok N" and wf: "zone_wf N z" and "e \<in> dom (theap z)"
    and free: "free_empty_tag_entry_locked N p z e = (p', z')"
  shows "zone_wf N z'"
proof (cases "te_files (the (theap z e)) = []")
  case True
  note parts = wf [unfolded zone_wf_def]
  have "tag_links_wf z'"
    using True parts assms(3) tag_links_del [of "fheap z" "theap z" "mheap z" e] free
    by (auto simp: free_empty_tag_entry_locked_def tag_links_wf_def)
  moreover have "tag_tree_wf N z'"
    using True free tag_tree_wf_delete [OF ok] parts by (auto simp: free_empty_tag_entry_locked_def)
  ultimately show ?thesis using True free parts
    by (auto simp: free_empty_tag_entry_locked_def zone_wf_def)
next
  case False
  with wf free show ?thesis by (simp add: free_empty_tag_entry_locked_def)
qed

lemma zone_wf_insert_file:
  assumes ok: "ngx_core_ok N" and wf: "zone_wf N z" and fresh: "fheap z a = None"
    and new: "\<forall>g \<in> ran (fheap z). shm_file_path g \<noteq> shm_file_path f"
    and f: "f_key_entry f = None" "f_tag_members f = []" "f_hash f = path_hash N (shm_file_path f)"
      "c_nul \<notin> set (shm_file_path f)" "length (shm_file_path f) = f_path_len f"
      "length (shm_file_key f) = f_key_len f"
  shows "zone_wf N (insert_file N z a f)" (is "zone_wf N ?z")
proof -
  note parts = wf [unfolded zone_wf_def]
  define z1 where "z1 = z\<lparr>fheap := (fheap z)(a \<mapsto> f)\<rparr>"
  have z: "?z = z1\<lparr>z_path_index := rbtree_insert N (path_insert N z1) (z_path_index z) (f_hash f) a,
      z_files := z_files z @ [a]\<rparr>"
    by (simp add: insert_file_def z1_def Let_def)
  have tree: "tree_of (memn2cmp N) (\<lambda>a. f_hash (path_node_data z1 a)) (path_node_string z1) (z_path_index z)
      (dom (fheap z))"
  proof (rule tree_of_cong [THEN iffD2])
    show "tree_of (memn2cmp N) (\<lambda>a. f_hash (path_node_data z a)) (path_node_string z) (z_path_index z)
        (dom (fheap z))" using parts by (simp add: path_wf_def)
  qed (use fresh in \<open>auto simp: node_defs z1_def\<close>)
  have "tree_of (memn2cmp N) (\<lambda>a. f_hash (path_node_data z1 a)) (path_node_string z1)
      (rbtree_insert N (path_insert N z1) (z_path_index z) (f_hash f) a) (insert a (dom (fheap z)))"
  proof (rule tree_of_insert [OF ok _ _ _ tree])
    show "path_insert N z1 = insert_generic (path_node_string z1) (path_node_data z1) (path_cmp N)"
      by (simp add: path_insert_def)
    show "path_cmp N = (\<lambda>needle d. memn2cmp N needle (shm_file_path d))"
      by (simp add: path_cmp_def [abs_def])
    show "shm_file_path (path_node_data z1 x) = path_node_string z1 x" for x
      by (simp add: path_node_string_def)
    have "path_node_string z1 x \<noteq> path_node_string z1 a" if "x \<in> dom (fheap z)" for x
      using that new fresh by (cases "x = a") (auto simp: node_defs z1_def ranI)
    then show "\<forall>x \<in> dom (fheap z).
        (f_hash (path_node_data z1 x), path_node_string z1 x) \<noteq> (f_hash f, path_node_string z1 a)" by blast
    show "f_hash (path_node_data z1 a) = f_hash f" by (simp add: node_defs z1_def)
  qed
  then have "tree_of (memn2cmp N) (\<lambda>a. f_hash (path_node_data z1 a)) (path_node_string z1)
      (rbtree_insert N (path_insert N z1) (z_path_index z) (f_hash f) a) (dom (fheap z1))"
    by (simp add: z1_def)
  moreover have "\<forall>b g. fheap z1 b = Some g \<longrightarrow>
      (f_hash g = path_hash N (shm_file_path g) \<or> f_hash g = path_hash_legacy N (shm_file_path g)) \<and>
      c_nul \<notin> set (shm_file_path g) \<and> length (shm_file_path g) = f_path_len g \<and>
      length (shm_file_key g) = f_key_len g"
    using f parts by (auto simp: path_wf_def z1_def)
  moreover have "\<forall>b c g h. fheap z1 b = Some g \<longrightarrow> fheap z1 c = Some h \<longrightarrow>
      shm_file_path g = shm_file_path h \<longrightarrow> b = c"
    using new parts by (auto simp: path_wf_def z1_def dest: ranI)
  ultimately have "path_wf N (z1\<lparr>z_path_index := rbtree_insert N (path_insert N z1) (z_path_index z) (f_hash f) a\<rparr>)"
    unfolding path_wf_def by (simp add: node_defs [abs_def])
  then have "path_wf N ?z" by (simp add: z)
  moreover have "files_wf ?z"
    using parts fresh by (auto simp: files_wf_def z z1_def)
  moreover have "key_links_wf ?z"
    using parts fresh f by (simp add: key_links_wf_def z z1_def key_links_new_file)
  moreover have "tag_links_wf ?z"
    using parts fresh f by (simp add: tag_links_wf_def z z1_def tag_links_new_file)
  ultimately show ?thesis using parts by (simp add: zone_wf_def z z1_def)
qed

definition delete_file_block :: "ngx_core \<Rightarrow> shm_zone \<Rightarrow> addr \<Rightarrow> shm_zone" where
  "delete_file_block N z a = z\<lparr>z_path_index := rbtree_delete N (z_path_index z) a,
     z_files := remove1 a (z_files z), fheap := (fheap z)(a := None)\<rparr>"

lemma zone_wf_delete_file_block:
  assumes ok: "ngx_core_ok N" and wf: "zone_wf N z" and f: "fheap z a = Some f"
    and bare: "f_key_entry f = None" "f_tag_members f = []"
  shows "zone_wf N (delete_file_block N z a)" (is "zone_wf N ?z")
proof -
  note parts = wf [unfolded zone_wf_def]
  have "tree_of (memn2cmp N) (\<lambda>a. f_hash (path_node_data z a)) (path_node_string z)
      (rbtree_delete N (z_path_index z) a) (dom (fheap z) - {a})"
    using ok parts by (intro tree_of_delete) (simp_all add: path_wf_def)
  then have "tree_of (memn2cmp N) (\<lambda>a. f_hash (path_node_data ?z a)) (path_node_string ?z)
      (rbtree_delete N (z_path_index z) a) (dom (fheap z) - {a})"
    by (subst tree_of_cong [where hash' = "\<lambda>a. f_hash (path_node_data z a)" and str' = "path_node_string z"])
      (auto simp: node_defs delete_file_block_def)
  then have "path_wf N ?z"
    using parts by (auto simp: path_wf_def delete_file_block_def split: if_splits)
  moreover have "files_wf ?z"
    using parts by (auto simp: files_wf_def delete_file_block_def)
  moreover have "key_links_wf ?z"
    using parts key_links_del_file f bare by (simp add: key_links_wf_def delete_file_block_def)
  moreover have "tag_links_wf ?z"
    using parts tag_links_del_file f bare by (simp add: tag_links_wf_def delete_file_block_def)
  ultimately show ?thesis using parts by (simp add: zone_wf_def delete_file_block_def)
qed

end
