(* ===== verification/Zone_Mem.thy ===== *)
theory Zone_Mem
  imports Zone_Ops
begin

text \<open>
  Memory of a zone and the effect of the routines of \<open>Shm_Zone\<close> on its files.  A routine
  \<open>keeps\<close> a zone when it leaves it well-formed, when every block of the zone is a live block of
  the slab pool, and when the live blocks outside the zone are the same as before: no leak, no
  double free, no use of a freed block.  \<open>rec_at\<close> is what a user of the index can
  see of a file: path, key, modification time, size, tags.
\<close>

section \<open>Memory\<close>

definition zone_addrs :: "shm_zone \<Rightarrow> addr set" where
  "zone_addrs z = dom (fheap z) \<union> dom (kheap z) \<union> dom (theap z) \<union> dom (mheap z)"

definition heaps_disjoint :: "shm_zone \<Rightarrow> bool" where
  "heaps_disjoint z \<longleftrightarrow>
     dom (fheap z) \<inter> dom (kheap z) = {} \<and> dom (fheap z) \<inter> dom (theap z) = {} \<and>
     dom (fheap z) \<inter> dom (mheap z) = {} \<and> dom (kheap z) \<inter> dom (theap z) = {} \<and>
     dom (kheap z) \<inter> dom (mheap z) = {} \<and> dom (theap z) \<inter> dom (mheap z) = {}"

definition zone_inv :: "ngx_core \<Rightarrow> slab_pool \<Rightarrow> shm_zone \<Rightarrow> bool" where
  "zone_inv N p z \<longleftrightarrow> zone_wf N z \<and> heaps_disjoint z \<and> zone_addrs z \<subseteq> slab_live (slab p)"

definition outside :: "slab_pool \<Rightarrow> shm_zone \<Rightarrow> addr set" where
  "outside p z = slab_live (slab p) - zone_addrs z"

definition zone_head :: "shm_zone \<Rightarrow> ngx_str \<times> bool \<times> int \<times> int" where
  "zone_head z = (z_name z, z_bootstrap_complete z, z_last_bootstrap_at z, z_last_updated_at z)"

definition keeps :: "ngx_core \<Rightarrow> slab_pool \<Rightarrow> shm_zone \<Rightarrow> slab_pool \<Rightarrow> shm_zone \<Rightarrow> bool" where
  "keeps N p z p' z' \<longleftrightarrow>
     zone_inv N p' z' \<and> outside p' z' = outside p z \<and> zone_head z' = zone_head z"

lemma keeps_refl: "zone_inv N p z \<Longrightarrow> keeps N p z p z"
  by (simp add: keeps_def)

lemma keeps_trans: "keeps N p z p1 z1 \<Longrightarrow> keeps N p1 z1 p2 z2 \<Longrightarrow> keeps N p z p2 z2"
  by (simp add: keeps_def)

lemma keeps_inv: "keeps N p z p' z' \<Longrightarrow> zone_inv N p' z'"
  by (simp add: keeps_def)

lemma alloc_lockedD:
  assumes "ngx_core_ok N" and "alloc_locked N p n = (r, p')"
  shows "r = None \<Longrightarrow> slab_live (slab p') = slab_live (slab p)"
    and "r = Some a \<Longrightarrow> a \<notin> slab_live (slab p)"
    and "r = Some a \<Longrightarrow> slab_live (slab p') = insert a (slab_live (slab p))"
  using assms core_okD(8) [OF assms(1)]
  by (auto simp: alloc_locked_def split: option.splits)

lemma slab_free_live [simp]: "slab_live (slab (slab_free_locked p a)) = slab_live (slab p) - {a}"
  by (simp add: slab_free_locked_def)

text \<open>A failed allocation changes nothing but the counter.\<close>

lemma keeps_alloc_none:
  assumes "ngx_core_ok N" and "zone_inv N p z" and "alloc_locked N p n = (None, p')"
  shows "keeps N p z p' z"
  using alloc_lockedD(1) [OF assms(1,3)] assms(2)
  by (simp add: keeps_def zone_inv_def outside_def)

section \<open>What a user sees of a file\<close>

definition file_tags :: "shm_zone \<Rightarrow> shm_file \<Rightarrow> ngx_str list" where
  "file_tags z f =
     map (\<lambda>m. te_tag (the (theap z (tm_entry (the (mheap z m)))))) (f_tag_members f)"

type_synonym file_rec = "ngx_str \<times> ngx_str \<times> int \<times> int \<times> bool \<times> ngx_str list"

definition file_rec :: "shm_zone \<Rightarrow> shm_file \<Rightarrow> file_rec" where
  "file_rec z f =
     (shm_file_path f, shm_file_key f, f_mtime f, f_size f, f_key_entry f \<noteq> None, file_tags z f)"

definition rec_at :: "shm_zone \<Rightarrow> addr \<Rightarrow> file_rec option" where
  "rec_at z a = map_option (file_rec z) (fheap z a)"

lemma rec_at_frame [simp]:
  "rec_at (z\<lparr>z_name := x0\<rparr>) = rec_at z" "rec_at (z\<lparr>z_bootstrap_complete := x1\<rparr>) = rec_at z"
  "rec_at (z\<lparr>z_last_bootstrap_at := x2\<rparr>) = rec_at z" "rec_at (z\<lparr>z_last_updated_at := x3\<rparr>) = rec_at z"
  "rec_at (z\<lparr>z_files := x4\<rparr>) = rec_at z" "rec_at (z\<lparr>z_path_index := x5\<rparr>) = rec_at z"
  "rec_at (z\<lparr>z_key_index := x6\<rparr>) = rec_at z" "rec_at (z\<lparr>z_tag_index := x7\<rparr>) = rec_at z"
  "rec_at (z\<lparr>kheap := x8\<rparr>) = rec_at z"
  by (simp_all add: fun_eq_iff rec_at_def file_rec_def [abs_def] file_tags_def)

section \<open>Entries\<close>

lemma zone_invD:
  assumes "zone_inv N p z"
  shows "zone_wf N z" and "heaps_disjoint z" and "zone_addrs z \<subseteq> slab_live (slab p)"
  using assms by (simp_all add: zone_inv_def)

lemma fresh_not_in_heaps:
  assumes "zone_inv N p z" and "a \<notin> slab_live (slab p)"
  shows "fheap z a = None" and "kheap z a = None" and "theap z a = None" and "mheap z a = None"
  using assms by (auto simp: zone_inv_def zone_addrs_def)

lemma tag_links_wfD:
  assumes "zone_wf N z"
  shows "fheap z a = Some f \<Longrightarrow> m \<in> set (f_tag_members f) \<longleftrightarrow>
           (\<exists>mm. mheap z m = Some mm \<and> tm_file mm = a)"
    and "theap z e = Some t \<Longrightarrow> m \<in> set (te_files t) \<longleftrightarrow> (\<exists>mm. mheap z m = Some mm \<and> tm_entry mm = e)"
    and "mheap z m = Some mm \<Longrightarrow> tm_entry mm \<in> dom (theap z) \<and> tm_file mm \<in> dom (fheap z)"
    and "fheap z a = Some f \<Longrightarrow> distinct (f_tag_members f)"
  using assms unfolding zone_wf_def tag_links_wf_def tag_links_def by blast+

text \<open>Adding and freeing an entry no member refers to changes no tag list.\<close>

lemma rec_at_theap_add:
  assumes "zone_wf N z" and "theap z e = None"
  shows "rec_at (z\<lparr>theap := (theap z)(e := x)\<rparr>) = rec_at z"
proof
  fix b
  have "tm_entry (the (mheap z m)) \<noteq> e" if "fheap z b = Some f" "m \<in> set (f_tag_members f)" for f m
    using tag_links_wfD(1) [OF assms(1) that(1)] that(2) tag_links_wfD(3) [OF assms(1), of m] assms(2)
    by auto
  then show "rec_at (z\<lparr>theap := (theap z)(e := x)\<rparr>) b = rec_at z b"
    by (cases "fheap z b") (auto simp: rec_at_def file_rec_def file_tags_def)
qed

lemma rec_at_theap_del:
  assumes "zone_wf N z" and "theap z e = Some t" and "te_files t = []"
  shows "rec_at (z\<lparr>theap := (theap z)(e := None)\<rparr>) = rec_at z"
proof
  fix b
  have "tm_entry (the (mheap z m)) \<noteq> e" if "fheap z b = Some f" "m \<in> set (f_tag_members f)" for f m
    using tag_links_wfD(1) [OF assms(1) that(1)] that(2) tag_links_wfD(2) [OF assms(1,2), of m] assms(3)
    by auto
  then show "rec_at (z\<lparr>theap := (theap z)(e := None)\<rparr>) b = rec_at z b"
    by (cases "fheap z b") (auto simp: rec_at_def file_rec_def file_tags_def)
qed

lemma get_key_entry_keeps:
  assumes ok: "ngx_core_ok N" and inv: "zone_inv N p z"
    and get: "get_key_entry_locked N p z key True = (r, p', z')"
  shows "keeps N p z p' z'" and "fheap z' = fheap z" and "rec_at z' = rec_at z"
    and "r = Some e \<Longrightarrow> \<exists>k. kheap z' e = Some k \<and> ke_key k = key"
proof -
  note wf = zone_invD(1) [OF inv]
  note look = lookup_key_entry_wf [OF ok, of z key]
  have ktw: "key_tree_wf N z" using wf by (simp add: zone_wf_def)
  have "keeps N p z p' z' \<and> fheap z' = fheap z \<and> rec_at z' = rec_at z \<and>
      (r = Some e \<longrightarrow> (\<exists>k. kheap z' e = Some k \<and> ke_key k = key))"
  proof (cases "lookup_key_entry N z key")
    case (Some x)
    with get ktw look [of x] inv show ?thesis
      by (auto simp: get_key_entry_locked_def keeps_refl)
  next
    case None
    obtain r1 p1 where al: "alloc_locked N p (sizeof_shm_key_entry N + length key) = (r1, p1)" by fastforce
    show ?thesis
    proof (cases r1)
      case None
      with al get \<open>lookup_key_entry N z key = None\<close> keeps_alloc_none [OF ok inv] show ?thesis
        by (auto simp: get_key_entry_locked_def)
    next
      case (Some x)
      let ?h = "unat (crc32_short N key)"
      let ?z1 = "z\<lparr>kheap := (kheap z)(x \<mapsto> \<lparr>ke_hash = ?h, ke_files = [], ke_key = key\<rparr>)\<rparr>"
      note fresh = fresh_not_in_heaps [OF inv alloc_lockedD(2) [OF ok al Some]]
      have z': "z' = ?z1\<lparr>z_key_index := rbtree_insert N (key_insert N ?z1) (z_key_index ?z1) ?h x\<rparr>"
        and r: "r = Some x" "p' = p1"
        using al get Some None by (auto simp: get_key_entry_locked_def Let_def)
      have new: "ke_key k \<noteq> key" if "kheap z y = Some k" for y k
        using look [OF ktw, of y] None that by auto
      have wf': "zone_wf N z'"
        unfolding z' by (rule zone_wf_add_key_entry [OF ok wf fresh(2) new]) auto
      have "zone_inv N p' z'" "outside p' z' = outside p z"
        using wf' inv fresh alloc_lockedD(2,3) [OF ok al Some]
        by (auto simp: zone_inv_def z' r zone_addrs_def heaps_disjoint_def outside_def)
      then show ?thesis by (auto simp: keeps_def z' zone_head_def r)
    qed
  qed
  then show "keeps N p z p' z'" "fheap z' = fheap z" "rec_at z' = rec_at z"
    "r = Some e \<Longrightarrow> \<exists>k. kheap z' e = Some k \<and> ke_key k = key" by auto
qed

lemma get_tag_entry_keeps:
  assumes ok: "ngx_core_ok N" and inv: "zone_inv N p z"
    and get: "get_tag_entry_locked N p z tag True = (r, p', z')"
  shows "keeps N p z p' z'" and "fheap z' = fheap z" and "rec_at z' = rec_at z"
    and "r = Some e \<Longrightarrow> \<exists>t. theap z' e = Some t \<and> te_tag t = tag"
proof -
  note wf = zone_invD(1) [OF inv]
  note look = lookup_tag_entry_wf [OF ok, of z tag]
  have ttw: "tag_tree_wf N z" using wf by (simp add: zone_wf_def)
  have "keeps N p z p' z' \<and> fheap z' = fheap z \<and> rec_at z' = rec_at z \<and>
      (r = Some e \<longrightarrow> (\<exists>t. theap z' e = Some t \<and> te_tag t = tag))"
  proof (cases "lookup_tag_entry N z tag")
    case (Some x)
    with get ttw look [of x] inv show ?thesis
      by (auto simp: get_tag_entry_locked_def keeps_refl)
  next
    case None
    obtain r1 p1 where al: "alloc_locked N p (sizeof_shm_tag_entry N + length tag) = (r1, p1)" by fastforce
    show ?thesis
    proof (cases r1)
      case None
      with al get \<open>lookup_tag_entry N z tag = None\<close> keeps_alloc_none [OF ok inv] show ?thesis
        by (auto simp: get_tag_entry_locked_def)
    next
      case (Some x)
      let ?h = "unat (crc32_short N tag)"
      let ?z1 = "z\<lparr>theap := (theap z)(x \<mapsto> \<lparr>te_hash = ?h, te_files = [], te_tag = tag\<rparr>)\<rparr>"
      note fresh = fresh_not_in_heaps [OF inv alloc_lockedD(2) [OF ok al Some]]
      have z': "z' = ?z1\<lparr>z_tag_index := rbtree_insert N (tag_insert N ?z1) (z_tag_index ?z1) ?h x\<rparr>"
        and r: "r = Some x" "p' = p1"
        using al get Some None by (auto simp: get_tag_entry_locked_def Let_def)
      have new: "te_tag t \<noteq> tag" if "theap z y = Some t" for y t
        using look [OF ttw, of y] None that by auto
      have wf': "zone_wf N z'"
        unfolding z' by (rule zone_wf_add_tag_entry [OF ok wf fresh(3) new]) auto
      have "zone_inv N p' z'" "outside p' z' = outside p z"
        using wf' inv fresh alloc_lockedD(2,3) [OF ok al Some]
        by (auto simp: zone_inv_def z' r zone_addrs_def heaps_disjoint_def outside_def)
      moreover have "rec_at z' = rec_at z"
        unfolding z' by (simp add: rec_at_theap_add [OF wf fresh(3)])
      ultimately show ?thesis by (auto simp: keeps_def z' zone_head_def r)
    qed
  qed
  then show "keeps N p z p' z'" "fheap z' = fheap z" "rec_at z' = rec_at z"
    "r = Some e \<Longrightarrow> \<exists>t. theap z' e = Some t \<and> te_tag t = tag" by auto
qed

section \<open>Linking\<close>

lemma link_exact_key_keeps:
  assumes ok: "ngx_core_ok N" and inv: "zone_inv N p z"
    and f: "fheap z a = Some f" "f_key_entry f = None"
    and link: "link_exact_key_locked N p z a = (rc, p', z')"
  shows "keeps N p z p' z'" and "b \<noteq> a \<Longrightarrow> rec_at z' b = rec_at z b" and "a \<in> dom (fheap z')"
    and "rc = NGX_OK \<Longrightarrow> rec_at z' a =
      Some (shm_file_path f, shm_file_key f, f_mtime f, f_size f, f_key_len f \<noteq> 0, file_tags z f)"
    and "rc = NGX_OK \<or> rc = NGX_ERROR"
proof -
  obtain r p1 z1 where get: "get_key_entry_locked N p z (shm_file_key f) True = (r, p1, z1)"
    by (metis prod_cases3)
  note g = get_key_entry_keeps [OF ok inv get]
  have all: "keeps N p z p' z' \<and> (\<forall>b. b \<noteq> a \<longrightarrow> rec_at z' b = rec_at z b) \<and> a \<in> dom (fheap z') \<and>
      (rc = NGX_OK \<longrightarrow> rec_at z' a =
        Some (shm_file_path f, shm_file_key f, f_mtime f, f_size f, f_key_len f \<noteq> 0, file_tags z f)) \<and>
      (rc = NGX_OK \<or> rc = NGX_ERROR)"
  proof (cases "f_key_len f = 0")
    case True
    with link f inv show ?thesis
      by (auto simp: link_exact_key_locked_def keeps_refl rec_at_def file_rec_def)
  next
    case False
    show ?thesis
    proof (cases r)
      case None
      with False link f get g show ?thesis by (auto simp: link_exact_key_locked_def)
    next
      case (Some e)
      then obtain k where k: "kheap z1 e = Some k" "ke_key k = shm_file_key f" using g(4) by blast
      have z': "z' = z1\<lparr>fheap := modify (\<lambda>f. f\<lparr>f_key_entry := Some e\<rparr>) a (fheap z1),
               kheap := modify (\<lambda>k. k\<lparr>ke_files := ke_files k @ [a]\<rparr>) e (kheap z1)\<rparr>"
        and rc: "rc = NGX_OK" "p' = p1"
        using False link f get Some by (auto simp: link_exact_key_locked_def)
      have inv1: "zone_inv N p1 z1" by (rule keeps_inv [OF g(1)])
      have "zone_wf N z'"
        unfolding z' using zone_wf_link_key [OF zone_invD(1) [OF inv1], of a f e k] f g(2) k by simp
      then have "keeps N p1 z1 p' z'"
        using inv1 by (simp add: keeps_def zone_inv_def heaps_disjoint_def zone_addrs_def outside_def
            zone_head_def z' rc)
      moreover have "rec_at z' b = rec_at z b" if "b \<noteq> a" for b
        using that fun_cong [OF g(3), of b]
        by (simp add: z' rec_at_def modify_apply file_rec_def [abs_def] file_tags_def)
      moreover have "file_tags z1 f = file_tags z f"
        using fun_cong [OF g(3), of a] g(2) f by (simp add: rec_at_def file_rec_def)
      ultimately show ?thesis
        using f g(1,2) False keeps_trans by (auto simp: z' rec_at_def modify_apply file_rec_def file_tags_def rc)
    qed
  qed
  then show "keeps N p z p' z'" "a \<in> dom (fheap z')" "rc = NGX_OK \<Longrightarrow> rec_at z' a =
      Some (shm_file_path f, shm_file_key f, f_mtime f, f_size f, f_key_len f \<noteq> 0, file_tags z f)"
    "rc = NGX_OK \<or> rc = NGX_ERROR" by blast+
  show "b \<noteq> a \<Longrightarrow> rec_at z' b = rec_at z b" using all by blast
qed

lemma link_member_keeps:
  assumes ok: "ngx_core_ok N" and inv: "zone_inv N p z" and al: "alloc_locked N p n = (Some m, p')"
    and f: "fheap z a = Some f" and t: "theap z e = Some t"
  shows "keeps N p z p' (link_member z e m a)"
    and "b \<noteq> a \<Longrightarrow> rec_at (link_member z e m a) b = rec_at z b"
    and "rec_at (link_member z e m a) a = Some (shm_file_path f, shm_file_key f, f_mtime f, f_size f, f_key_entry f \<noteq> None,
           file_tags z f @ [te_tag t])"
proof -
  let ?z = "link_member z e m a"
  note wf = zone_invD(1) [OF inv]
  note al' = alloc_lockedD(2,3) [OF ok al refl]
  note fresh = fresh_not_in_heaps [OF inv al'(1)]
  have wf': "zone_wf N ?z"
    using zone_wf_link_member [OF wf fresh(4), of a e] f t by auto
  have addrs: "zone_addrs ?z = insert m (zone_addrs z)"
    by (auto simp: link_member_def zone_addrs_def)
  then show "keeps N p z p' ?z"
    using wf' inv fresh al' by (auto simp: keeps_def zone_inv_def outside_def zone_head_def link_member_def
        heaps_disjoint_def zone_addrs_def)
  have old: "te_tag (the (theap ?z (tm_entry (the (mheap ?z m'))))) =
      te_tag (the (theap z (tm_entry (the (mheap z m')))))" if g: "fheap z b = Some g" "m' \<in> set (f_tag_members g)"
    for b g m'
  proof -
    have "m' \<noteq> m" using tag_links_wfD(1) [OF wf g(1)] g(2) fresh(4) by auto
    obtain mm where mm: "mheap z m' = Some mm" using tag_links_wfD(1) [OF wf g(1)] g(2) by blast
    then obtain t' where "theap z (tm_entry mm) = Some t'" using tag_links_wfD(3) [OF wf mm] by blast
    with mm \<open>m' \<noteq> m\<close> show ?thesis by (auto simp: link_member_def modify_apply)
  qed
  show "rec_at ?z b = rec_at z b" if "b \<noteq> a"
    using old [of b] that
    by (cases "fheap z b") (auto simp: rec_at_def link_member_def modify_apply file_rec_def file_tags_def)
  show "rec_at ?z a = Some (shm_file_path f, shm_file_key f, f_mtime f, f_size f, f_key_entry f \<noteq> None,
           file_tags z f @ [te_tag t])"
    using old [OF f] f t by (auto simp: rec_at_def link_member_def modify_apply file_rec_def file_tags_def)
qed

lemma link_tags_loop_keeps:
  assumes ok: "ngx_core_ok N" and "zone_inv N p z" and "rec_at z a = Some (pa, k, mt, sz, b, ts)"
    and "link_tags_loop N p z a tags = (rc, p', z')"
  shows "keeps N p z p' z' \<and> (\<forall>x. x \<noteq> a \<longrightarrow> rec_at z' x = rec_at z x) \<and>
    (\<exists>ts'. rec_at z' a = Some (pa, k, mt, sz, b, ts @ ts') \<and> (rc = NGX_OK \<longrightarrow> ts' = tags)) \<and>
    (rc = NGX_OK \<or> rc = NGX_ERROR)"
  using assms(2-)
proof (induction tags arbitrary: p z ts)
  case Nil
  then show ?case by (auto simp: keeps_refl)
next
  case (Cons tag tags)
  obtain r p1 z1 where get: "get_tag_entry_locked N p z tag True = (r, p1, z1)" by (metis prod_cases3)
  note g = get_tag_entry_keeps [OF ok Cons.prems(1) get]
  have rec1: "rec_at z1 a = Some (pa, k, mt, sz, b, ts)" using g(3) Cons.prems(2) by simp
  show ?case
  proof (cases r)
    case None
    with get Cons.prems g(1,3) rec1 show ?thesis by auto
  next
    case (Some e)
    then obtain t where t: "theap z1 e = Some t" "te_tag t = tag" using g(4) by blast
    obtain r2 p2 where al: "alloc_locked N p1 (sizeof_shm_tag_member N) = (r2, p2)" by fastforce
    show ?thesis
    proof (cases r2)
      case None
      with get Some al Cons.prems g(1,3) rec1 keeps_alloc_none [OF ok keeps_inv [OF g(1)]] show ?thesis
        by (auto intro: keeps_trans)
    next
      case (Some m)
      from rec1 obtain f where f: "fheap z1 a = Some f" "file_rec z1 f = (pa, k, mt, sz, b, ts)"
        by (auto simp: rec_at_def)
      note l = link_member_keeps [OF ok keeps_inv [OF g(1)] al [unfolded Some] f(1) t(1)]
      have "rec_at (link_member z1 e m a) a = Some (pa, k, mt, sz, b, ts @ [tag])"
        using l(3) f(2) t(2) by (simp add: file_rec_def)
      moreover have "link_tags_loop N p2 (link_member z1 e m a) a tags = (rc, p', z')"
        using Cons.prems(3) get \<open>r = Some e\<close> al Some by simp
      ultimately have "keeps N p2 (link_member z1 e m a) p' z' \<and>
          (\<forall>x. x \<noteq> a \<longrightarrow> rec_at z' x = rec_at (link_member z1 e m a) x) \<and>
          (\<exists>ts'. rec_at z' a = Some (pa, k, mt, sz, b, (ts @ [tag]) @ ts') \<and> (rc = NGX_OK \<longrightarrow> ts' = tags)) \<and>
          (rc = NGX_OK \<or> rc = NGX_ERROR)"
        using Cons.IH keeps_inv [OF l(1)] by blast
      moreover have "rec_at (link_member z1 e m a) x = rec_at z x" if "x \<noteq> a" for x
        using l(2) [OF that] g(3) by simp
      ultimately show ?thesis using keeps_trans [OF keeps_trans [OF g(1) l(1)]] by auto
    qed
  qed
qed

section \<open>Removal\<close>

lemma drop_member_rec:
  assumes wf: "zone_wf N z" and mm: "mheap z m = Some mm" and a: "tm_file mm = a" and f: "fheap z a = Some f"
  shows "b \<noteq> a \<Longrightarrow> rec_at (drop_member z a (tm_entry mm) m) b = rec_at z b"
    and "f_tag_members (the (fheap (drop_member z a (tm_entry mm) m) a)) = remove1 m (f_tag_members f)"
proof -
  let ?z = "drop_member z a (tm_entry mm) m"
  have old: "te_tag (the (theap ?z (tm_entry (the (mheap ?z m'))))) =
      te_tag (the (theap z (tm_entry (the (mheap z m')))))"
    if g: "fheap z b = Some g" "m' \<in> set (f_tag_members g)" "b \<noteq> a" for b g m'
  proof -
    obtain mm' where mm': "mheap z m' = Some mm'" "tm_file mm' = b"
      using tag_links_wfD(1) [OF wf g(1)] g(2) by blast
    with mm a g(3) have "m' \<noteq> m" by auto
    then obtain t' where "theap z (tm_entry mm') = Some t'" using tag_links_wfD(3) [OF wf mm'(1)] by blast
    with mm' \<open>m' \<noteq> m\<close> show ?thesis by (auto simp: drop_member_def modify_apply)
  qed
  show "b \<noteq> a \<Longrightarrow> rec_at ?z b = rec_at z b"
    using old [of b]
    by (cases "fheap z b") (auto simp: rec_at_def drop_member_def modify_apply file_rec_def file_tags_def)
  show "f_tag_members (the (fheap ?z a)) = remove1 m (f_tag_members f)"
    using f by (simp add: drop_member_def modify_apply)
qed

lemma remove_member_eq:
  "remove_member N p z a m =
     (let e = tm_entry (the (mheap z m));
          (p2, z2) = free_empty_tag_entry_locked N p (drop_member z a e m) e
      in (slab_free_locked p2 m, z2))"
  by (simp add: remove_member_def drop_member_def free_empty_tag_entry_locked_def Let_def)

lemma remove_member_keeps:
  assumes ok: "ngx_core_ok N" and inv: "zone_inv N p z" and f: "fheap z a = Some f"
    and m: "m \<in> set (f_tag_members f)" and rm: "remove_member N p z a m = (p', z')"
  shows "keeps N p z p' z'" and "b \<noteq> a \<Longrightarrow> rec_at z' b = rec_at z b"
    and "fheap z' a = Some (f\<lparr>f_tag_members := remove1 m (f_tag_members f)\<rparr>)"
proof -
  note wf = zone_invD(1) [OF inv]
  obtain mm where mm: "mheap z m = Some mm" "tm_file mm = a"
    using tag_links_wfD(1) [OF wf f] m by blast
  define e where "e = tm_entry mm"
  define z1 where "z1 = drop_member z a e m"
  obtain p2 z2 where fr: "free_empty_tag_entry_locked N p z1 e = (p2, z2)" by fastforce
  have res: "p' = slab_free_locked p2 m" "z' = z2"
    using rm fr mm by (auto simp: remove_member_eq e_def z1_def Let_def)
  have wf1: "zone_wf N z1"
    using zone_wf_drop_member [OF wf mm(1)] mm(2) by (simp add: z1_def e_def)
  obtain t where t: "theap z1 e = Some t"
    using tag_links_wfD(3) [OF wf mm(1)] by (auto simp: z1_def e_def drop_member_def modify_apply)
  have wf2: "zone_wf N z2" using zone_wf_free_tag [OF ok wf1 _ fr] t by auto
  have rec2: "rec_at z2 = rec_at z1"
  proof (cases "te_files t = []")
    case True
    have "rec_at (z1\<lparr>z_tag_index := i, theap := h\<rparr>) = rec_at (z1\<lparr>theap := h\<rparr>)" for i h
      by (simp add: fun_eq_iff rec_at_def file_rec_def [abs_def] file_tags_def)
    with True t fr rec_at_theap_del [OF wf1 t] show ?thesis by (auto simp: free_empty_tag_entry_locked_def)
  qed (use t fr in \<open>auto simp: free_empty_tag_entry_locked_def\<close>)
  have z1: "dom (fheap z1) = dom (fheap z)" "kheap z1 = kheap z" "dom (theap z1) = dom (theap z)"
    "mheap z1 = (mheap z)(m := None)" "zone_head z1 = zone_head z"
    by (simp_all add: z1_def drop_member_def zone_head_def)
  have z2: "fheap z2 = fheap z1" "kheap z2 = kheap z1" "mheap z2 = mheap z1" "zone_head z2 = zone_head z1"
    "theap z2 = (if te_files t = [] then (theap z1)(e := None) else theap z1)"
    "slab_live (slab p2) = slab_live (slab p) - (if te_files t = [] then {e} else {})"
    using fr t by (auto simp: free_empty_tag_entry_locked_def zone_head_def split: if_splits)
  have dis2: "heaps_disjoint z2"
    using zone_invD(2) [OF inv] by (auto simp: heaps_disjoint_def z1 z2)
  have e: "e \<in> dom (theap z)" using t z1(3) by auto
  have addr2: "zone_addrs z2 = zone_addrs z - (if te_files t = [] then {e} else {}) - {m}"
    using zone_invD(2) [OF inv] e mm(1) by (auto simp: zone_addrs_def heaps_disjoint_def z1 z2)
  note fh2 = z2(1) and live2 = z2(6)
  have head2: "zone_head z2 = zone_head z" using z1 z2 by simp
  have sub: "e \<in> zone_addrs z" "m \<in> zone_addrs z" "zone_addrs z \<subseteq> slab_live (slab p)"
    using e mm(1) zone_invD(3) [OF inv] by (auto simp: zone_addrs_def)
  show "keeps N p z p' z'"
    using wf2 dis2 head2 sub by (auto simp: keeps_def zone_inv_def outside_def res addr2 live2)
  show "b \<noteq> a \<Longrightarrow> rec_at z' b = rec_at z b"
    using drop_member_rec(1) [OF wf mm f] by (simp add: res rec2 z1_def e_def)
  show "fheap z' a = Some (f\<lparr>f_tag_members := remove1 m (f_tag_members f)\<rparr>)"
    using f by (simp add: res fh2 z1_def drop_member_def modify_apply)
qed

lemma remove_members_keeps:
  assumes ok: "ngx_core_ok N" and "zone_inv N p z" and "fheap z a = Some f" and "f_tag_members f = ms"
    and "remove_members N p z a ms = (p', z')"
  shows "keeps N p z p' z' \<and> (\<forall>b. b \<noteq> a \<longrightarrow> rec_at z' b = rec_at z b) \<and>
    fheap z' a = Some (f\<lparr>f_tag_members := []\<rparr>)"
  using assms(2-)
proof (induction ms arbitrary: p z f)
  case Nil
  have "f = f\<lparr>f_tag_members := []\<rparr>" using Nil.prems(3) by simp
  with Nil show ?case by (auto simp: keeps_refl)
next
  case (Cons m ms)
  obtain p1 z1 where rm: "remove_member N p z a m = (p1, z1)" by fastforce
  have m: "m \<in> set (f_tag_members f)" using Cons.prems(3) by simp
  note r = remove_member_keeps [OF ok Cons.prems(1,2) m rm]
  have "remove_members N p1 z1 a ms = (p', z')" using Cons.prems(4) rm by simp
  with Cons.IH [OF keeps_inv [OF r(1)] r(3)] Cons.prems(3)
  have "keeps N p1 z1 p' z' \<and> (\<forall>b. b \<noteq> a \<longrightarrow> rec_at z' b = rec_at z1 b) \<and>
      fheap z' a = Some (f\<lparr>f_tag_members := []\<rparr>)" by simp
  with r(1,2) show ?case by (auto intro: keeps_trans)
qed

lemma unlink_key_eq:
  assumes "fheap z a = Some f" and "f_key_entry f = Some e"
  shows "unlink_key N p z a = free_empty_key_entry_locked N p (drop_key z a e) e"
  using assms
  by (simp add: unlink_key_def drop_key_def free_empty_key_entry_locked_def Let_def)

lemma unlink_key_keeps:
  assumes ok: "ngx_core_ok N" and inv: "zone_inv N p z" and f: "fheap z a = Some f"
    and un: "unlink_key N p z a = (p', z')"
  shows "keeps N p z p' z'" and "b \<noteq> a \<Longrightarrow> rec_at z' b = rec_at z b"
    and "fheap z' a = Some (f\<lparr>f_key_entry := None\<rparr>)"
proof -
  note wf = zone_invD(1) [OF inv]
  have "keeps N p z p' z' \<and> (\<forall>b. b \<noteq> a \<longrightarrow> rec_at z' b = rec_at z b) \<and>
      fheap z' a = Some (f\<lparr>f_key_entry := None\<rparr>)"
  proof (cases "f_key_entry f")
    case None
    then have "f = f\<lparr>f_key_entry := None\<rparr>" by simp
    with None un f inv show ?thesis by (auto simp: unlink_key_def keeps_refl)
  next
    case (Some e)
    define z1 where "z1 = drop_key z a e"
    have fr: "free_empty_key_entry_locked N p z1 e = (p', z')"
      using un unlink_key_eq [OF f Some] by (simp add: z1_def)
    have wf1: "zone_wf N z1" using zone_wf_drop_key [OF wf f Some] by (simp add: z1_def)
    obtain k where k: "kheap z e = Some k"
      using wf f Some unfolding zone_wf_def key_links_wf_def key_links_def by blast
    then obtain k1 where k1: "kheap z1 e = Some k1" by (simp add: z1_def drop_key_def modify_apply)
    have wf': "zone_wf N z'" using zone_wf_free_key [OF ok wf1 _ fr] k1 by auto
    have z1: "dom (fheap z1) = dom (fheap z)" "dom (kheap z1) = dom (kheap z)" "theap z1 = theap z"
      "mheap z1 = mheap z" "zone_head z1 = zone_head z"
      by (simp_all add: z1_def drop_key_def zone_head_def)
    have z': "fheap z' = fheap z1" "theap z' = theap z1" "mheap z' = mheap z1" "zone_head z' = zone_head z1"
      "kheap z' = (if ke_files k1 = [] then (kheap z1)(e := None) else kheap z1)"
      "slab_live (slab p') = slab_live (slab p) - (if ke_files k1 = [] then {e} else {})"
      using fr k1 by (auto simp: free_empty_key_entry_locked_def zone_head_def split: if_splits)
    have dis': "heaps_disjoint z'"
      using zone_invD(2) [OF inv] by (auto simp: heaps_disjoint_def z1 z')
    have addr': "zone_addrs z' = zone_addrs z - (if ke_files k1 = [] then {e} else {})"
      using zone_invD(2) [OF inv] k by (auto simp: zone_addrs_def heaps_disjoint_def z1 z')
    note fh = z'(1) and live' = z'(6)
    have th: "theap z' = theap z" "mheap z' = mheap z" and head': "zone_head z' = zone_head z"
      using z' z1 by simp_all
    have "e \<in> zone_addrs z" using k by (auto simp: zone_addrs_def)
    then have "keeps N p z p' z'"
      using wf' dis' head' zone_invD(3) [OF inv]
      by (auto simp: keeps_def zone_inv_def outside_def addr' live')
    moreover have "rec_at z' b = rec_at z b" if "b \<noteq> a" for b
      using that by (simp add: rec_at_def fh z1_def drop_key_def modify_apply file_rec_def [abs_def] file_tags_def th)
    ultimately show ?thesis using f by (simp add: fh z1_def drop_key_def modify_apply)
  qed
  then show "keeps N p z p' z'" "b \<noteq> a \<Longrightarrow> rec_at z' b = rec_at z b"
    "fheap z' a = Some (f\<lparr>f_key_entry := None\<rparr>)" by blast+
qed

lemma remove_file_keeps:
  assumes ok: "ngx_core_ok N" and inv: "zone_inv N p z" and f: "fheap z a = Some f"
    and rm: "remove_file_locked N p z a = (p', z')"
  shows "keeps N p z p' z'" and "rec_at z' = (rec_at z)(a := None)"
proof -
  obtain p1 z1 where un: "unlink_key N p z a = (p1, z1)" by fastforce
  note u = unlink_key_keeps [OF ok inv f un]
  obtain p2 z2 where ms: "remove_members N p1 z1 a (f_tag_members (the (fheap z1 a))) = (p2, z2)" by fastforce
  have "keeps N p1 z1 p2 z2 \<and> (\<forall>b. b \<noteq> a \<longrightarrow> rec_at z2 b = rec_at z1 b) \<and>
      fheap z2 a = Some (f\<lparr>f_key_entry := None, f_tag_members := []\<rparr>)"
    using remove_members_keeps [OF ok keeps_inv [OF u(1)] u(3) refl] ms u(3) by simp
  then have r: "keeps N p z p2 z2" "\<And>b. b \<noteq> a \<Longrightarrow> rec_at z2 b = rec_at z b"
    "fheap z2 a = Some (f\<lparr>f_key_entry := None, f_tag_members := []\<rparr>)"
    using u(1,2) keeps_trans by auto
  have res: "p' = slab_free_locked p2 a" "z' = delete_file_block N z2 a"
    using rm un ms by (auto simp: remove_file_locked_def delete_file_block_def)
  have inv2: "zone_inv N p2 z2" by (rule keeps_inv [OF r(1)])
  have "zone_wf N z'"
    unfolding res by (rule zone_wf_delete_file_block [OF ok zone_invD(1) [OF inv2] r(3)]) simp_all
  moreover have "a \<in> zone_addrs z2" using r(3) by (auto simp: zone_addrs_def)
  moreover have "zone_addrs z' = zone_addrs z2 - {a}" "heaps_disjoint z'" "zone_head z' = zone_head z2"
    using zone_invD(2) [OF inv2] r(3)
    by (auto simp: res delete_file_block_def zone_addrs_def heaps_disjoint_def zone_head_def)
  ultimately have "keeps N p2 z2 p' z'"
    using zone_invD(3) [OF inv2] by (auto simp: keeps_def zone_inv_def outside_def res(1))
  then show "keeps N p z p' z'" by (rule keeps_trans [OF r(1)])
  show "rec_at z' = (rec_at z)(a := None)"
  proof
    fix b show "rec_at z' b = ((rec_at z)(a := None)) b"
      using r(2) [of b]
      by (cases "b = a") (simp_all add: res rec_at_def delete_file_block_def file_rec_def [abs_def] file_tags_def)
  qed
qed

end
