(* ===== verification/Zone_Abs.thy ===== *)
theory Zone_Abs
  imports Zone_Mem
begin

text \<open>
  The abstract view of a zone: a finite map from the path of a cache file to its key, its
  modification time, its size and its tags.  Insertion and removal of file meta refine update and
  deletion of that map, on every path of the code, those that run out of memory included.
\<close>

section \<open>The map\<close>

type_synonym file_meta = "ngx_str \<times> int \<times> int \<times> ngx_str list"

definition abs_zone :: "shm_zone \<Rightarrow> ngx_str \<rightharpoonup> file_meta" where
  "abs_zone z = map_of (map (\<lambda>a. let f = the (fheap z a) in
     (shm_file_path f, (shm_file_key f, f_mtime f, f_size f, file_tags z f))) (z_files z))"

text \<open>Outside the routines that build a file, a file is on the queue of a key entry exactly when
  it has a key.\<close>

definition keys_linked :: "shm_zone \<Rightarrow> bool" where
  "keys_linked z \<longleftrightarrow>
     (\<forall>a f. fheap z a = Some f \<longrightarrow> (f_key_entry f \<noteq> None \<longleftrightarrow> shm_file_key f \<noteq> []))"

definition zone_ok :: "ngx_core \<Rightarrow> slab_pool \<Rightarrow> shm_zone \<Rightarrow> bool" where
  "zone_ok N p z \<longleftrightarrow> zone_inv N p z \<and> keys_linked z"

lemma keys_linked_rec:
  "keys_linked z \<longleftrightarrow> (\<forall>a pa k mt sz b ts. rec_at z a = Some (pa, k, mt, sz, b, ts) \<longrightarrow> b = (k \<noteq> []))"
proof
  assume "keys_linked z"
  then show "\<forall>a pa k mt sz b ts. rec_at z a = Some (pa, k, mt, sz, b, ts) \<longrightarrow> b = (k \<noteq> [])"
    by (auto simp: keys_linked_def rec_at_def file_rec_def)
next
  assume *: "\<forall>a pa k mt sz b ts. rec_at z a = Some (pa, k, mt, sz, b, ts) \<longrightarrow> b = (k \<noteq> [])"
  show "keys_linked z" unfolding keys_linked_def
  proof (intro allI impI)
    fix a f assume "fheap z a = Some f"
    then have "rec_at z a = Some (shm_file_path f, shm_file_key f, f_mtime f, f_size f,
        f_key_entry f \<noteq> None, file_tags z f)" by (simp add: rec_at_def file_rec_def)
    with * show "f_key_entry f \<noteq> None \<longleftrightarrow> shm_file_key f \<noteq> []" by blast
  qed
qed

lemma abs_zone_Some:
  assumes "zone_wf N z"
  shows "abs_zone z path = Some (k, mt, sz, ts) \<longleftrightarrow>
    (\<exists>a b. rec_at z a = Some (path, k, mt, sz, b, ts))"
proof -
  have files: "set (z_files z) = dom (fheap z)" "distinct (z_files z)"
    and uniq: "\<And>a b f g. fheap z a = Some f \<Longrightarrow> fheap z b = Some g \<Longrightarrow>
      shm_file_path f = shm_file_path g \<Longrightarrow> a = b"
    using assms by (simp_all add: zone_wf_def files_wf_def path_wf_def)
  let ?e = "\<lambda>a. let f = the (fheap z a) in
     (shm_file_path f, (shm_file_key f, f_mtime f, f_size f, file_tags z f))"
  have "inj_on (\<lambda>a. shm_file_path (the (fheap z a))) (set (z_files z))"
    by (rule inj_onI) (use files uniq in auto)
  then have "distinct (map fst (map ?e (z_files z)))"
    using files(2) by (simp add: distinct_map comp_def Let_def)
  then have "abs_zone z path = Some (k, mt, sz, ts) \<longleftrightarrow>
      (path, k, mt, sz, ts) \<in> set (map ?e (z_files z))"
    unfolding abs_zone_def by (rule map_of_eq_Some_iff)
  also have "\<dots> \<longleftrightarrow> (\<exists>a f. fheap z a = Some f \<and>
      (shm_file_path f, shm_file_key f, f_mtime f, f_size f, file_tags z f) = (path, k, mt, sz, ts))"
    using files(1) by (force simp: Let_def)
  finally show ?thesis by (auto simp: rec_at_def file_rec_def)
qed

lemma abs_zone_eqI:
  assumes "\<And>pa k mt sz ts. m pa = Some (k, mt, sz, ts) \<longleftrightarrow> abs_zone z pa = Some (k, mt, sz, ts)"
  shows "abs_zone z = m"
proof
  fix pa show "abs_zone z pa = m pa"
    using assms [of pa] by (cases "m pa"; cases "abs_zone z pa") auto
qed

lemma rec_at_path_unique:
  assumes "zone_wf N z" and "rec_at z a = Some (pa, r)" and "rec_at z b = Some (pa, r')"
  shows "a = b"
  using assms by (auto simp: rec_at_def file_rec_def zone_wf_def path_wf_def) 

lemma abs_zone_del:
  assumes "zone_wf N z" and "zone_wf N z'" and "rec_at z' = (rec_at z)(a := None)"
    and "rec_at z a = Some (pa, r)"
  shows "abs_zone z' = (abs_zone z)(pa := None)"
proof (rule abs_zone_eqI)
  fix p k mt sz ts
  show "((abs_zone z)(pa := None)) p = Some (k, mt, sz, ts) \<longleftrightarrow> abs_zone z' p = Some (k, mt, sz, ts)"
  proof (cases "p = pa")
    case True
    have "b = a" if "rec_at z b = Some (pa, r')" for b r'
      using rec_at_path_unique [OF assms(1,4) that] by simp
    with True show ?thesis by (auto simp: abs_zone_Some [OF assms(2)] assms(3))
  next
    case False
    with assms(4) have "rec_at z' b = Some (p, r') \<longleftrightarrow> rec_at z b = Some (p, r')" for b r'
      by (auto simp: assms(3))
    with False show ?thesis
      by (simp add: abs_zone_Some [OF assms(1)] abs_zone_Some [OF assms(2)])
  qed
qed

lemma abs_zone_add:
  assumes "zone_wf N z" and "zone_wf N z'" and "\<And>b. b \<noteq> a \<Longrightarrow> rec_at z' b = rec_at z b"
    and "rec_at z a = None" and "rec_at z' a = Some (pa, k, mt, sz, lnk, ts)"
  shows "abs_zone z' = (abs_zone z)(pa \<mapsto> (k, mt, sz, ts))"
proof (rule abs_zone_eqI)
  fix p k' mt' sz' ts'
  show "((abs_zone z)(pa \<mapsto> (k, mt, sz, ts))) p = Some (k', mt', sz', ts') \<longleftrightarrow>
      abs_zone z' p = Some (k', mt', sz', ts')"
  proof (cases "p = pa")
    case True
    show ?thesis using True assms(5) rec_at_path_unique [OF assms(2,5)]
      by (fastforce simp: abs_zone_Some [OF assms(2)])
  next
    case False
    have "rec_at z' b = Some (p, r) \<longleftrightarrow> rec_at z b = Some (p, r)" for b r
      using False assms(3) [of b] assms(4,5) by (cases "b = a") auto
    with False show ?thesis by (simp add: abs_zone_Some [OF assms(1)] abs_zone_Some [OF assms(2)])
  qed
qed

lemma abs_zone_None:
  assumes "zone_wf N z"
  shows "abs_zone z path = None \<longleftrightarrow> (\<forall>a f. fheap z a = Some f \<longrightarrow> shm_file_path f \<noteq> path)"
proof -
  have "abs_zone z path = None \<longleftrightarrow> \<not> (\<exists>k mt sz ts. abs_zone z path = Some (k, mt, sz, ts))"
    by (cases "abs_zone z path") auto
  also have "\<dots> \<longleftrightarrow> \<not> (\<exists>a f. fheap z a = Some f \<and> shm_file_path f = path)"
    unfolding abs_zone_Some [OF assms] by (auto simp: rec_at_def file_rec_def)
  finally show ?thesis by blast
qed

section \<open>The new file block\<close>

text \<open>Path and key are read back from the bytes of the block, which fill exactly what was
  allocated after the fixed part.\<close>

lemma shm_file_path_new [simp]: "shm_file_path (new_file N path key mt sz tags) = path"
  by (simp add: shm_file_path_def new_file_def file_data_def)

lemma shm_file_key_new [simp]: "shm_file_key (new_file N path key mt sz tags) = key"
  by (simp add: shm_file_key_def new_file_def file_data_def)

lemma new_file_simps [simp]:
  "f_hash (new_file N path key mt sz tags) = path_hash N path"
  "f_key_entry (new_file N path key mt sz tags) = None"
  "f_tag_members (new_file N path key mt sz tags) = []"
  "f_mtime (new_file N path key mt sz tags) = mt"
  "f_size (new_file N path key mt sz tags) = sz"
  "f_path_len (new_file N path key mt sz tags) = length path"
  "f_key_len (new_file N path key mt sz tags) = length key"
  by (simp_all add: new_file_def)

lemma insert_file_keeps:
  assumes ok: "ngx_core_ok N" and inv: "zone_inv N p z" and al: "alloc_locked N p n = (Some a, p')"
    and new: "abs_zone z path = None" and nul: "c_nul \<notin> set path"
  shows "keeps N p z p' (insert_file N z a (new_file N path key mt sz tags))"
    and "rec_at z a = None"
    and "b \<noteq> a \<Longrightarrow> rec_at (insert_file N z a (new_file N path key mt sz tags)) b = rec_at z b"
    and "fheap (insert_file N z a (new_file N path key mt sz tags)) a = Some (new_file N path key mt sz tags)"
proof -
  let ?f = "new_file N path key mt sz tags"
  let ?z = "insert_file N z a ?f"
  note wf = zone_invD(1) [OF inv]
  note al' = alloc_lockedD(2,3) [OF ok al refl]
  note fresh = fresh_not_in_heaps [OF inv al'(1)]
  have "\<forall>g \<in> ran (fheap z). shm_file_path g \<noteq> shm_file_path ?f"
    using new [unfolded abs_zone_None [OF wf]] by (auto simp: ran_def)
  then have "zone_wf N ?z"
    by (rule zone_wf_insert_file [OF ok wf fresh(1)]) (simp_all add: nul)
  moreover have "zone_addrs ?z = insert a (zone_addrs z)" "heaps_disjoint ?z" "zone_head ?z = zone_head z"
    using fresh zone_invD(2) [OF inv]
    by (auto simp: insert_file_def Let_def zone_addrs_def heaps_disjoint_def zone_head_def)
  moreover have "a \<notin> zone_addrs z" using fresh by (auto simp: zone_addrs_def)
  ultimately show "keeps N p z p' ?z"
    using zone_invD(3) [OF inv] al' by (auto simp: keeps_def zone_inv_def outside_def)
  show "rec_at z a = None" using fresh by (simp add: rec_at_def)
  show "b \<noteq> a \<Longrightarrow> rec_at ?z b = rec_at z b"
    by (simp add: rec_at_def insert_file_def Let_def file_rec_def [abs_def] file_tags_def)
  show "fheap ?z a = Some ?f" by (simp add: insert_file_def Let_def)
qed

section \<open>Deletion and insertion of file meta\<close>

lemma zone_okD:
  assumes "zone_ok N p z"
  shows "zone_inv N p z" and "zone_wf N z" and "keys_linked z"
  using assms by (simp_all add: zone_ok_def zone_inv_def)

lemma remove_file_abs:
  assumes ok: "ngx_core_ok N" and z: "zone_ok N p z" and f: "fheap z a = Some f"
    and rm: "remove_file_locked N p z a = (p', z')"
  shows "zone_ok N p' z'" and "keeps N p z p' z'"
    and "abs_zone z' = (abs_zone z)(shm_file_path f := None)"
proof -
  note r = remove_file_keeps [OF ok zone_okD(1) [OF z] f rm]
  show "keeps N p z p' z'" by (rule r(1))
  show "zone_ok N p' z'"
    using keeps_inv [OF r(1)] zone_okD(3) [OF z] by (auto simp: zone_ok_def keys_linked_rec r(2))
  show "abs_zone z' = (abs_zone z)(shm_file_path f := None)"
    using abs_zone_del [OF zone_okD(2) [OF z] zone_invD(1) [OF keeps_inv [OF r(1)]] r(2)] f
    by (simp add: rec_at_def file_rec_def)
qed

lemma rec_at_dom: "rec_at z a = Some r \<Longrightarrow> \<exists>f. fheap z a = Some f \<and> file_rec z f = r"
  by (auto simp: rec_at_def)

lemma undo_insert:
  assumes ok: "ngx_core_ok N" and z: "zone_ok N p z" and k: "keeps N p z p1 z1"
    and other: "\<And>b. b \<noteq> a \<Longrightarrow> rec_at z1 b = rec_at z b" and new: "rec_at z a = None"
    and a: "a \<in> dom (fheap z1)" and rm: "remove_file_locked N p1 z1 a = (p', z')"
  shows "zone_ok N p' z'" and "keeps N p z p' z'" and "abs_zone z' = abs_zone z"
proof -
  obtain f where f: "fheap z1 a = Some f" using a by blast
  note r = remove_file_keeps [OF ok keeps_inv [OF k] f rm]
  show k': "keeps N p z p' z'" by (rule keeps_trans [OF k r(1)])
  have rec: "rec_at z' = rec_at z" using other new by (auto simp: fun_eq_iff r(2))
  then show "zone_ok N p' z'"
    using keeps_inv [OF k'] zone_okD(3) [OF z] by (simp add: zone_ok_def keys_linked_rec)
  show "abs_zone z' = abs_zone z"
    by (rule abs_zone_eqI) (simp add: abs_zone_Some [OF zone_okD(2) [OF z]]
        abs_zone_Some [OF zone_invD(1) [OF keeps_inv [OF k']]] rec)
qed

text \<open>The new file of \<open>upsert_in_zone\<close>, linked or taken out again.\<close>

lemma build_file:
  assumes ok: "ngx_core_ok N" and z: "zone_ok N p z" and al: "alloc_locked N p n = (Some a, p2)"
    and new: "abs_zone z path = None" and nul: "c_nul \<notin> set path"
    and z2: "z2 = insert_file N z a (new_file N path key mt sz tags)"
    and key: "link_exact_key_locked N p2 z2 a = (rc3, p3, z3)"
  shows "rc3 = NGX_ERROR \<or> rc3 = NGX_OK"
    and "rc3 = NGX_ERROR \<Longrightarrow> remove_file_locked N p3 z3 a = (p', z') \<Longrightarrow>
      zone_ok N p' z' \<and> keeps N p z p' z' \<and> abs_zone z' = abs_zone z"
    and "rc3 = NGX_OK \<Longrightarrow> link_tags_locked N p3 z3 a tags = (rc4, p4, z4) \<Longrightarrow>
      (rc4 = NGX_ERROR \<or> rc4 = NGX_OK) \<and>
      (rc4 = NGX_OK \<longrightarrow> zone_ok N p4 z4 \<and> keeps N p z p4 z4 \<and>
         abs_zone z4 = (abs_zone z)(path \<mapsto> (key, mt, sz, tags_elts tags))) \<and>
      (rc4 = NGX_ERROR \<longrightarrow> remove_file_locked N p4 z4 a = (p', z') \<longrightarrow>
         zone_ok N p' z' \<and> keeps N p z p' z' \<and> abs_zone z' = abs_zone z)"
proof -
  note wf = zone_okD(2) [OF z]
  have ins: "keeps N p z p2 z2" "rec_at z a = None" "\<And>b. b \<noteq> a \<Longrightarrow> rec_at z2 b = rec_at z b"
    "fheap z2 a = Some (new_file N path key mt sz tags)"
    using insert_file_keeps [OF ok zone_okD(1) [OF z] al new nul] by (simp_all add: z2)
  note lnk = link_exact_key_keeps [OF ok keeps_inv [OF ins(1)] ins(4) _ key]
  have k3: "keeps N p z p3 z3" using keeps_trans [OF ins(1) lnk(1)] by simp
  have other3: "\<And>b. b \<noteq> a \<Longrightarrow> rec_at z3 b = rec_at z b" using lnk(2) ins(3) by simp
  show "rc3 = NGX_ERROR \<or> rc3 = NGX_OK" using lnk(5) by auto
  show "zone_ok N p' z' \<and> keeps N p z p' z' \<and> abs_zone z' = abs_zone z"
    if "rc3 = NGX_ERROR" "remove_file_locked N p3 z3 a = (p', z')"
    using undo_insert [OF ok z k3 other3 ins(2) lnk(3) that(2)] by simp
  assume rc3: "rc3 = NGX_OK" and tags: "link_tags_locked N p3 z3 a tags = (rc4, p4, z4)"
  have rec3: "rec_at z3 a = Some (path, key, mt, sz, key \<noteq> [], [])"
    using lnk(4) rc3 by (simp add: file_tags_def)
  have loop: "link_tags_loop N p3 z3 a (tags_elts tags) = (rc4, p4, z4)"
    using tags by (auto simp: link_tags_locked_def tags_elts_def split: option.splits if_splits)
  from link_tags_loop_keeps [OF ok keeps_inv [OF k3] rec3 loop]
  obtain ts' where t: "keeps N p3 z3 p4 z4" "\<And>x. x \<noteq> a \<Longrightarrow> rec_at z4 x = rec_at z3 x"
    "rec_at z4 a = Some (path, key, mt, sz, key \<noteq> [], ts')" "rc4 = NGX_OK \<Longrightarrow> ts' = tags_elts tags"
    "rc4 = NGX_OK \<or> rc4 = NGX_ERROR" by auto
  have k4: "keeps N p z p4 z4" by (rule keeps_trans [OF k3 t(1)])
  have other4: "\<And>b. b \<noteq> a \<Longrightarrow> rec_at z4 b = rec_at z b" using t(2) other3 by simp
  have dom4: "a \<in> dom (fheap z4)" using rec_at_dom [OF t(3)] by auto
  have "keys_linked z4"
    unfolding keys_linked_rec
  proof (intro allI impI)
    fix b pa k m s l ts assume r: "rec_at z4 b = Some (pa, k, m, s, l, ts)"
    show "l = (k \<noteq> [])"
    proof (cases "b = a")
      case False
      with r other4 have "rec_at z b = Some (pa, k, m, s, l, ts)" by simp
      with zone_okD(3) [OF z] show ?thesis unfolding keys_linked_rec by blast
    qed (use r t(3) in auto)
  qed
  then have "zone_ok N p4 z4" using keeps_inv [OF k4] by (simp add: zone_ok_def)
  moreover have "abs_zone z4 = (abs_zone z)(path \<mapsto> (key, mt, sz, ts'))"
    by (rule abs_zone_add [OF wf zone_invD(1) [OF keeps_inv [OF k4]] other4 ins(2) t(3)])
  ultimately show "(rc4 = NGX_ERROR \<or> rc4 = NGX_OK) \<and>
      (rc4 = NGX_OK \<longrightarrow> zone_ok N p4 z4 \<and> keeps N p z p4 z4 \<and>
         abs_zone z4 = (abs_zone z)(path \<mapsto> (key, mt, sz, tags_elts tags))) \<and>
      (rc4 = NGX_ERROR \<longrightarrow> remove_file_locked N p4 z4 a = (p', z') \<longrightarrow>
         zone_ok N p' z' \<and> keeps N p z p' z' \<and> abs_zone z' = abs_zone z)"
    using t(4,5) k4 undo_insert [OF ok z k4 other4 ins(2) dom4] by auto
qed

text \<open>\<open>upsert_in_zone\<close> is map update when it succeeds; when an allocation fails on the way it
  removes the path, and nothing else changes.  In both cases no block of another zone is touched
  and none is leaked.\<close>

theorem upsert_in_zone_spec:
  assumes ok: "ngx_core_ok N" and z: "zone_ok N p z" and nul: "c_nul \<notin> set path"
    and up: "upsert_in_zone N now p z path key mt sz tags = (rc, p', z')"
  shows "zone_ok N p' z'" and "outside p' z' = outside p z"
    and "rc = NGX_OK \<or> rc = NGX_ERROR"
    and "abs_zone z' = (abs_zone z)(path :=
           if rc = NGX_OK then Some (key, mt, sz, tags_elts tags) else None)"
    and "zone_head z' = (z_name z, z_bootstrap_complete z, z_last_bootstrap_at z,
           if rc = NGX_OK then now else z_last_updated_at z)"
proof -
  obtain p1 z1 where old: "(case lookup_file N z path of
      Some old \<Rightarrow> remove_file_locked N p z old | None \<Rightarrow> (p, z)) = (p1, z1)" by (metis surj_pair)
  note wf = zone_okD(2) [OF z]
  have pwf: "path_wf N z" using wf by (simp add: zone_wf_def)
  note look = lookup_file_wf [OF ok pwf, of path]
  have s1: "zone_ok N p1 z1" "keeps N p z p1 z1" "abs_zone z1 = (abs_zone z)(path := None)"
  proof (atomize(full), cases "lookup_file N z path")
    case None
    with look have "abs_zone z path = None" unfolding abs_zone_None [OF wf] by simp
    with None old z show "zone_ok N p1 z1 \<and> keeps N p z p1 z1 \<and> abs_zone z1 = (abs_zone z)(path := None)"
      by (auto simp: keeps_refl zone_okD(1))
  next
    case (Some a)
    then obtain f where f: "fheap z a = Some f" "shm_file_path f = path" using look by blast
    with Some old remove_file_abs [OF ok z f(1)]
    show "zone_ok N p1 z1 \<and> keeps N p z p1 z1 \<and> abs_zone z1 = (abs_zone z)(path := None)" by simp
  qed
  obtain r2 p2 where al: "alloc_locked N p1 (file_alloc_size N path key (tags_elts tags)) = (r2, p2)"
    by fastforce
  have main: "zone_ok N p' z' \<and> outside p' z' = outside p z \<and> (rc = NGX_OK \<or> rc = NGX_ERROR) \<and>
    abs_zone z' = (abs_zone z1)(path := if rc = NGX_OK then Some (key, mt, sz, tags_elts tags) else None) \<and>
    zone_head z' = (z_name z, z_bootstrap_complete z, z_last_bootstrap_at z,
       if rc = NGX_OK then now else z_last_updated_at z)"
  proof (cases r2)
    case None
    with up old al have res: "rc = NGX_ERROR" "p' = p2" "z' = z1" by (auto simp: upsert_in_zone_def)
    have k: "keeps N p1 z1 p2 z1"
      using keeps_alloc_none [OF ok zone_okD(1) [OF s1(1)]] al None by simp
    with keeps_trans [OF s1(2) k] zone_okD(3) [OF s1(1)] s1(3) res show ?thesis
      by (auto simp: keeps_def zone_ok_def zone_head_def)
  next
    case (Some a)
    define z2 where "z2 = insert_file N z1 a (new_file N path key mt sz tags)"
    obtain rc3 p3 z3 where key: "link_exact_key_locked N p2 z2 a = (rc3, p3, z3)" by (metis prod_cases3)
    obtain rc4 p4 z4 where tg: "link_tags_locked N p3 z3 a tags = (rc4, p4, z4)" by (metis prod_cases3)
    obtain p5 z5 where rm3: "remove_file_locked N p3 z3 a = (p5, z5)" by fastforce
    obtain p6 z6 where rm4: "remove_file_locked N p4 z4 a = (p6, z6)" by fastforce
    have new: "abs_zone z1 path = None" by (simp add: s1(3))
    note b = build_file [OF ok s1(1) al [unfolded Some] new nul z2_def key]
    note b2 = b(2) [OF _ rm3] and b3 = b(3) [OF _ tg, of p6 z6]
    consider (e3) "rc3 = NGX_ERROR" | (e4) "rc3 = NGX_OK" "rc4 = NGX_ERROR" | (fine) "rc3 = NGX_OK" "rc4 = NGX_OK"
      using b(1) b3 by blast
    then show ?thesis
    proof cases
      case e3
      with up old al Some z2_def key rm3 have res: "rc = NGX_ERROR" "p' = p5" "z' = z5"
        by (auto simp: upsert_in_zone_def Let_def)
      with b2 e3 keeps_trans [OF s1(2)] new show ?thesis by (auto simp: keeps_def zone_head_def)
    next
      case e4
      with up old al Some z2_def key tg rm4 have res: "rc = NGX_ERROR" "p' = p6" "z' = z6"
        by (auto simp: upsert_in_zone_def Let_def)
      with b3 e4 rm4 s1(2) new show ?thesis by (auto simp: keeps_def zone_head_def)
    next
      case fine
      with up old al Some z2_def key tg have res: "rc = NGX_OK" "p' = p4" "z' = touch_zone_locked now z4"
        by (auto simp: upsert_in_zone_def Let_def)
      with b3 fine s1(2) show ?thesis
        by (auto simp: keeps_def zone_head_def touch_zone_locked_def zone_ok_def zone_inv_def zone_wf_def
            heaps_disjoint_def zone_addrs_def outside_def keys_linked_def abs_zone_def file_tags_def)
    qed
  qed
  then show "zone_ok N p' z'" "outside p' z' = outside p z" "rc = NGX_OK \<or> rc = NGX_ERROR"
    "zone_head z' = (z_name z, z_bootstrap_complete z, z_last_bootstrap_at z,
       if rc = NGX_OK then now else z_last_updated_at z)" by blast+
  show "abs_zone z' = (abs_zone z)(path :=
      if rc = NGX_OK then Some (key, mt, sz, tags_elts tags) else None)"
    using main s1(3) by simp
qed

end
