(* ===== verification/Zone_Free.thy ===== *)
theory Zone_Free
  imports Zone_Abs
begin

text \<open>
  How the routines of \<open>Shm_Zone\<close> use the slab pool.  \<open>disciplined\<close> says of the history of a pool
  that every allocation returned a block that was not live and every free named a live block, so no
  block was ever freed twice.  \<open>idle_keys\<close> and \<open>idle_tags\<close> are the key and tag entries of a zone that
  list nothing any more: removing a file frees every entry it empties, so it makes none of them.
\<close>

section \<open>Slab discipline and emptied entries\<close>

fun disciplined :: "slab_ev list \<Rightarrow> bool" where
  "disciplined [] = True"
| "disciplined (SlabAlloc n a # h) \<longleftrightarrow> a \<notin> slab_live h \<and> disciplined h"
| "disciplined (SlabFree a # h) \<longleftrightarrow> a \<in> slab_live h \<and> disciplined h"

definition idle_keys :: "shm_zone \<Rightarrow> addr set" where
  "idle_keys z = {e. \<exists>k. kheap z e = Some k \<and> ke_files k = []}"

definition idle_tags :: "shm_zone \<Rightarrow> addr set" where
  "idle_tags z = {e. \<exists>t. theap z e = Some t \<and> te_files t = []}"

text \<open>\<open>tidy\<close>: the pool stays disciplined and no entry becomes or stops being idle.\<close>

definition tidy :: "slab_pool \<Rightarrow> shm_zone \<Rightarrow> slab_pool \<Rightarrow> shm_zone \<Rightarrow> bool" where
  "tidy p z p' z' \<longleftrightarrow> (disciplined (slab p) \<longrightarrow> disciplined (slab p')) \<and>
     idle_keys z' = idle_keys z \<and> idle_tags z' = idle_tags z"

lemma tidy_refl: "tidy p z p z"
  by (simp add: tidy_def)

lemma tidy_trans: "tidy p z p1 z1 \<Longrightarrow> tidy p1 z1 p2 z2 \<Longrightarrow> tidy p z p2 z2"
  by (simp add: tidy_def)

lemma disciplined_alloc:
  assumes "ngx_core_ok N" and "alloc_locked N p n = (r, p')" and "disciplined (slab p)"
  shows "disciplined (slab p')"
  using assms(2,3) core_okD(8) [OF assms(1)] by (auto simp: alloc_locked_def split: option.splits)

lemma disciplined_free: "disciplined (slab (slab_free_locked p a)) \<longleftrightarrow> a \<in> slab_live (slab p) \<and> disciplined (slab p)"
  by (simp add: slab_free_locked_def)

section \<open>Removing a file\<close>

lemma remove_member_tidy:
  assumes inv: "zone_inv N p z" and f: "fheap z a = Some f"
    and m: "m \<in> set (f_tag_members f)" and rm: "remove_member N p z a m = (p', z')"
  shows "tidy p z p' z'"
proof -
  note wf = zone_invD(1) [OF inv]
  obtain mm where mm: "mheap z m = Some mm" using tag_links_wfD(1) [OF wf f] m by blast
  obtain t where t: "theap z (tm_entry mm) = Some t" using tag_links_wfD(3) [OF wf mm] by blast
  have in_t: "m \<in> set (te_files t)" using tag_links_wfD(2) [OF wf t] mm by blast
  let ?e = "tm_entry mm" and ?t = "t\<lparr>te_files := remove1 m (te_files t)\<rparr>"
  have live: "?e \<in> slab_live (slab p)" "m \<in> slab_live (slab p)" "m \<noteq> ?e"
    using zone_invD(2,3) [OF inv] mm t by (auto simp: zone_addrs_def heaps_disjoint_def)
  have res: "kheap z' = kheap z"
    "theap z' = (theap z)(?e := if te_files ?t = [] then None else Some ?t)"
    "p' = slab_free_locked (if te_files ?t = [] then slab_free_locked p ?e else p) m"
    using rm mm t by (auto simp: remove_member_def free_empty_tag_entry_locked_def modify_def Let_def split: if_splits)
  have "idle_tags z' = idle_tags z" using t in_t by (auto simp: idle_tags_def res(2))
  moreover have "disciplined (slab p')" if "disciplined (slab p)"
    using that live by (simp add: res(3) disciplined_free)
  ultimately show ?thesis by (simp add: tidy_def idle_keys_def res(1))
qed

lemma remove_members_tidy:
  assumes ok: "ngx_core_ok N" and "zone_inv N p z" and "fheap z a = Some f" and "f_tag_members f = ms"
    and "remove_members N p z a ms = (p', z')"
  shows "tidy p z p' z'"
  using assms(2-)
proof (induction ms arbitrary: p z f)
  case Nil
  then show ?case by (simp add: tidy_refl)
next
  case (Cons m ms)
  obtain p1 z1 where rm: "remove_member N p z a m = (p1, z1)" by fastforce
  have m: "m \<in> set (f_tag_members f)" using Cons.prems(3) by simp
  note r = remove_member_keeps [OF ok Cons.prems(1,2) m rm]
  have "remove_members N p1 z1 a ms = (p', z')" using Cons.prems(4) rm by simp
  with Cons.IH [OF keeps_inv [OF r(1)] r(3)] Cons.prems(3) have "tidy p1 z1 p' z'" by simp
  then show ?case by (rule tidy_trans [OF remove_member_tidy [OF Cons.prems(1,2) m rm]])
qed

lemma unlink_key_tidy:
  assumes inv: "zone_inv N p z" and f: "fheap z a = Some f" and un: "unlink_key N p z a = (p', z')"
  shows "tidy p z p' z'"
proof (cases "f_key_entry f")
  case None
  with un f show ?thesis by (simp add: unlink_key_def tidy_refl)
next
  case (Some e)
  have links: "key_links (fheap z) (kheap z)" using zone_invD(1) [OF inv] by (simp add: zone_wf_def key_links_wf_def)
  obtain k where k: "kheap z e = Some k" using links f Some unfolding key_links_def by blast
  have in_k: "a \<in> set (ke_files k)" using links k f Some unfolding key_links_def by blast
  let ?k = "k\<lparr>ke_files := remove1 a (ke_files k)\<rparr>"
  have live: "e \<in> slab_live (slab p)" using zone_invD(3) [OF inv] k by (auto simp: zone_addrs_def)
  have res: "theap z' = theap z" "kheap z' = (kheap z)(e := if ke_files ?k = [] then None else Some ?k)"
    "p' = (if ke_files ?k = [] then slab_free_locked p e else p)"
    using un f Some k by (auto simp: unlink_key_def free_empty_key_entry_locked_def modify_def Let_def split: if_splits)
  have "idle_keys z' = idle_keys z" using k in_k by (auto simp: idle_keys_def res(2))
  moreover have "disciplined (slab p')" if "disciplined (slab p)"
    using that live by (simp add: res(3) disciplined_free)
  ultimately show ?thesis by (simp add: tidy_def idle_tags_def res(1))
qed

lemma remove_file_tidy:
  assumes ok: "ngx_core_ok N" and inv: "zone_inv N p z" and f: "fheap z a = Some f"
    and rm: "remove_file_locked N p z a = (p', z')"
  shows "tidy p z p' z'"
proof -
  obtain p1 z1 where un: "unlink_key N p z a = (p1, z1)" by fastforce
  note u = unlink_key_keeps [OF ok inv f un]
  obtain p2 z2 where ms: "remove_members N p1 z1 a (f_tag_members f) = (p2, z2)" by fastforce
  have fm: "f_tag_members (f\<lparr>f_key_entry := None\<rparr>) = f_tag_members f" by simp
  note k = remove_members_keeps [OF ok keeps_inv [OF u(1)] u(3) fm ms]
  have t: "tidy p z p2 z2"
    by (rule tidy_trans [OF unlink_key_tidy [OF inv f un] remove_members_tidy [OF ok keeps_inv [OF u(1)] u(3) fm ms]])
  have live: "a \<in> slab_live (slab p2)" using zone_invD(3) [OF keeps_inv] k by (fastforce simp: zone_addrs_def)
  have res: "p' = slab_free_locked p2 a" "kheap z' = kheap z2" "theap z' = theap z2"
    using rm un ms u(3) by (auto simp: remove_file_locked_def)
  show ?thesis using t live by (simp add: tidy_def idle_keys_def idle_tags_def res disciplined_free)
qed

section \<open>Building a file\<close>

text \<open>\<open>grows\<close>: the pool stays disciplined, no key entry becomes idle, and no tag entry either when
  every allocation succeeded.\<close>

definition grows :: "bool \<Rightarrow> slab_pool \<Rightarrow> shm_zone \<Rightarrow> slab_pool \<Rightarrow> shm_zone \<Rightarrow> bool" where
  "grows fine p z p' z' \<longleftrightarrow> (disciplined (slab p) \<longrightarrow> disciplined (slab p')) \<and>
     idle_keys z' \<subseteq> idle_keys z \<and> (fine \<longrightarrow> idle_tags z' \<subseteq> idle_tags z)"

lemma tidy_grows: "tidy p z p' z' \<Longrightarrow> grows fine p z p' z'"
  by (simp add: tidy_def grows_def)

lemma grows_trans: "grows b p z p1 z1 \<Longrightarrow> grows c p1 z1 p2 z2 \<Longrightarrow> grows (b \<and> c) p z p2 z2"
  by (auto simp: grows_def)

lemma grows_weak: "grows b p z p' z' \<Longrightarrow> (c \<Longrightarrow> b) \<Longrightarrow> grows c p z p' z'"
  by (auto simp: grows_def)

lemma grows_alloc:
  assumes "ngx_core_ok N" and "alloc_locked N p n = (r, p')"
  shows "grows True p z p' z"
  using disciplined_alloc [OF assms] by (simp add: grows_def)

lemma insert_file_grows:
  assumes "ngx_core_ok N" and "alloc_locked N p n = (r, p')"
  shows "grows True p z p' (insert_file N z a f)"
  using disciplined_alloc [OF assms] by (simp add: grows_def insert_file_def Let_def idle_keys_def idle_tags_def)

lemma link_exact_key_grows:
  assumes ok: "ngx_core_ok N" and link: "link_exact_key_locked N p z a = (rc, p', z')"
  shows "grows True p z p' z'"
proof (cases "f_key_len (the (fheap z a)) = 0")
  case True
  with link show ?thesis by (simp add: link_exact_key_locked_def grows_def Let_def)
next
  case False
  obtain r p1 z1 where get: "get_key_entry_locked N p z (shm_file_key (the (fheap z a))) True = (r, p1, z1)"
    by (metis prod_cases3)
  have g: "disciplined (slab p) \<longrightarrow> disciplined (slab p1)" "idle_tags z1 = idle_tags z"
    "r = None \<Longrightarrow> z1 = z" "r = Some e \<Longrightarrow> idle_keys z1 \<subseteq> insert e (idle_keys z)" for e
    using get disciplined_alloc [OF ok]
    by (auto simp: get_key_entry_locked_def Let_def idle_keys_def idle_tags_def
        split: option.splits prod.splits if_splits)
  show ?thesis
  proof (cases r)
    case None
    with False get link g(1,3) show ?thesis by (simp add: link_exact_key_locked_def grows_def Let_def)
  next
    case (Some e)
    have res: "p' = p1" "theap z' = theap z1" "kheap z' = modify (\<lambda>k. k\<lparr>ke_files := ke_files k @ [a]\<rparr>) e (kheap z1)"
      using False get link Some by (auto simp: link_exact_key_locked_def Let_def)
    have "idle_keys z' \<subseteq> idle_keys z1 - {e}" by (auto simp: idle_keys_def res(3) modify_apply split: if_splits)
    moreover have "idle_tags z' = idle_tags z1" by (simp add: idle_tags_def res(2))
    ultimately show ?thesis using g(1,2) g(4) [OF Some] by (auto simp: grows_def res(1))
  qed
qed

lemma get_tag_entry_idle:
  assumes ok: "ngx_core_ok N" and get: "get_tag_entry_locked N p z tag True = (r, p', z')"
  shows "disciplined (slab p) \<longrightarrow> disciplined (slab p')" and "idle_keys z' = idle_keys z"
    and "r = Some e \<Longrightarrow> idle_tags z' \<subseteq> insert e (idle_tags z)"
  using get disciplined_alloc [OF ok]
  by (auto simp: get_tag_entry_locked_def Let_def idle_keys_def idle_tags_def
      split: option.splits prod.splits if_splits)

lemma link_tags_loop_grows:
  assumes ok: "ngx_core_ok N"
  shows "link_tags_loop N p z a tags = (rc, p', z') \<Longrightarrow> grows (rc = NGX_OK) p z p' z'"
proof (induction tags arbitrary: p z)
  case Nil
  then show ?case by (simp add: grows_def)
next
  case (Cons tag tags)
  obtain r p1 z1 where get: "get_tag_entry_locked N p z tag True = (r, p1, z1)" by (metis prod_cases3)
  note g = get_tag_entry_idle [OF ok get]
  obtain r2 p2 where al: "alloc_locked N p1 (sizeof_shm_tag_member N) = (r2, p2)" by fastforce
  note d = disciplined_alloc [OF ok al]
  consider (none) "r = None" | (full) e where "r = Some e" "r2 = None" | (fine) e m where "r = Some e" "r2 = Some m"
    by (cases r; cases r2) auto
  then show ?case
  proof cases
    case none
    with Cons.prems get g(1,2) show ?thesis by (auto simp: grows_def)
  next
    case full
    with Cons.prems get al g(1,2) d show ?thesis by (auto simp: grows_def)
  next
    case fine
    have "grows (rc = NGX_OK) p2 (link_member z1 e m a) p' z'"
      using Cons get al fine by simp
    moreover have "idle_keys (link_member z1 e m a) = idle_keys z" "idle_tags (link_member z1 e m a) \<subseteq> idle_tags z"
      using g(2) g(3) [OF fine(1)]
      by (auto simp: link_member_def idle_keys_def idle_tags_def modify_apply split: if_splits)
    ultimately show ?thesis using g(1) d by (auto simp: grows_def)
  qed
qed

lemma link_tags_grows:
  assumes "ngx_core_ok N" and "link_tags_locked N p z a tags = (rc, p', z')"
  shows "grows (rc = NGX_OK) p z p' z'"
  using assms(2) link_tags_loop_grows [OF assms(1)]
  by (auto simp: link_tags_locked_def grows_def split: option.splits if_splits)

text \<open>An upsert: the old file is taken out, the new one is built, and a file that could not be
  linked is taken out again.\<close>

lemma upsert_in_zone_grows:
  assumes ok: "ngx_core_ok N" and z: "zone_ok N p z" and nul: "c_nul \<notin> set path"
    and up: "upsert_in_zone N now p z path key mt sz tags = (rc, p', z')"
  shows "grows (rc = NGX_OK) p z p' z'"
proof -
  obtain p1 z1 where old: "(case lookup_file N z path of
      Some old \<Rightarrow> remove_file_locked N p z old | None \<Rightarrow> (p, z)) = (p1, z1)" by (metis surj_pair)
  note wf = zone_okD(2) [OF z]
  have pwf: "path_wf N z" using wf by (simp add: zone_wf_def)
  note look = lookup_file_wf [OF ok pwf, of path]
  have s1: "zone_ok N p1 z1" "abs_zone z1 path = None" "tidy p z p1 z1"
  proof (atomize(full), cases "lookup_file N z path")
    case None
    with look have "abs_zone z path = None" unfolding abs_zone_None [OF wf] by simp
    with None old z show "zone_ok N p1 z1 \<and> abs_zone z1 path = None \<and> tidy p z p1 z1" by (auto simp: tidy_refl)
  next
    case (Some a)
    then obtain f where f: "fheap z a = Some f" "shm_file_path f = path" using look by blast
    with Some old remove_file_abs [OF ok z f(1)] remove_file_tidy [OF ok zone_okD(1) [OF z] f(1)]
    show "zone_ok N p1 z1 \<and> abs_zone z1 path = None \<and> tidy p z p1 z1" by simp
  qed
  have g1: "grows True p z p1 z1" by (rule tidy_grows [OF s1(3)])
  obtain r2 p2 where al: "alloc_locked N p1 (file_alloc_size N path key (tags_elts tags)) = (r2, p2)" by fastforce
  show ?thesis
  proof (cases r2)
    case None
    with up old al have "p' = p2" "z' = z1" by (auto simp: upsert_in_zone_def)
    with grows_trans [OF g1 grows_alloc [OF ok al]] show ?thesis by (auto intro: grows_weak)
  next
    case (Some a)
    define z2 where "z2 = insert_file N z1 a (new_file N path key mt sz tags)"
    obtain rc3 p3 z3 where key: "link_exact_key_locked N p2 z2 a = (rc3, p3, z3)" by (metis prod_cases3)
    obtain rc4 p4 z4 where tg: "link_tags_locked N p3 z3 a tags = (rc4, p4, z4)" by (metis prod_cases3)
    obtain p5 z5 where rm3: "remove_file_locked N p3 z3 a = (p5, z5)" by fastforce
    obtain p6 z6 where rm4: "remove_file_locked N p4 z4 a = (p6, z6)" by fastforce
    have ins: "keeps N p1 z1 p2 z2" "fheap z2 a = Some (new_file N path key mt sz tags)"
      using insert_file_keeps [OF ok zone_okD(1) [OF s1(1)] al [unfolded Some] s1(2) nul] by (simp_all add: z2_def)
    note lnk = link_exact_key_keeps [OF ok keeps_inv [OF ins(1)] ins(2) _ key]
    have inv3: "zone_inv N p3 z3" "a \<in> dom (fheap z3)" using lnk(1,3) by (simp_all add: keeps_inv)
    have "grows True p1 z1 p2 z2" unfolding z2_def by (rule insert_file_grows [OF ok al])
    then have g3: "grows True p z p3 z3"
      using grows_trans [OF grows_trans [OF g1] link_exact_key_grows [OF ok key]] by simp
    have t5: "tidy p3 z3 p5 z5" using remove_file_tidy [OF ok inv3(1) _ rm3] inv3(2) by blast
    have g4: "grows (rc4 = NGX_OK) p z p4 z4" using grows_trans [OF g3 link_tags_grows [OF ok tg]] by simp
    have t6: "tidy p4 z4 p6 z6" if "rc3 = NGX_OK"
    proof -
      have rec3: "rec_at z3 a = Some (path, key, mt, sz, key \<noteq> [], [])"
        using lnk(4) that by (simp add: file_tags_def)
      have loop: "link_tags_loop N p3 z3 a (tags_elts tags) = (rc4, p4, z4)"
        using tg by (auto simp: link_tags_locked_def tags_elts_def split: option.splits if_splits)
      note t = link_tags_loop_keeps [OF ok inv3(1) rec3 loop]
      then obtain f where "fheap z4 a = Some f" using rec_at_dom by blast
      with t show ?thesis using remove_file_tidy [OF ok keeps_inv _ rm4] by blast
    qed
    have "(rc, p', z') = (if rc3 \<noteq> NGX_OK then (NGX_ERROR, p5, z5)
        else if rc4 \<noteq> NGX_OK then (NGX_ERROR, p6, z6) else (NGX_OK, p4, touch_zone_locked now z4))"
      using up unfolding upsert_in_zone_def old
      by (cases "rc3 = NGX_OK"; cases "rc4 = NGX_OK") (simp_all add: al Some z2_def [symmetric] key tg rm3 rm4 Let_def)
    then show ?thesis
      using grows_trans [OF g3 tidy_grows [OF t5]] grows_trans [OF g4 tidy_grows [OF t6]] g4
      by (auto simp: grows_def touch_zone_locked_def idle_keys_def idle_tags_def split: if_splits)
  qed
qed

end
