(* ===== verification/Index_Store.thy ===== *)
theory Index_Store
  imports Zone_Abs
begin

text \<open>
  The shared-memory index as a whole, \<^verbatim>\<open>src/src/ngx_cache_pilot_index_store.c\<close>: the list of
  zones in the slab pool and the store operations its users call.  Every operation holds the mutex
  of the slab pool from beginning to end, so it is one function on the shared memory.

  A store that a worker has opened is the shared memory itself; a store that could not be opened is
  \<open>None\<close>.
\<close>

section \<open>State\<close>

record shm =
  sh_pool :: slab_pool
  sh_zones :: "(addr \<times> shm_zone) list"

record zone_state =
  st_bootstrap_complete :: bool
  st_last_bootstrap_at :: int
  st_last_updated_at :: int

definition zone_at :: "shm \<Rightarrow> addr \<Rightarrow> shm_zone" where
  "zone_at s a = the (map_of (sh_zones s) a)"

definition set_zone :: "addr \<Rightarrow> slab_pool \<times> shm_zone \<Rightarrow> shm \<Rightarrow> shm" where
  "set_zone a pz s =
     s\<lparr>sh_pool := fst pz,
       sh_zones := map (\<lambda>(b, z). if b = a then (b, snd pz) else (b, z)) (sh_zones s)\<rparr>"

section \<open>Zones\<close>

fun lookup_zone_loop :: "(addr \<times> shm_zone) list \<Rightarrow> ngx_str \<Rightarrow> addr option" where
  "lookup_zone_loop [] zone_name = None"
| "lookup_zone_loop ((a, z) # q) zone_name =
     (if length (z_name z) = length zone_name \<and> c_strncmp_eq (z_name z) zone_name (length zone_name)
      then Some a
      else lookup_zone_loop q zone_name)"

definition lookup_zone :: "shm \<Rightarrow> ngx_str \<Rightarrow> addr option" where
  "lookup_zone s zone_name = lookup_zone_loop (sh_zones s) zone_name"

definition new_zone :: "ngx_str \<Rightarrow> shm_zone" where
  "new_zone name =
     \<lparr>z_name = name, z_files = [], z_path_index = Sentinel, z_key_index = Sentinel,
      z_tag_index = Sentinel, z_bootstrap_complete = False, z_last_bootstrap_at = 0,
      z_last_updated_at = 0, fheap = Map.empty, kheap = Map.empty, theap = Map.empty,
      mheap = Map.empty\<rparr>"

definition get_zone_locked :: "ngx_core \<Rightarrow> shm \<Rightarrow> ngx_str \<Rightarrow> bool \<Rightarrow> addr option \<times> shm" where
  "get_zone_locked N s zone_name create =
     (case lookup_zone s zone_name of
        Some z \<Rightarrow> (Some z, s)
      | None \<Rightarrow>
          if \<not> create then (None, s)
          else (case alloc_locked N (sh_pool s) (sizeof_shm_zone N + length zone_name) of
              (None, p) \<Rightarrow> (None, s\<lparr>sh_pool := p\<rparr>)
            | (Some a, p) \<Rightarrow>
                (Some a, s\<lparr>sh_pool := p, sh_zones := sh_zones s @ [(a, new_zone zone_name)]\<rparr>)))"

section \<open>Updates\<close>

definition upsert_file_meta ::
  "ngx_core \<Rightarrow> int \<Rightarrow> shm \<Rightarrow> ngx_str \<Rightarrow> ngx_str \<Rightarrow> ngx_str \<Rightarrow> int \<Rightarrow> int \<Rightarrow> ngx_str list option \<Rightarrow>
     ngx_rc \<times> shm" where
  "upsert_file_meta N now s zone_name path key mtime fsize tags =
     (case get_zone_locked N s zone_name True of
        (None, s1) \<Rightarrow> (NGX_ERROR, s1)
      | (Some a, s1) \<Rightarrow>
          (case upsert_in_zone N now (sh_pool s1) (zone_at s1 a) path key mtime fsize tags of
             (rc, pz) \<Rightarrow> (rc, set_zone a pz s1)))"

definition delete_file :: "ngx_core \<Rightarrow> int \<Rightarrow> shm \<Rightarrow> ngx_str \<Rightarrow> ngx_str \<Rightarrow> ngx_rc \<times> shm" where
  "delete_file N now s zone_name path =
     (case lookup_zone s zone_name of
        None \<Rightarrow> (NGX_OK, s)
      | Some a \<Rightarrow>
          (case lookup_file N (zone_at s a) path of
             None \<Rightarrow> (NGX_OK, s)
           | Some file \<Rightarrow>
               let (p, z) = remove_file_locked N (sh_pool s) (zone_at s a) file
               in (NGX_OK, set_zone a (p, touch_zone_locked now z) s)))"

section \<open>Collecting paths\<close>

text \<open>The array of paths is not read by any caller after an error.\<close>

definition push_path_unique ::
  "pool \<Rightarrow> ngx_str list \<Rightarrow> ngx_str \<Rightarrow> ngx_rc \<times> pool \<times> ngx_str list" where
  "push_path_unique pl paths data =
     (if list_ex (\<lambda>p. length p = length data \<and> c_strncmp_eq p data (length data)) paths
      then (NGX_OK, pl, paths)
      else (case pool_alloc pl of
          (False, pl1) \<Rightarrow> (NGX_ERROR, pl1, paths)
        | (True, pl1) \<Rightarrow>
            (case pool_alloc pl1 of
               (False, pl2) \<Rightarrow> (NGX_ERROR, pl2, paths)
             | (True, pl2) \<Rightarrow> (NGX_OK, pl2, paths @ [data]))))"

fun push_paths :: "pool \<Rightarrow> ngx_str list \<Rightarrow> ngx_str list \<Rightarrow> ngx_rc \<times> pool \<times> ngx_str list" where
  "push_paths pl paths [] = (NGX_OK, pl, paths)"
| "push_paths pl paths (d # ds) =
     (case push_path_unique pl paths d of
        (rc, pl1, paths1) \<Rightarrow>
          if rc \<noteq> NGX_OK then (NGX_ERROR, pl1, paths1) else push_paths pl1 paths1 ds)"

definition member_path :: "shm_zone \<Rightarrow> addr \<Rightarrow> ngx_str" where
  "member_path z m = shm_file_path (the (fheap z (tm_file (the (mheap z m)))))"

fun collect_tags_loop ::
  "ngx_core \<Rightarrow> shm_zone \<Rightarrow> pool \<Rightarrow> ngx_str list \<Rightarrow> ngx_str list \<Rightarrow> ngx_rc \<times> pool \<times> ngx_str list" where
  "collect_tags_loop N z pl paths [] = (NGX_OK, pl, paths)"
| "collect_tags_loop N z pl paths (tag # tags) =
     (case lookup_tag_entry N z tag of
        None \<Rightarrow> collect_tags_loop N z pl paths tags
      | Some e \<Rightarrow>
          (case push_paths pl paths (map (member_path z) (te_files (the (theap z e)))) of
             (rc, pl1, paths1) \<Rightarrow>
               if rc \<noteq> NGX_OK then (NGX_ERROR, pl1, paths1)
               else collect_tags_loop N z pl1 paths1 tags))"

definition collect_paths_by_tags ::
  "ngx_core \<Rightarrow> shm \<Rightarrow> pool \<Rightarrow> ngx_str \<Rightarrow> ngx_str list option \<Rightarrow> ngx_rc \<times> pool \<times> ngx_str list" where
  "collect_paths_by_tags N s pl zone_name tags =
     (case pool_alloc pl of
        (False, pl1) \<Rightarrow> (NGX_ERROR, pl1, [])
      | (True, pl1) \<Rightarrow>
          (case lookup_zone s zone_name of
             None \<Rightarrow> (NGX_OK, pl1, [])
           | Some a \<Rightarrow> collect_tags_loop N (zone_at s a) pl1 [] (tags_elts tags)))"

definition collect_paths_by_exact_key ::
  "ngx_core \<Rightarrow> shm \<Rightarrow> pool \<Rightarrow> ngx_str \<Rightarrow> ngx_str \<Rightarrow> ngx_rc \<times> pool \<times> ngx_str list" where
  "collect_paths_by_exact_key N s pl zone_name key =
     (case pool_alloc pl of
        (False, pl1) \<Rightarrow> (NGX_ERROR, pl1, [])
      | (True, pl1) \<Rightarrow>
          (case lookup_zone s zone_name of
             None \<Rightarrow> (NGX_OK, pl1, [])
           | Some a \<Rightarrow>
               let z = zone_at s a in
               (case lookup_key_entry N z key of
                  None \<Rightarrow> (NGX_OK, pl1, [])
                | Some e \<Rightarrow>
                    push_paths pl1 []
                      (map (\<lambda>f. shm_file_path (the (fheap z f))) (ke_files (the (kheap z e)))))))"

text \<open>The key of a file lies in its block after the path, followed by a NUL and the tags;
  \<open>strncmp\<close> sees the bytes up to the first NUL.\<close>

definition key_has_prefix :: "shm_file \<Rightarrow> ngx_str \<Rightarrow> bool" where
  "key_has_prefix f prefix \<longleftrightarrow>
     \<not> f_key_len f < length prefix \<and>
     c_strncmp_eq (drop (f_path_len f + 1) (f_data f)) prefix (length prefix)"

definition collect_paths_by_key_prefix ::
  "ngx_core \<Rightarrow> shm \<Rightarrow> pool \<Rightarrow> ngx_str \<Rightarrow> ngx_str \<Rightarrow> ngx_rc \<times> pool \<times> ngx_str list" where
  "collect_paths_by_key_prefix N s pl zone_name prefix =
     (case pool_alloc pl of
        (False, pl1) \<Rightarrow> (NGX_ERROR, pl1, [])
      | (True, pl1) \<Rightarrow>
          (case lookup_zone s zone_name of
             None \<Rightarrow> (NGX_OK, pl1, [])
           | Some a \<Rightarrow>
               let z = zone_at s a in
               push_paths pl1 []
                 (map (\<lambda>f. shm_file_path (the (fheap z f)))
                   (filter (\<lambda>f. key_has_prefix (the (fheap z f)) prefix) (z_files z)))))"

section \<open>Zone state and statistics\<close>

definition normalize_zone_state :: "int \<Rightarrow> zone_state \<Rightarrow> zone_state" where
  "normalize_zone_state now st =
     (if \<not> st_bootstrap_complete st then
        (if st_last_bootstrap_at st \<noteq> 0 \<or> st_last_updated_at st \<noteq> 0
         then st\<lparr>st_last_bootstrap_at := 0, st_last_updated_at := 0\<rparr>
         else st)
      else
        let st1 = (if st_last_bootstrap_at st = 0
                   then st\<lparr>st_last_bootstrap_at :=
                          if st_last_updated_at st \<noteq> 0 then st_last_updated_at st else now\<rparr>
                   else st)
        in if st_last_updated_at st1 < st_last_bootstrap_at st1
           then st1\<lparr>st_last_updated_at := st_last_bootstrap_at st1\<rparr>
           else st1)"

definition get_zone_state :: "int \<Rightarrow> shm \<Rightarrow> ngx_str \<Rightarrow> ngx_rc \<times> zone_state" where
  "get_zone_state now s zone_name =
     (let st = (case lookup_zone s zone_name of
          None \<Rightarrow> \<lparr>st_bootstrap_complete = False, st_last_bootstrap_at = 0, st_last_updated_at = 0\<rparr>
        | Some a \<Rightarrow>
            \<lparr>st_bootstrap_complete = z_bootstrap_complete (zone_at s a),
             st_last_bootstrap_at = z_last_bootstrap_at (zone_at s a),
             st_last_updated_at = z_last_updated_at (zone_at s a)\<rparr>)
      in (NGX_OK, normalize_zone_state now st))"

definition set_zone_state ::
  "ngx_core \<Rightarrow> int \<Rightarrow> shm \<Rightarrow> ngx_str \<Rightarrow> zone_state \<Rightarrow> ngx_rc \<times> shm \<times> zone_state" where
  "set_zone_state N now s zone_name state0 =
     (let st = normalize_zone_state now state0
      in case get_zone_locked N s zone_name True of
           (None, s1) \<Rightarrow> (NGX_ERROR, s1, st)
         | (Some a, s1) \<Rightarrow>
             (NGX_OK,
              set_zone a (sh_pool s1, (zone_at s1 a)
                \<lparr>z_bootstrap_complete := st_bootstrap_complete st,
                 z_last_bootstrap_at := st_last_bootstrap_at st,
                 z_last_updated_at := st_last_updated_at st\<rparr>) s1,
              st))"

definition get_stats :: "shm option \<Rightarrow> ngx_rc \<times> 64 word" where
  "get_stats store =
     (case store of
        None \<Rightarrow> (NGX_ERROR, 0)
      | Some s \<Rightarrow> (NGX_OK, alloc_failures (sh_pool s)))"

end
