(* ===== verification/Store_Spec.thy ===== *)
theory Store_Spec
  imports Index_Store
begin

text \<open>
  What the shared-memory index promises.  \<open>store_ok\<close> is its invariant: every zone is
  well-formed, no two zones share a name or a block, and every block is live.  \<open>view\<close> is the
  abstract index: for each zone name the map from paths to file meta.  Updates refine updates of
  the map, collections return the paths the map says, and no operation leaks a block.
\<close>

section \<open>Invariant\<close>

fun owned :: "addr \<times> shm_zone \<Rightarrow> addr set" where
  "owned (a, z) = insert a (zone_addrs z)"

definition store_ok :: "ngx_core \<Rightarrow> shm \<Rightarrow> bool" where
  "store_ok N s \<longleftrightarrow>
     (\<forall>(a, z) \<in> set (sh_zones s). zone_ok N (sh_pool s) z \<and> a \<notin> zone_addrs z \<and>
        a \<in> slab_live (slab (sh_pool s)) \<and> c_nul \<notin> set (z_name z)) \<and>
     distinct (map (\<lambda>x. z_name (snd x)) (sh_zones s)) \<and>
     sorted_wrt (\<lambda>x y. owned x \<inter> owned y = {}) (sh_zones s)"

definition stray :: "shm \<Rightarrow> addr set" where
  "stray s = slab_live (slab (sh_pool s)) - \<Union> (owned ` set (sh_zones s))"

definition zone_named :: "shm \<Rightarrow> ngx_str \<Rightarrow> shm_zone option" where
  "zone_named s name = map_of (map (\<lambda>(a, z). (z_name z, z)) (sh_zones s)) name"

definition view :: "shm \<Rightarrow> ngx_str \<Rightarrow> ngx_str \<rightharpoonup> file_meta" where
  "view s name = (case zone_named s name of None \<Rightarrow> Map.empty | Some z \<Rightarrow> abs_zone z)"

definition state_view :: "shm \<Rightarrow> ngx_str \<Rightarrow> (bool \<times> int \<times> int) option" where
  "state_view s name = map_option (\<lambda>z. (z_bootstrap_complete z, z_last_bootstrap_at z, z_last_updated_at z))
     (zone_named s name)"

section \<open>Finding a zone\<close>

lemma lookup_zone_loop_iff:
  assumes "\<forall>(a, z) \<in> set zs. c_nul \<notin> set (z_name z)" and "c_nul \<notin> set name"
  shows "lookup_zone_loop zs name = map_of (map (\<lambda>(a, z). (z_name z, a)) zs) name"
  using assms
proof (induction zs name rule: lookup_zone_loop.induct)
  case (2 a z q name)
  then have "c_strncmp_eq (z_name z) name (length name) \<longleftrightarrow> take (length name) (z_name z) = name"
    by (simp add: c_strncmp_eq_no_nul)
  with 2 show ?case by auto
qed simp

lemma distinct_addrs:
  "sorted_wrt (\<lambda>x y. owned x \<inter> owned y = {}) zs \<Longrightarrow> distinct (map fst zs)"
proof (induction zs)
  case (Cons x zs)
  have "fst x \<in> owned x" for x by (cases x) simp
  with Cons show ?case by fastforce
qed simp

text \<open>The position of a named zone.\<close>

lemma zone_named_split:
  assumes "store_ok N s" and "c_nul \<notin> set name"
  shows "lookup_zone s name = None \<Longrightarrow> zone_named s name = None"
    and "lookup_zone s name = Some a \<Longrightarrow>
      \<exists>xs ys z. sh_zones s = xs @ (a, z) # ys \<and> zone_at s a = z \<and> z_name z = name \<and> zone_named s name = Some z"
proof -
  have nul: "\<forall>(a, z) \<in> set (sh_zones s). c_nul \<notin> set (z_name z)"
    using assms(1) by (auto simp: store_ok_def)
  note look = lookup_zone_loop_iff [OF nul assms(2), folded lookup_zone_def]
  show "lookup_zone s name = None \<Longrightarrow> zone_named s name = None"
    by (auto simp: look zone_named_def map_of_eq_None_iff image_def split_beta)
  assume "lookup_zone s name = Some a"
  then have "(name, a) \<in> set (map (\<lambda>(a, z). (z_name z, a)) (sh_zones s))"
    unfolding look by (rule map_of_SomeD)
  then obtain z where z: "(a, z) \<in> set (sh_zones s)" "z_name z = name" by auto
  then obtain xs ys where zs: "sh_zones s = xs @ (a, z) # ys" by (meson split_list)
  have "distinct (map fst (sh_zones s))" using assms(1) by (simp add: store_ok_def distinct_addrs)
  then have "zone_at s a = z" using z(1) by (simp add: zone_at_def)
  moreover have "distinct (map fst (map (\<lambda>(a, z). (z_name z, z)) (sh_zones s)))"
    using assms(1) by (simp add: store_ok_def comp_def split_beta)
  then have "zone_named s name = Some z"
    unfolding zone_named_def by (rule map_of_is_SomeI) (use z in force)
  ultimately show "\<exists>xs ys z. sh_zones s = xs @ (a, z) # ys \<and> zone_at s a = z \<and> z_name z = name \<and>
      zone_named s name = Some z" using zs z(2) by blast
qed

lemma set_zone_split:
  assumes "store_ok N s" and "sh_zones s = xs @ (a, z) # ys"
  shows "sh_zones (set_zone a (p, z') s) = xs @ (a, z') # ys"
proof -
  have "distinct (map fst (sh_zones s))" using assms(1) by (simp add: store_ok_def distinct_addrs)
  then have "\<forall>b. (a, b) \<notin> set xs \<and> (a, b) \<notin> set ys" using assms(2) by (auto simp: rev_image_eqI)
  then have "map (\<lambda>(b, w). if b = a then (b, z') else (b, w)) xs = xs"
    "map (\<lambda>(b, w). if b = a then (b, z') else (b, w)) ys = ys"
    by (auto intro!: map_idI)
  then show ?thesis unfolding set_zone_def assms(2) snd_conv fst_conv by simp
qed

section \<open>Replacing one zone\<close>

lemma zone_ok_pool:
  assumes "zone_ok N p z" and "zone_addrs z \<subseteq> slab_live (slab p')"
  shows "zone_ok N p' z"
  using assms by (simp add: zone_ok_def zone_inv_def)

lemma set_zone_keeps:
  assumes s: "store_ok N s" and zs: "sh_zones s = xs @ (a, z) # ys"
    and z': "zone_ok N p' z'" and out: "outside p' z' = outside (sh_pool s) z" and name: "z_name z' = z_name z"
  shows "store_ok N (set_zone a (p', z') s)" and "stray (set_zone a (p', z') s) = stray s"
    and "zone_named (set_zone a (p', z') s) = (zone_named s)(z_name z \<mapsto> z')"
proof -
  let ?s = "set_zone a (p', z') s"
  note zs' = set_zone_split [OF s zs, of p' z']
  have pool: "sh_pool ?s = p'" by (simp add: set_zone_def)
  let ?others = "set xs \<union> set ys"
  have dis: "\<forall>x \<in> ?others. owned x \<inter> owned (a, z) = {}"
    and old: "\<forall>(b, w) \<in> set (sh_zones s). zone_ok N (sh_pool s) w \<and> b \<notin> zone_addrs w \<and>
        b \<in> slab_live (slab (sh_pool s)) \<and> c_nul \<notin> set (z_name w)"
    using s by (auto simp: store_ok_def zs sorted_wrt_append)
  have sub: "\<forall>x \<in> ?others. owned x \<subseteq> outside p' z' - {a}"
  proof
    fix x assume x: "x \<in> ?others"
    obtain b w where bw: "x = (b, w)" by force
    with x old have "zone_ok N (sh_pool s) w" "b \<in> slab_live (slab (sh_pool s))" by (auto simp: zs)
    then have "owned x \<subseteq> slab_live (slab (sh_pool s))"
      by (simp add: bw zone_ok_def zone_inv_def)
    moreover have "owned x \<inter> insert a (zone_addrs z) = {}" 
      using bspec [OF dis x] unfolding owned.simps .
    ultimately show "owned x \<subseteq> outside p' z' - {a}" unfolding out unfolding outside_def by blast
  qed
  have a: "a \<in> outside p' z'" unfolding out using old by (simp add: zs outside_def)
  have out_live: "outside p' z' \<subseteq> slab_live (slab p')" by (auto simp: outside_def)
  have each: "zone_ok N p' w \<and> b \<notin> zone_addrs w \<and> b \<in> slab_live (slab p') \<and> c_nul \<notin> set (z_name w)"
    if bw: "(b, w) \<in> set (xs @ (a, z') # ys)" for b w
  proof (cases "(b, w) \<in> ?others")
    case True
    have "insert b (zone_addrs w) \<subseteq> outside p' z'" using bspec [OF sub True] by auto
    then have "b \<in> slab_live (slab p')" "zone_addrs w \<subseteq> slab_live (slab p')" using out_live by auto
    moreover have "zone_ok N (sh_pool s) w \<and> b \<notin> zone_addrs w \<and> c_nul \<notin> set (z_name w)"
      using old True by (auto simp: zs)
    ultimately show ?thesis using zone_ok_pool by blast
  next
    case False
    with bw have "b = a" "w = z'" by auto
    with a z' name old show ?thesis by (auto simp: zs outside_def)
  qed
  have sorted: "sorted_wrt (\<lambda>x y. owned x \<inter> owned y = {}) (xs @ (a, z') # ys)"
  proof -
    have "owned x \<inter> owned (a, z') = {}" if "x \<in> ?others" for x
      using sub that by (fastforce simp: outside_def)
    then show ?thesis using s by (auto simp: store_ok_def zs sorted_wrt_append)
  qed
  have "\<forall>(b, w) \<in> set (xs @ (a, z') # ys). zone_ok N p' w \<and> b \<notin> zone_addrs w \<and>
      b \<in> slab_live (slab p') \<and> c_nul \<notin> set (z_name w)" using each by blast
  moreover have "distinct (map (\<lambda>x. z_name (snd x)) (xs @ (a, z') # ys))"
    using s name by (simp add: store_ok_def zs)
  ultimately show "store_ok N ?s"
    unfolding store_ok_def pool zs' using sorted by blast
  have "slab_live (slab p') - zone_addrs z' = slab_live (slab (sh_pool s)) - zone_addrs z"
    using out by (simp add: outside_def)
  then show "stray ?s = stray s"
    unfolding stray_def pool zs' zs by auto
  show "zone_named ?s = (zone_named s)(z_name z \<mapsto> z')"
  proof
    fix n
    have "distinct (map (\<lambda>x. z_name (snd x)) (sh_zones s))" using s by (simp add: store_ok_def)
    then have "z_name z \<notin> (\<lambda>x. z_name (snd x)) ` set xs" by (auto simp: zs)
    then have "map_of (map (\<lambda>(a, z). (z_name z, z)) xs) (z_name z) = None"
      by (force simp: map_of_eq_None_iff)
    then show "zone_named ?s n = ((zone_named s)(z_name z \<mapsto> z')) n"
      by (auto simp: zone_named_def zs zs' map_add_def name split: option.splits)
  qed
qed

section \<open>A new zone\<close>

lemma zone_ok_new: "ngx_core_ok N \<Longrightarrow> zone_ok N p (new_zone name)"
  by (simp add: zone_ok_def zone_inv_def zone_wf_def new_zone_def files_wf_def path_wf_def key_tree_wf_def
      tag_tree_wf_def key_links_wf_def key_links_def tag_links_wf_def tag_links_def heaps_disjoint_def
      zone_addrs_def keys_linked_def)

lemma zone_addrs_new [simp]: "zone_addrs (new_zone name) = {}"
  by (simp add: zone_addrs_def new_zone_def)

lemma abs_zone_new [simp]: "abs_zone (new_zone name) = Map.empty"
  by (simp add: abs_zone_def new_zone_def)

lemma store_ok_pool:
  assumes "store_ok N s" and "slab_live (slab p) = slab_live (slab (sh_pool s))"
  shows "store_ok N (s\<lparr>sh_pool := p\<rparr>)" and "stray (s\<lparr>sh_pool := p\<rparr>) = stray s"
    and "zone_named (s\<lparr>sh_pool := p\<rparr>) = zone_named s"
  using assms by (auto simp: store_ok_def stray_def zone_named_def zone_ok_def zone_inv_def)

lemma get_zone_locked_spec:
  assumes ok: "ngx_core_ok N" and s: "store_ok N s" and nul: "c_nul \<notin> set name"
    and get: "get_zone_locked N s name True = (r, s')"
  shows "store_ok N s'" and "stray s' = stray s"
    and "r = None \<Longrightarrow> zone_named s' = zone_named s"
    and "r = Some a \<Longrightarrow> \<exists>xs ys z. sh_zones s' = xs @ (a, z) # ys \<and> zone_at s' a = z \<and> z_name z = name \<and>
      zone_named s' = (zone_named s)(name \<mapsto> z) \<and>
      (zone_named s name = Some z \<or> zone_named s name = None \<and> z = new_zone name)"
proof -
  have "store_ok N s' \<and> stray s' = stray s \<and> (r = None \<longrightarrow> zone_named s' = zone_named s) \<and>
    (\<forall>a. r = Some a \<longrightarrow> (\<exists>xs ys z. sh_zones s' = xs @ (a, z) # ys \<and> zone_at s' a = z \<and> z_name z = name \<and>
      zone_named s' = (zone_named s)(name \<mapsto> z) \<and>
      (zone_named s name = Some z \<or> zone_named s name = None \<and> z = new_zone name)))"
  proof (cases "lookup_zone s name")
    case (Some b)
    then have res: "r = Some b" "s' = s" using get by (auto simp: get_zone_locked_def)
    obtain xs ys z where z: "sh_zones s = xs @ (b, z) # ys" "zone_at s b = z" "z_name z = name"
      "zone_named s name = Some z" using zone_named_split(2) [OF s nul Some] by blast
    then have "zone_named s = (zone_named s)(name \<mapsto> z)" by auto
    with z s res show ?thesis by auto
  next
    case None
    note none = zone_named_split(1) [OF s nul None]
    obtain r1 p1 where al: "alloc_locked N (sh_pool s) (sizeof_shm_zone N + length name) = (r1, p1)" by fastforce
    show ?thesis
    proof (cases r1)
      case None
      with al get \<open>lookup_zone s name = None\<close> have "r = None" "s' = s\<lparr>sh_pool := p1\<rparr>"
        by (auto simp: get_zone_locked_def)
      with store_ok_pool [OF s alloc_lockedD(1) [OF ok al None]] show ?thesis by simp
    next
      case (Some b)
      note al' = alloc_lockedD(2,3) [OF ok al Some]
      have res: "r = Some b" "s' = s\<lparr>sh_pool := p1, sh_zones := sh_zones s @ [(b, new_zone name)]\<rparr>"
        using al get Some None by (auto simp: get_zone_locked_def)
      have sub: "owned x \<subseteq> slab_live (slab (sh_pool s))" if "x \<in> set (sh_zones s)" for x
        using s that by (cases x) (auto simp: store_ok_def zone_ok_def zone_inv_def)
      have fresh: "\<forall>x \<in> set (sh_zones s). b \<notin> owned x" using sub al'(1) by blast
      have names: "\<forall>x \<in> set (sh_zones s). z_name (snd x) \<noteq> name"
        using none by (force simp: zone_named_def map_of_eq_None_iff)
      have "zone_ok N p1 z \<and> a \<notin> zone_addrs z \<and> a \<in> slab_live (slab p1) \<and> c_nul \<notin> set (z_name z)"
        if az: "(a, z) \<in> set (sh_zones s')" for a z
      proof (cases "(a, z) \<in> set (sh_zones s)")
        case True
        with s have "zone_ok N (sh_pool s) z \<and> a \<notin> zone_addrs z \<and> c_nul \<notin> set (z_name z)"
          by (auto simp: store_ok_def)
        with sub [OF True] al'(2) show ?thesis by (auto intro: zone_ok_pool)
      next
        case False
        with az have "a = b" "z = new_zone name" by (auto simp: res)
        with al'(2) zone_ok_new [OF ok] nul show ?thesis by (simp add: new_zone_def [THEN arg_cong [of _ _ z_name]])
      qed
      then have "\<forall>(a, z) \<in> set (sh_zones s'). zone_ok N p1 z \<and> a \<notin> zone_addrs z \<and>
          a \<in> slab_live (slab p1) \<and> c_nul \<notin> set (z_name z)" by blast
      moreover have "distinct (map (\<lambda>x. z_name (snd x)) (sh_zones s'))"
        using s names by (auto simp: res store_ok_def new_zone_def)
      moreover have "sorted_wrt (\<lambda>x y. owned x \<inter> owned y = {}) (sh_zones s')"
        using s fresh by (auto simp: res store_ok_def sorted_wrt_append)
      ultimately have "store_ok N s'" by (simp add: store_ok_def res)
      moreover have "stray s' = stray s"
        using al' fresh by (auto simp: stray_def res)
      moreover have "b \<notin> fst ` set (sh_zones s)"
      proof
        assume "b \<in> fst ` set (sh_zones s)"
        then obtain w where "(b, w) \<in> set (sh_zones s)" by auto
        with fresh show False by fastforce
      qed
      then have "map_of (sh_zones s) b = None" by (simp add: map_of_eq_None_iff)
      then have "zone_at s' b = new_zone name" by (simp add: zone_at_def res map_add_def)
      moreover have "zone_named s' = (zone_named s)(name \<mapsto> new_zone name)"
        using none by (auto simp: fun_eq_iff zone_named_def res map_add_def new_zone_def split: option.splits)
      moreover have "z_name (new_zone name) = name" by (simp add: new_zone_def)
      ultimately show ?thesis using res none by auto
    qed
  qed
  then show "store_ok N s'" "stray s' = stray s" "r = None \<Longrightarrow> zone_named s' = zone_named s"
    "r = Some a \<Longrightarrow> \<exists>xs ys z. sh_zones s' = xs @ (a, z) # ys \<and> zone_at s' a = z \<and> z_name z = name \<and>
      zone_named s' = (zone_named s)(name \<mapsto> z) \<and>
      (zone_named s name = Some z \<or> zone_named s name = None \<and> z = new_zone name)" by blast+
qed

section \<open>Updates refine map updates\<close>

lemma view_zone_named: "zone_named s name = Some z \<Longrightarrow> view s name = abs_zone z"
  by (simp add: view_def)

lemma view_upd:
  assumes "zone_named s' = (zone_named s)(name \<mapsto> z)"
  shows "view s' = (view s)(name := abs_zone z)"
  using assms by (auto simp: fun_eq_iff view_def)

text \<open>Updates of files do not touch the bootstrap flag of any zone.\<close>

definition boot_done :: "shm \<Rightarrow> ngx_str \<Rightarrow> bool" where
  "boot_done s name = (case zone_named s name of None \<Rightarrow> False | Some z \<Rightarrow> z_bootstrap_complete z)"

lemma boot_done_upd:
  assumes "zone_named s' = (zone_named s)(name \<mapsto> z)" and "z_bootstrap_complete z = boot_done s name"
  shows "boot_done s' = boot_done s"
  using assms by (auto simp: fun_eq_iff boot_done_def)

lemma upsert_file_meta_cases:
  assumes ok: "ngx_core_ok N" and s: "store_ok N s" and nul: "c_nul \<notin> set zone_name" "c_nul \<notin> set path"
    and up: "upsert_file_meta N now s zone_name path key mt sz tags = (rc, s')"
  shows "store_ok N s'" and "stray s' = stray s" and "rc = NGX_OK \<or> rc = NGX_ERROR"
    and "rc = NGX_OK \<Longrightarrow> view s' = (view s)(zone_name := (view s zone_name)(path \<mapsto> (key, mt, sz, tags_elts tags)))"
    and "rc = NGX_ERROR \<Longrightarrow> view s' = view s \<or> view s' = (view s)(zone_name := (view s zone_name)(path := None))"
    and "boot_done s' = boot_done s"
proof -
  obtain r s1 where get: "get_zone_locked N s zone_name True = (r, s1)" by fastforce
  note g = get_zone_locked_spec [OF ok s nul(1) get]
  have "store_ok N s' \<and> stray s' = stray s \<and> (rc = NGX_OK \<or> rc = NGX_ERROR) \<and>
    (rc = NGX_OK \<longrightarrow> view s' = (view s)(zone_name := (view s zone_name)(path \<mapsto> (key, mt, sz, tags_elts tags)))) \<and>
    (rc = NGX_ERROR \<longrightarrow> view s' = view s \<or> view s' = (view s)(zone_name := (view s zone_name)(path := None))) \<and>
    boot_done s' = boot_done s"
  proof (cases r)
    case None
    with up get g show ?thesis by (auto simp: upsert_file_meta_def view_def boot_done_def fun_eq_iff)
  next
    case (Some a)
    obtain xs ys z where z: "sh_zones s1 = xs @ (a, z) # ys" "zone_at s1 a = z" "z_name z = zone_name"
      "zone_named s1 = (zone_named s)(zone_name \<mapsto> z)"
      "zone_named s zone_name = Some z \<or> zone_named s zone_name = None \<and> z = new_zone zone_name"
      using g(4) [OF Some] by blast
    obtain p' z' where uz: "upsert_in_zone N now (sh_pool s1) z path key mt sz tags = (rc, p', z')"
      and s': "s' = set_zone a (p', z') s1"
      using up get Some z(2) by (auto simp: upsert_file_meta_def split: prod.splits)
    have zok: "zone_ok N (sh_pool s1) z" using g(1) by (simp add: store_ok_def z(1))
    note u = upsert_in_zone_spec [OF ok zok nul(2) uz]
    have "z_name z' = z_name z" using u(5) by (simp add: zone_head_def)
    note k = set_zone_keeps [OF g(1) z(1) u(1,2) this, folded s']
    have old: "view s zone_name = abs_zone z" using z(5) by (auto simp: view_def)
    have "view s' = (view s)(zone_name := abs_zone z')"
      by (rule view_upd) (simp add: k(3) z(3,4))
    moreover have "boot_done s' = boot_done s"
    proof (rule boot_done_upd)
      show "zone_named s' = (zone_named s)(zone_name \<mapsto> z')" by (simp add: k(3) z(3,4))
      show "z_bootstrap_complete z' = boot_done s zone_name"
        using u(5) z(5) by (auto simp: zone_head_def boot_done_def new_zone_def)
    qed
    ultimately show ?thesis using k g(2) u(3,4) old by auto
  qed
  then show "store_ok N s'" "stray s' = stray s" "rc = NGX_OK \<or> rc = NGX_ERROR"
    "rc = NGX_OK \<Longrightarrow> view s' = (view s)(zone_name := (view s zone_name)(path \<mapsto> (key, mt, sz, tags_elts tags)))"
    "rc = NGX_ERROR \<Longrightarrow> view s' = view s \<or> view s' = (view s)(zone_name := (view s zone_name)(path := None))"
    "boot_done s' = boot_done s"
    by blast+
qed

lemma delete_file_spec:
  assumes ok: "ngx_core_ok N" and s: "store_ok N s" and nul: "c_nul \<notin> set zone_name"
    and del: "delete_file N now s zone_name path = (rc, s')"
  shows "store_ok N s'" and "stray s' = stray s" and "rc = NGX_OK"
    and "view s' = (view s)(zone_name := (view s zone_name)(path := None))"
    and "boot_done s' = boot_done s"
proof -
  have "store_ok N s' \<and> stray s' = stray s \<and> rc = NGX_OK \<and>
      view s' = (view s)(zone_name := (view s zone_name)(path := None)) \<and> boot_done s' = boot_done s"
  proof (cases "lookup_zone s zone_name")
    case None
    with del zone_named_split(1) [OF s nul] s show ?thesis
      by (auto simp: delete_file_def view_def fun_eq_iff)
  next
    case (Some a)
    obtain xs ys z where z: "sh_zones s = xs @ (a, z) # ys" "zone_at s a = z" "z_name z = zone_name"
      "zone_named s zone_name = Some z" using zone_named_split(2) [OF s nul Some] by blast
    have zok: "zone_ok N (sh_pool s) z" using s by (simp add: store_ok_def z(1))
    have pwf: "path_wf N z" using zone_okD(2) [OF zok] by (simp add: zone_wf_def)
    show ?thesis
    proof (cases "lookup_file N z path")
      case None
      then have "abs_zone z path = None"
        unfolding abs_zone_None [OF zone_okD(2) [OF zok]] using lookup_file_wf [OF ok pwf, of path] by auto
      with None Some del s z(2,4) show ?thesis by (auto simp: delete_file_def view_def fun_eq_iff)
    next
      case f: (Some fa)
      then obtain ff where ff: "fheap z fa = Some ff" "shm_file_path ff = path"
        using lookup_file_wf [OF ok pwf] by blast
      obtain p1 z1 where rm: "remove_file_locked N (sh_pool s) z fa = (p1, z1)" by fastforce
      note r = remove_file_abs [OF ok zok ff(1) rm]
      have res: "rc = NGX_OK" "s' = set_zone a (p1, touch_zone_locked now z1) s"
        using del Some f rm z(2) by (auto simp: delete_file_def)
      have z1: "zone_ok N p1 (touch_zone_locked now z1)" "outside p1 (touch_zone_locked now z1) = outside (sh_pool s) z"
        "z_name (touch_zone_locked now z1) = z_name z" "abs_zone (touch_zone_locked now z1) = abs_zone z1"
        using r(1,2) by (auto simp: keeps_def touch_zone_locked_def zone_ok_def zone_inv_def zone_wf_def
            heaps_disjoint_def zone_addrs_def outside_def keys_linked_def abs_zone_def file_tags_def zone_head_def)
      note k = set_zone_keeps [OF s z(1) z1(1-3), folded res(2)]
      have "view s' = (view s)(zone_name := abs_zone z1)"
        unfolding z1(4) [symmetric] by (rule view_upd) (simp add: k(3) z(3))
      moreover have "boot_done s' = boot_done s"
      proof (rule boot_done_upd)
        show "zone_named s' = (zone_named s)(zone_name \<mapsto> touch_zone_locked now z1)" by (simp add: k(3) z(3))
        show "z_bootstrap_complete (touch_zone_locked now z1) = boot_done s zone_name"
          using r(2) z(4) by (simp add: boot_done_def keeps_def zone_head_def touch_zone_locked_def)
      qed
      ultimately show ?thesis using k res r(3) ff z(4) by (simp add: view_def)
    qed
  qed
  then show "store_ok N s'" "stray s' = stray s" "rc = NGX_OK"
    "view s' = (view s)(zone_name := (view s zone_name)(path := None))"
    "boot_done s' = boot_done s" by blast+
qed

section \<open>Zone state\<close>

definition state_triple :: "zone_state \<Rightarrow> bool \<times> int \<times> int" where
  "state_triple st = (st_bootstrap_complete st, st_last_bootstrap_at st, st_last_updated_at st)"

lemma set_zone_state_spec:
  assumes ok: "ngx_core_ok N" and s: "store_ok N s" and nul: "c_nul \<notin> set zone_name"
    and set: "set_zone_state N now s zone_name st = (rc, s', st')"
  shows "store_ok N s'" and "stray s' = stray s" and "view s' = view s"
    and "st' = normalize_zone_state now st"
    and "rc = NGX_OK \<Longrightarrow> state_view s' = (state_view s)(zone_name \<mapsto> state_triple st')"
    and "rc \<noteq> NGX_OK \<Longrightarrow> rc = NGX_ERROR \<and> state_view s' = state_view s"
proof -
  obtain r s1 where get: "get_zone_locked N s zone_name True = (r, s1)" by fastforce
  note g = get_zone_locked_spec [OF ok s nul get]
  show st': "st' = normalize_zone_state now st"
    using set by (auto simp: set_zone_state_def Let_def split: prod.splits option.splits)
  have "store_ok N s' \<and> stray s' = stray s \<and> view s' = view s \<and>
    (rc = NGX_OK \<longrightarrow> state_view s' = (state_view s)(zone_name \<mapsto> state_triple st')) \<and>
    (rc \<noteq> NGX_OK \<longrightarrow> rc = NGX_ERROR \<and> state_view s' = state_view s)"
  proof (cases r)
    case None
    with set get g show ?thesis by (auto simp: set_zone_state_def view_def state_view_def fun_eq_iff)
  next
    case (Some a)
    obtain xs ys z where z: "sh_zones s1 = xs @ (a, z) # ys" "zone_at s1 a = z" "z_name z = zone_name"
      "zone_named s1 = (zone_named s)(zone_name \<mapsto> z)"
      "zone_named s zone_name = Some z \<or> zone_named s zone_name = None \<and> z = new_zone zone_name"
      using g(4) [OF Some] by blast
    let ?z = "z\<lparr>z_bootstrap_complete := st_bootstrap_complete st',
       z_last_bootstrap_at := st_last_bootstrap_at st', z_last_updated_at := st_last_updated_at st'\<rparr>"
    have res: "rc = NGX_OK" "s' = set_zone a (sh_pool s1, ?z) s1"
      using set get Some z(2) by (auto simp: set_zone_state_def Let_def)
    have z1: "zone_ok N (sh_pool s1) ?z" "outside (sh_pool s1) ?z = outside (sh_pool s1) z" "z_name ?z = z_name z"
      "abs_zone ?z = abs_zone z"
      using g(1) by (auto simp: store_ok_def z(1) zone_ok_def zone_inv_def zone_wf_def
          heaps_disjoint_def zone_addrs_def outside_def keys_linked_def abs_zone_def file_tags_def)
    note k = set_zone_keeps [OF g(1) z(1) z1(1-3), folded res(2)]
    have named: "zone_named s' = (zone_named s)(zone_name \<mapsto> ?z)"
      using k(3) by (simp add: z(3,4))
    have "view s' = (view s)(zone_name := abs_zone z)"
      unfolding z1(4) [symmetric] by (rule view_upd) (rule named)
    moreover have "view s zone_name = abs_zone z" using z(5) by (auto simp: view_def)
    ultimately have "view s' = view s" by auto
    moreover have "state_view s' = (state_view s)(zone_name \<mapsto> state_triple st')"
      by (simp add: fun_eq_iff state_view_def named state_triple_def)
    ultimately show ?thesis using k g(2) res by simp
  qed
  then show "store_ok N s'" "stray s' = stray s" "view s' = view s"
    "rc = NGX_OK \<Longrightarrow> state_view s' = (state_view s)(zone_name \<mapsto> state_triple st')"
    "rc \<noteq> NGX_OK \<Longrightarrow> rc = NGX_ERROR \<and> state_view s' = state_view s" by blast+
qed

text \<open>Normalisation makes a state consistent, and leaves consistent states alone.\<close>

definition state_consistent :: "zone_state \<Rightarrow> bool" where
  "state_consistent st \<longleftrightarrow>
     (if st_bootstrap_complete st
      then st_last_bootstrap_at st \<noteq> 0 \<and> st_last_bootstrap_at st \<le> st_last_updated_at st
      else st_last_bootstrap_at st = 0 \<and> st_last_updated_at st = 0)"

lemma normalize_consistent: "now \<noteq> 0 \<Longrightarrow> state_consistent (normalize_zone_state now st)"
  by (simp add: state_consistent_def normalize_zone_state_def Let_def)

lemma normalize_id: "state_consistent st \<Longrightarrow> normalize_zone_state now st = st"
  by (auto simp: state_consistent_def normalize_zone_state_def Let_def)

lemma get_zone_state_spec:
  assumes "store_ok N s" and "c_nul \<notin> set zone_name"
  shows "get_zone_state now s zone_name = (NGX_OK, normalize_zone_state now
    (case state_view s zone_name of
       None \<Rightarrow> \<lparr>st_bootstrap_complete = False, st_last_bootstrap_at = 0, st_last_updated_at = 0\<rparr>
     | Some (b, lb, lu) \<Rightarrow> \<lparr>st_bootstrap_complete = b, st_last_bootstrap_at = lb, st_last_updated_at = lu\<rparr>))"
  using zone_named_split [OF assms]
  by (cases "lookup_zone s zone_name") (auto simp: get_zone_state_def state_view_def)

lemma set_zone_state_boot:
  assumes "ngx_core_ok N" and "store_ok N s" and "c_nul \<notin> set zone_name"
    and "set_zone_state N now s zone_name st = (NGX_OK, s', st')"
  shows "boot_done s' = (boot_done s)(zone_name := st_bootstrap_complete st')"
proof -
  have b: "boot_done t z = (case state_view t z of None \<Rightarrow> False | Some (b, _) \<Rightarrow> b)" for t z
    by (simp add: boot_done_def state_view_def split: option.splits)
  show ?thesis using set_zone_state_spec(5) [OF assms refl] by (auto simp: fun_eq_iff b state_triple_def)
qed

lemma get_zone_state_boot:
  assumes "store_ok N s" and "c_nul \<notin> set zone_name"
  shows "st_bootstrap_complete (snd (get_zone_state now s zone_name)) = boot_done s zone_name"
  unfolding get_zone_state_spec [OF assms]
  by (auto simp: boot_done_def state_view_def normalize_zone_state_def Let_def split: option.splits)

end
