(* ===== verification/Store_Collect.thy ===== *)
theory Store_Collect
  imports Store_Spec
begin

text \<open>
  The three collections of the index return exactly the paths the abstract index says: by tags,
  by exact key, by key prefix.  When the request pool runs out of memory they report an error.
\<close>

section \<open>Arrays of unique paths\<close>

lemma push_path_unique_spec:
  assumes "\<forall>p \<in> set paths. c_nul \<notin> set p" and "c_nul \<notin> set d" and "distinct paths"
    and "push_path_unique pl paths d = (rc, pl', paths')"
  shows "rc = NGX_OK \<and> set paths' = insert d (set paths) \<and> distinct paths' \<or>
         rc = NGX_ERROR \<and> paths' = paths"
    and "pl = [] \<Longrightarrow> rc = NGX_OK \<and> pl' = []"
proof -
  have eq: "length p = length d \<and> c_strncmp_eq p d (length d) \<longleftrightarrow> p = d" if "p \<in> set paths" for p
    using that assms(1,2) by (auto simp: c_strncmp_eq_no_nul)
  have iff: "list_ex (\<lambda>p. length p = length d \<and> c_strncmp_eq p d (length d)) paths \<longleftrightarrow> d \<in> set paths"
    unfolding list_ex_iff using eq by blast
  show "rc = NGX_OK \<and> set paths' = insert d (set paths) \<and> distinct paths' \<or>
         rc = NGX_ERROR \<and> paths' = paths"
    using assms(3,4) unfolding push_path_unique_def iff
    by (auto split: if_splits prod.splits bool.splits)
  show "pl = [] \<Longrightarrow> rc = NGX_OK \<and> pl' = []"
    using assms(4) unfolding push_path_unique_def iff by (auto split: if_splits)
qed

lemma push_paths_spec:
  assumes "\<forall>p \<in> set paths \<union> set ds. c_nul \<notin> set p" and "distinct paths"
    and "push_paths pl paths ds = (rc, pl', paths')"
  shows "(rc = NGX_OK \<or> rc = NGX_ERROR) \<and> distinct paths' \<and> set paths \<subseteq> set paths' \<and>
         set paths' \<subseteq> set paths \<union> set ds \<and> (rc = NGX_OK \<longrightarrow> set paths' = set paths \<union> set ds) \<and>
         (pl = [] \<longrightarrow> rc = NGX_OK \<and> pl' = [])"
  using assms
proof (induction pl paths ds rule: push_paths.induct)
  case (2 pl paths d ds)
  obtain rc1 pl1 paths1 where p: "push_path_unique pl paths d = (rc1, pl1, paths1)" by (metis prod_cases3)
  have nul: "\<forall>p \<in> set paths. c_nul \<notin> set p" "c_nul \<notin> set d" using "2.prems"(1) by auto
  note s = push_path_unique_spec [OF nul "2.prems"(2) p]
  show ?case
  proof (cases "rc1 = NGX_OK")
    case True
    with s(1) have *: "set paths1 = insert d (set paths)" "distinct paths1" by auto
    have "push_paths pl1 paths1 ds = (rc, pl', paths')" using "2.prems"(3) p True by simp
    with "2.IH" [OF p [symmetric] refl _ _ *(2)] True * "2.prems"(1) s(2) show ?thesis by auto
  next
    case False
    with s(1) have "rc1 = NGX_ERROR" "paths1 = paths" by auto
    with False "2.prems"(2,3) p s(2) show ?thesis by auto
  qed
qed auto

section \<open>Tags, keys and prefixes of a zone\<close>

definition zone_paths_by_tag :: "shm_zone \<Rightarrow> ngx_str \<Rightarrow> ngx_str set" where
  "zone_paths_by_tag z tag = {p. \<exists>k mt sz ts. abs_zone z p = Some (k, mt, sz, ts) \<and> tag \<in> set ts}"

lemma abs_zone_file:
  assumes "zone_wf N z"
  shows "abs_zone z p = Some (k, mt, sz, ts) \<longleftrightarrow> (\<exists>a f. fheap z a = Some f \<and>
    shm_file_path f = p \<and> shm_file_key f = k \<and> f_mtime f = mt \<and> f_size f = sz \<and> file_tags z f = ts)"
  unfolding abs_zone_Some [OF assms] by (auto simp: rec_at_def file_rec_def)

lemma tag_entry_paths:
  assumes ok: "ngx_core_ok N" and wf: "zone_wf N z"
  shows "lookup_tag_entry N z tag = None \<Longrightarrow> zone_paths_by_tag z tag = {}"
    and "lookup_tag_entry N z tag = Some e \<Longrightarrow>
      member_path z ` set (te_files (the (theap z e))) = zone_paths_by_tag z tag"
proof -
  have ttw: "tag_tree_wf N z" using wf by (simp add: zone_wf_def)
  note look = lookup_tag_entry_wf [OF ok ttw]
  have mem: "\<exists>mm t. mheap z m = Some mm \<and> tm_file mm = a \<and> theap z (tm_entry mm) = Some t"
    if "fheap z a = Some f" "m \<in> set (f_tag_members f)" for a f m
    using tag_links_wfD(1) [OF wf that(1)] that(2) tag_links_wfD(3) [OF wf] by blast
  show "zone_paths_by_tag z tag = {}" if none: "lookup_tag_entry N z tag = None"
  proof -
    have "tag \<notin> set (file_tags z f)" if f: "fheap z a = Some f" for a f
    proof
      assume "tag \<in> set (file_tags z f)"
      then obtain m where m: "m \<in> set (f_tag_members f)" "te_tag (the (theap z (tm_entry (the (mheap z m))))) = tag"
        by (auto simp: file_tags_def)
      then obtain mm t where "mheap z m = Some mm" "theap z (tm_entry mm) = Some t" using mem [OF f m(1)] by blast
      with m(2) have "lookup_tag_entry N z tag = Some (tm_entry mm)" using look by simp
      with none show False by simp
    qed
    then show ?thesis by (auto simp: zone_paths_by_tag_def abs_zone_file [OF wf])
  qed
  assume some: "lookup_tag_entry N z tag = Some e"
  then obtain t where t: "theap z e = Some t" "te_tag t = tag" using look by blast
  show "member_path z ` set (te_files (the (theap z e))) = zone_paths_by_tag z tag"
  proof (intro set_eqI iffI)
    fix p assume "p \<in> member_path z ` set (te_files (the (theap z e)))"
    then obtain m mm where m: "mheap z m = Some mm" "tm_entry mm = e" "p = member_path z m"
      using t tag_links_wfD(2) [OF wf t(1)] by auto
    then obtain f where f: "fheap z (tm_file mm) = Some f" using tag_links_wfD(3) [OF wf m(1)] by blast
    then have "m \<in> set (f_tag_members f)" using tag_links_wfD(1) [OF wf f] m(1) by blast
    then have "te_tag (the (theap z (tm_entry (the (mheap z m))))) \<in> set (file_tags z f)"
      by (simp add: file_tags_def)
    then have "tag \<in> set (file_tags z f)" using m t by simp
    then show "p \<in> zone_paths_by_tag z tag"
      using f m unfolding zone_paths_by_tag_def abs_zone_file [OF wf] by (fastforce simp: member_path_def)
  next
    fix p assume "p \<in> zone_paths_by_tag z tag"
    then obtain a f where f: "fheap z a = Some f" "shm_file_path f = p" "tag \<in> set (file_tags z f)"
      by (auto simp: zone_paths_by_tag_def abs_zone_file [OF wf])
    then obtain m where m: "m \<in> set (f_tag_members f)" "te_tag (the (theap z (tm_entry (the (mheap z m))))) = tag"
      by (auto simp: file_tags_def)
    then obtain mm t' where mm: "mheap z m = Some mm" "tm_file mm = a" "theap z (tm_entry mm) = Some t'"
      using mem [OF f(1)] by blast
    with m(2) have "lookup_tag_entry N z tag = Some (tm_entry mm)" using look by simp
    with some have "tm_entry mm = e" by simp
    with mm t have "m \<in> set (te_files t)" using tag_links_wfD(2) [OF wf t(1)] by blast
    with t mm f show "p \<in> member_path z ` set (te_files (the (theap z e)))"
      by (force simp: member_path_def)
  qed
qed

lemma key_entry_paths:
  assumes ok: "ngx_core_ok N" and wf: "zone_wf N z" and lk: "keys_linked z" and key: "key \<noteq> []"
  shows "lookup_key_entry N z key = None \<Longrightarrow> {p. \<exists>mt sz ts. abs_zone z p = Some (key, mt, sz, ts)} = {}"
    and "lookup_key_entry N z key = Some e \<Longrightarrow>
      (\<lambda>f. shm_file_path (the (fheap z f))) ` set (ke_files (the (kheap z e))) =
      {p. \<exists>mt sz ts. abs_zone z p = Some (key, mt, sz, ts)}"
proof -
  have ktw: "key_tree_wf N z" and links: "key_links (fheap z) (kheap z)"
    using wf by (simp_all add: zone_wf_def key_links_wf_def)
  note look = lookup_key_entry_wf [OF ok ktw]
  have entry: "\<exists>e k. f_key_entry f = Some e \<and> kheap z e = Some k \<and> ke_key k = key"
    if "fheap z a = Some f" "shm_file_key f = key" for a f
    using that key lk links unfolding keys_linked_def key_links_def by (metis option.exhaust)
  show "{p. \<exists>mt sz ts. abs_zone z p = Some (key, mt, sz, ts)} = {}" if "lookup_key_entry N z key = None"
    using that look [of key] entry by (auto simp: abs_zone_file [OF wf]) metis
  assume some: "lookup_key_entry N z key = Some e"
  then obtain k where k: "kheap z e = Some k" "ke_key k = key" using look by blast
  have files: "a \<in> set (ke_files k) \<longleftrightarrow> (\<exists>f. fheap z a = Some f \<and> shm_file_key f = key)" for a
  proof
    assume "a \<in> set (ke_files k)"
    then show "\<exists>f. fheap z a = Some f \<and> shm_file_key f = key"
      using links k unfolding key_links_def by (metis option.inject)
  next
    assume "\<exists>f. fheap z a = Some f \<and> shm_file_key f = key"
    then obtain f where f: "fheap z a = Some f" "shm_file_key f = key" by blast
    then obtain e' k' where "f_key_entry f = Some e'" "kheap z e' = Some k'" "ke_key k' = key" using entry by blast
    with look [of key e'] some have "f_key_entry f = Some e" by auto
    with f k links show "a \<in> set (ke_files k)" unfolding key_links_def by blast
  qed
  then show "(\<lambda>f. shm_file_path (the (fheap z f))) ` set (ke_files (the (kheap z e))) =
      {p. \<exists>mt sz ts. abs_zone z p = Some (key, mt, sz, ts)}"
    unfolding k(1) option.sel abs_zone_file [OF wf] by (intro set_eqI iffI) (force simp: files)+
qed

text \<open>A key prefix is compared inside the file block.  Keys and prefixes come from cache keys
  and request URIs; where they are free of NUL bytes, and where the block holds the key followed by
  a NUL, the comparison is the prefix relation.\<close>

lemma key_has_prefix_iff:
  assumes "c_nul \<notin> set prefix" and "length (shm_file_key f) = f_key_len f"
  shows "key_has_prefix f prefix \<longleftrightarrow> take (length prefix) (shm_file_key f) = prefix"
proof -
  let ?k = "shm_file_key f" and ?buf = "drop (f_path_len f + 1) (f_data f)"
  have k: "?k = take (f_key_len f) ?buf" by (simp add: shm_file_key_def)
  have pre: "c_strncmp_eq ?buf prefix (length prefix) \<longleftrightarrow> take (length prefix) ?buf = prefix"
  proof -
    have "c_prefix (length prefix) prefix = prefix" using assms(1) by (simp add: c_prefix_no_nul)
    moreover have "c_prefix (length prefix) ?buf = prefix \<longleftrightarrow> take (length prefix) ?buf = prefix"
    proof
      assume *: "c_prefix (length prefix) ?buf = prefix"
      then have "length (takeWhile (\<lambda>c. c \<noteq> c_nul) (take (length prefix) ?buf)) = length prefix"
        by (simp add: c_prefix_def)
      moreover have "length (take (length prefix) ?buf) \<le> length prefix" by simp
      ultimately have "takeWhile (\<lambda>c. c \<noteq> c_nul) (take (length prefix) ?buf) = take (length prefix) ?buf"
        by (metis le_antisym length_takeWhile_le takeWhile_eq_take take_all_iff)
      with * show "take (length prefix) ?buf = prefix" by (simp add: c_prefix_def)
    next
      assume "take (length prefix) ?buf = prefix"
      with assms(1) show "c_prefix (length prefix) ?buf = prefix"
        by (simp add: c_prefix_def) (metis takeWhile_eq_all_conv)
    qed
    ultimately show ?thesis by (simp add: c_strncmp_eq_def)
  qed
  show ?thesis
  proof (cases "f_key_len f < length prefix")
    case True
    then have "length (take (length prefix) ?k) < length prefix" using assms(2) by simp
    then have "take (length prefix) ?k \<noteq> prefix" by (metis less_irrefl)
    with True show ?thesis by (simp add: key_has_prefix_def)
  next
    case False
    then have "take (length prefix) ?k = take (length prefix) ?buf" by (simp add: k min_def)
    with False pre show ?thesis by (simp add: key_has_prefix_def)
  qed
qed

lemma key_prefix_paths:
  assumes wf: "zone_wf N z" and nul: "c_nul \<notin> set prefix"
  shows "(\<lambda>f. shm_file_path (the (fheap z f))) ` set (filter (\<lambda>f. key_has_prefix (the (fheap z f)) prefix) (z_files z)) =
    {p. \<exists>k mt sz ts. abs_zone z p = Some (k, mt, sz, ts) \<and> take (length prefix) k = prefix}"
proof -
  have files: "set (z_files z) = dom (fheap z)"
    and len: "\<And>a f. fheap z a = Some f \<Longrightarrow> length (shm_file_key f) = f_key_len f"
    using wf by (simp_all add: zone_wf_def files_wf_def path_wf_def)
  show ?thesis
    unfolding abs_zone_file [OF wf]
    by (intro set_eqI iffI) (force simp: files key_has_prefix_iff [OF nul len])+
qed

section \<open>The three collections\<close>

lemma collect_tags_loop_spec:
  assumes ok: "ngx_core_ok N" and wf: "zone_wf N z" and "\<forall>p \<in> set paths. c_nul \<notin> set p"
    and "distinct paths" and "collect_tags_loop N z pl paths tags = (rc, pl', paths')"
  shows "(rc = NGX_OK \<or> rc = NGX_ERROR) \<and> distinct paths' \<and>
    set paths' \<subseteq> set paths \<union> (\<Union>t \<in> set tags. zone_paths_by_tag z t) \<and>
    (rc = NGX_OK \<longrightarrow> set paths' = set paths \<union> (\<Union>t \<in> set tags. zone_paths_by_tag z t)) \<and>
    (pl = [] \<longrightarrow> rc = NGX_OK \<and> pl' = [])"
  using assms(3-)
proof (induction tags arbitrary: pl paths)
  case (Cons tag tags)
  show ?case
  proof (cases "lookup_tag_entry N z tag")
    case None
    with Cons.IH [OF Cons.prems(1,2)] Cons.prems(3) tag_entry_paths(1) [OF ok wf None] show ?thesis by auto
  next
    case (Some e)
    let ?ds = "map (member_path z) (te_files (the (theap z e)))"
    obtain rc1 pl1 paths1 where p: "push_paths pl paths ?ds = (rc1, pl1, paths1)" by (metis prod_cases3)
    note ds = tag_entry_paths(2) [OF ok wf Some]
    have nulz: "\<And>a f. fheap z a = Some f \<Longrightarrow> c_nul \<notin> set (shm_file_path f)"
      using wf by (simp add: zone_wf_def path_wf_def)
    have nul: "\<forall>p \<in> set paths \<union> set ?ds. c_nul \<notin> set p"
      using Cons.prems(1) ds nulz by (auto simp: zone_paths_by_tag_def abs_zone_file [OF wf])
    note s = push_paths_spec [OF nul Cons.prems(2) p]
    show ?thesis
    proof (cases "rc1 = NGX_OK")
      case True
      have "\<forall>p \<in> set paths1. c_nul \<notin> set p" using s nul by blast
      moreover have "collect_tags_loop N z pl1 paths1 tags = (rc, pl', paths')"
        using Cons.prems(3) Some p True by simp
      ultimately show ?thesis using Cons.IH [of paths1 pl1] s True ds by auto
    next
      case False
      with Cons.prems(3) Some p s ds show ?thesis by auto
    qed
  qed
qed auto

definition paths_by_tags :: "(ngx_str \<rightharpoonup> file_meta) \<Rightarrow> ngx_str list \<Rightarrow> ngx_str set" where
  "paths_by_tags m tags = {p. \<exists>k mt sz ts. m p = Some (k, mt, sz, ts) \<and> set ts \<inter> set tags \<noteq> {}}"

definition paths_by_key :: "(ngx_str \<rightharpoonup> file_meta) \<Rightarrow> ngx_str \<Rightarrow> ngx_str set" where
  "paths_by_key m key = {p. \<exists>mt sz ts. m p = Some (key, mt, sz, ts)}"

definition paths_by_prefix :: "(ngx_str \<rightharpoonup> file_meta) \<Rightarrow> ngx_str \<Rightarrow> ngx_str set" where
  "paths_by_prefix m prefix =
     {p. \<exists>k mt sz ts. m p = Some (k, mt, sz, ts) \<and> take (length prefix) k = prefix}"

text \<open>A zone found by name is the zone of the abstract index.\<close>

lemma named_zone_ok:
  assumes s: "store_ok N s" and nul: "c_nul \<notin> set zone_name" and look: "lookup_zone s zone_name = Some a"
  shows "zone_ok N (sh_pool s) (zone_at s a)" and "zone_wf N (zone_at s a)"
    and "view s zone_name = abs_zone (zone_at s a)"
proof -
  obtain xs ys z where z: "sh_zones s = xs @ (a, z) # ys" "zone_at s a = z" "zone_named s zone_name = Some z"
    using zone_named_split(2) [OF s nul look] by blast
  show zok: "zone_ok N (sh_pool s) (zone_at s a)" using s by (simp add: store_ok_def z(1,2))
  then show "zone_wf N (zone_at s a)" by (rule zone_okD(2))
  show "view s zone_name = abs_zone (zone_at s a)" using z(2,3) by (simp add: view_def)
qed

lemma view_no_zone:
  "store_ok N s \<Longrightarrow> c_nul \<notin> set zone_name \<Longrightarrow> lookup_zone s zone_name = None \<Longrightarrow> view s zone_name = Map.empty"
  by (simp add: view_def zone_named_split(1))

lemma collect_paths_by_tags_spec:
  assumes ok: "ngx_core_ok N" and s: "store_ok N s" and nul: "c_nul \<notin> set zone_name"
    and col: "collect_paths_by_tags N s pl zone_name tags = (rc, pl', paths)"
  shows "(rc = NGX_OK \<or> rc = NGX_ERROR) \<and> distinct paths \<and>
    set paths \<subseteq> paths_by_tags (view s zone_name) (tags_elts tags) \<and>
    (rc = NGX_OK \<longrightarrow> set paths = paths_by_tags (view s zone_name) (tags_elts tags)) \<and>
    (pl = [] \<longrightarrow> rc = NGX_OK \<and> pl' = [])"
proof (cases "lookup_zone s zone_name")
  case None
  with col view_no_zone [OF s nul None] show ?thesis
    by (auto simp: collect_paths_by_tags_def paths_by_tags_def split: prod.splits bool.splits)
next
  case (Some a)
  note z = named_zone_ok [OF s nul Some]
  obtain b pl1 where b: "pool_alloc pl = (b, pl1)" by fastforce
  have eq: "(\<Union>t \<in> set (tags_elts tags). zone_paths_by_tag (zone_at s a) t) =
      paths_by_tags (view s zone_name) (tags_elts tags)"
    by (auto simp: zone_paths_by_tag_def paths_by_tags_def z(3))
  show ?thesis
  proof (cases b)
    case False
    with col b show ?thesis by (auto simp: collect_paths_by_tags_def)
  next
    case True
    with col b Some have "collect_tags_loop N (zone_at s a) pl1 [] (tags_elts tags) = (rc, pl', paths)"
      by (simp add: collect_paths_by_tags_def)
    from collect_tags_loop_spec [OF ok z(2) _ _ this] show ?thesis using b by (auto simp: eq)
  qed
qed

lemma zone_paths_no_nul:
  assumes "zone_wf N z" and "a \<in> set (z_files z)"
  shows "c_nul \<notin> set (shm_file_path (the (fheap z a)))"
  using assms by (auto simp: zone_wf_def files_wf_def path_wf_def)

lemma push_named:
  assumes "\<forall>d \<in> set ds. c_nul \<notin> set d" and "push_paths pl [] ds = (rc, pl', paths)"
  shows "(rc = NGX_OK \<or> rc = NGX_ERROR) \<and> distinct paths \<and> set paths \<subseteq> set ds \<and>
    (rc = NGX_OK \<longrightarrow> set paths = set ds) \<and> (pl = [] \<longrightarrow> rc = NGX_OK \<and> pl' = [])"
  using push_paths_spec [of "[]" ds pl rc pl' paths] assms by simp

lemma collect_paths_by_exact_key_spec:
  assumes ok: "ngx_core_ok N" and s: "store_ok N s" and nul: "c_nul \<notin> set zone_name" and key: "key \<noteq> []"
    and col: "collect_paths_by_exact_key N s pl zone_name key = (rc, pl', paths)"
  shows "(rc = NGX_OK \<or> rc = NGX_ERROR) \<and> distinct paths \<and>
    set paths \<subseteq> paths_by_key (view s zone_name) key \<and>
    (rc = NGX_OK \<longrightarrow> set paths = paths_by_key (view s zone_name) key) \<and>
    (pl = [] \<longrightarrow> rc = NGX_OK \<and> pl' = [])"
proof (cases "lookup_zone s zone_name")
  case None
  with col view_no_zone [OF s nul None] show ?thesis
    by (auto simp: collect_paths_by_exact_key_def paths_by_key_def split: prod.splits bool.splits)
next
  case (Some a)
  let ?z = "zone_at s a"
  note z = named_zone_ok [OF s nul Some]
  note paths = key_entry_paths [OF ok z(2) zone_okD(3) [OF z(1)] key, folded z(3) paths_by_key_def]
  obtain b pl1 where b: "pool_alloc pl = (b, pl1)" by fastforce
  show ?thesis
  proof (cases b)
    case False
    with col b show ?thesis by (auto simp: collect_paths_by_exact_key_def)
  next
    case True
    show ?thesis
    proof (cases "lookup_key_entry N ?z key")
      case None
      with col b True Some paths(1) show ?thesis
        by (auto simp: collect_paths_by_exact_key_def paths_by_key_def)
    next
      case e: (Some e)
      let ?ds = "map (\<lambda>f. shm_file_path (the (fheap ?z f))) (ke_files (the (kheap ?z e)))"
      have ds: "set ?ds = paths_by_key (view s zone_name) key" using paths(2) [OF e] by simp
      have "\<forall>d \<in> set ?ds. c_nul \<notin> set d"
        unfolding ds paths_by_key_def z(3) abs_zone_file [OF z(2)]
        using z(2) by (auto simp: zone_wf_def path_wf_def)
      moreover have "push_paths pl1 [] ?ds = (rc, pl', paths)"
        using col b True Some e by (simp add: collect_paths_by_exact_key_def Let_def)
      ultimately show ?thesis using push_named [of ?ds pl1 rc pl' paths] b ds by auto
    qed
  qed
qed

lemma collect_paths_by_key_prefix_spec:
  assumes s: "store_ok N s" and nul: "c_nul \<notin> set zone_name" "c_nul \<notin> set prefix"
    and col: "collect_paths_by_key_prefix N s pl zone_name prefix = (rc, pl', paths)"
  shows "(rc = NGX_OK \<or> rc = NGX_ERROR) \<and> distinct paths \<and>
    set paths \<subseteq> paths_by_prefix (view s zone_name) prefix \<and>
    (rc = NGX_OK \<longrightarrow> set paths = paths_by_prefix (view s zone_name) prefix) \<and>
    (pl = [] \<longrightarrow> rc = NGX_OK \<and> pl' = [])"
proof (cases "lookup_zone s zone_name")
  case None
  with col view_no_zone [OF s nul(1) None] show ?thesis
    by (auto simp: collect_paths_by_key_prefix_def paths_by_prefix_def split: prod.splits bool.splits)
next
  case (Some a)
  let ?z = "zone_at s a"
  note z = named_zone_ok [OF s nul(1) Some]
  let ?fs = "filter (\<lambda>f. key_has_prefix (the (fheap ?z f)) prefix) (z_files ?z)"
  let ?ds = "map (\<lambda>f. shm_file_path (the (fheap ?z f))) ?fs"
  have ds: "set ?ds = paths_by_prefix (view s zone_name) prefix"
    using key_prefix_paths [OF z(2) nul(2)] by (simp add: paths_by_prefix_def z(3))
  have nds: "\<forall>d \<in> set ?ds. c_nul \<notin> set d" using zone_paths_no_nul [OF z(2)] by auto
  obtain b pl1 where b: "pool_alloc pl = (b, pl1)" by fastforce
  show ?thesis
  proof (cases b)
    case False
    with col b show ?thesis by (auto simp: collect_paths_by_key_prefix_def)
  next
    case True
    with col b Some have "push_paths pl1 [] ?ds = (rc, pl', paths)"
      by (simp add: collect_paths_by_key_prefix_def Let_def)
    with push_named [OF nds] b ds show ?thesis by fastforce
  qed
qed

end
