(* ===== verification/Index_Contract.thy ===== *)
theory Index_Contract
  imports Store_Collect
begin

text \<open>
  The interface through which the purge handlers, the log handler and the cold-start scan use the
  index: put the meta data of a path into a zone, delete a path from a zone.  The locale
  \<open>path_index\<close> states what they rely on; what follows for whole histories of calls is proved once
  from it.  The interpretation \<open>ix\<close> discharges the laws for the shared-memory store.
\<close>

section \<open>Histories of calls\<close>

datatype ('z, 'p, 'm) index_op = Put (op_zone: 'z) (op_path: 'p) 'm | Del (op_zone: 'z) (op_path: 'p)

text \<open>What a call makes of the abstract content, given its return code: a \<open>Put\<close> that fails may
  have dropped the old entry of the path.\<close>

inductive op_spec ::
  "('z \<Rightarrow> 'p \<rightharpoonup> 'm) \<Rightarrow> ('z, 'p, 'm) index_op \<Rightarrow> ngx_rc \<Rightarrow> ('z \<Rightarrow> 'p \<rightharpoonup> 'm) \<Rightarrow> bool" where
  put_ok: "op_spec c (Put z p m) NGX_OK (c(z := (c z)(p \<mapsto> m)))"
| put_same: "op_spec c (Put z p m) NGX_ERROR c"
| put_drop: "op_spec c (Put z p m) NGX_ERROR (c(z := (c z)(p := None)))"
| del_ok: "op_spec c (Del z p) NGX_OK (c(z := (c z)(p := None)))"

inductive_cases op_spec_okE: "op_spec c x NGX_OK c'"
inductive_cases op_spec_putE: "op_spec c (Put z p m) rc c'"

inductive ops_spec ::
  "('z \<Rightarrow> 'p \<rightharpoonup> 'm) \<Rightarrow> ('z, 'p, 'm) index_op list \<Rightarrow> ngx_rc list \<Rightarrow> ('z \<Rightarrow> 'p \<rightharpoonup> 'm) \<Rightarrow> bool" where
  ops_nil: "ops_spec c [] [] c"
| ops_cons: "op_spec c x rc c1 \<Longrightarrow> ops_spec c1 xs rcs c' \<Longrightarrow> ops_spec c (x # xs) (rc # rcs) c'"

inductive_cases ops_spec_ConsE: "ops_spec c (x # xs) rcs c'"
inductive_cases ops_spec_NilE: "ops_spec c [] rcs c'"

fun run_op :: "('s \<Rightarrow> 'z \<Rightarrow> 'p \<Rightarrow> 'm \<Rightarrow> ngx_rc \<times> 's) \<Rightarrow> ('s \<Rightarrow> 'z \<Rightarrow> 'p \<Rightarrow> ngx_rc \<times> 's) \<Rightarrow>
    's \<Rightarrow> ('z, 'p, 'm) index_op \<Rightarrow> ngx_rc \<times> 's" where
  "run_op put del s (Put z p m) = put s z p m"
| "run_op put del s (Del z p) = del s z p"

fun run_ops :: "('s \<Rightarrow> 'z \<Rightarrow> 'p \<Rightarrow> 'm \<Rightarrow> ngx_rc \<times> 's) \<Rightarrow> ('s \<Rightarrow> 'z \<Rightarrow> 'p \<Rightarrow> ngx_rc \<times> 's) \<Rightarrow>
    's \<Rightarrow> ('z, 'p, 'm) index_op list \<Rightarrow> ngx_rc list \<times> 's" where
  "run_ops put del s [] = ([], s)"
| "run_ops put del s (x # xs) =
     (case run_op put del s x of
        (rc, s1) \<Rightarrow> (case run_ops put del s1 xs of (rcs, s2) \<Rightarrow> (rc # rcs, s2)))"

text \<open>When every call of a history succeeded, the content is the last word on each path.\<close>

fun last_word :: "('z, 'p, 'm) index_op list \<Rightarrow> ('z \<Rightarrow> 'p \<rightharpoonup> 'm) \<Rightarrow> ('z \<Rightarrow> 'p \<rightharpoonup> 'm)" where
  "last_word [] c = c"
| "last_word (Put z p m # xs) c = last_word xs (c(z := (c z)(p \<mapsto> m)))"
| "last_word (Del z p # xs) c = last_word xs (c(z := (c z)(p := None)))"

lemma ops_spec_all_ok:
  "ops_spec c xs rcs c' \<Longrightarrow> list_all (\<lambda>rc. rc = NGX_OK) rcs \<Longrightarrow> c' = last_word xs c"
proof (induction rule: ops_spec.induct)
  case (ops_cons c x rc c1 xs rcs c')
  then show ?case by (auto elim: op_spec_okE)
qed simp

text \<open>A path no call of a history names keeps its entry, whatever the return codes.\<close>

lemma ops_spec_frame:
  "ops_spec c xs rcs c' \<Longrightarrow> \<forall>x \<in> set xs. \<not> (op_zone x = z \<and> op_path x = p) \<Longrightarrow> c' z p = c z p"
proof (induction rule: ops_spec.induct)
  case (ops_cons c x rc c1 xs rcs c')
  from ops_cons.hyps(1) ops_cons.prems have "c1 z p = c z p" by cases auto
  with ops_cons.IH ops_cons.prems show ?case by simp
qed simp

section \<open>The interface\<close>

locale path_index =
  fixes ok :: "'s \<Rightarrow> bool"
    and content :: "'s \<Rightarrow> 'z \<Rightarrow> 'p \<rightharpoonup> 'm"
    and leaked :: "'s \<Rightarrow> 'a set"
    and good_zone :: "'z \<Rightarrow> bool"
    and good_path :: "'p \<Rightarrow> bool"
    and put :: "'s \<Rightarrow> 'z \<Rightarrow> 'p \<Rightarrow> 'm \<Rightarrow> ngx_rc \<times> 's"
    and del :: "'s \<Rightarrow> 'z \<Rightarrow> 'p \<Rightarrow> ngx_rc \<times> 's"
  assumes put_law: "ok s \<Longrightarrow> good_zone z \<Longrightarrow> good_path p \<Longrightarrow> put s z p m = (rc, s') \<Longrightarrow>
      ok s' \<and> leaked s' = leaked s \<and> op_spec (content s) (Put z p m) rc (content s')"
    and del_law: "ok s \<Longrightarrow> good_zone z \<Longrightarrow> del s z p = (rc, s') \<Longrightarrow>
      ok s' \<and> leaked s' = leaked s \<and> op_spec (content s) (Del z p) rc (content s')"
begin

lemma run_op_law:
  assumes "ok s" and "good_zone (op_zone x)" and "good_path (op_path x)" and "run_op put del s x = (rc, s')"
  shows "ok s' \<and> leaked s' = leaked s \<and> op_spec (content s) x rc (content s')"
proof (cases x)
  case (Put z p m)
  with assms put_law [of s z p m rc s'] show ?thesis by simp
next
  case (Del z p)
  with assms del_law [of s z p rc s'] show ?thesis by simp
qed

lemma run_ops_law:
  "ok s \<Longrightarrow> \<forall>x \<in> set xs. good_zone (op_zone x) \<and> good_path (op_path x) \<Longrightarrow>
     run_ops put del s xs = (rcs, s') \<Longrightarrow>
     ok s' \<and> leaked s' = leaked s \<and> ops_spec (content s) xs rcs (content s')"
proof (induction xs arbitrary: s rcs)
  case (Cons x xs)
  obtain rc s1 where x: "run_op put del s x = (rc, s1)" by fastforce
  obtain rcs1 where xs: "run_ops put del s1 xs = (rcs1, s')" "rcs = rc # rcs1"
    using Cons.prems(3) x by (auto split: prod.splits)
  have 1: "ok s1 \<and> leaked s1 = leaked s \<and> op_spec (content s) x rc (content s1)"
    by (rule run_op_law [OF Cons.prems(1) _ _ x]) (use Cons.prems(2) in auto)
  then show ?case using Cons.IH [OF _ _ xs(1)] Cons.prems(2) by (auto simp: xs(2) intro: ops_cons)
qed (auto intro: ops_nil)

lemma del_content: "ok s \<Longrightarrow> good_zone z \<Longrightarrow> del s z p = (rc, s') \<Longrightarrow>
    rc = NGX_OK \<and> ok s' \<and> leaked s' = leaked s \<and> content s' = (content s)(z := (content s z)(p := None))"
  using del_law [of s z p rc s'] by (auto elim: op_spec.cases)

end

section \<open>The store provides it\<close>

fun store_put :: "ngx_core \<Rightarrow> int \<Rightarrow> shm \<Rightarrow> ngx_str \<Rightarrow> ngx_str \<Rightarrow> file_meta \<Rightarrow> ngx_rc \<times> shm" where
  "store_put N now s zone_name path (key, mt, sz, tags) =
     upsert_file_meta N now s zone_name path key mt sz (Some tags)"

lemma upsert_op_spec:
  assumes "ngx_core_ok N" and "store_ok N s" and "c_nul \<notin> set zone_name" and "c_nul \<notin> set path"
    and "upsert_file_meta N now s zone_name path key mt sz tags = (rc, s')"
  shows "op_spec (view s) (Put zone_name path (key, mt, sz, tags_elts tags)) rc (view s')"
  using upsert_file_meta_cases(3-5) [OF assms] by (metis put_ok put_same put_drop)

interpretation ix: path_index "\<lambda>s. ngx_core_ok N \<and> store_ok N s" view stray
    "\<lambda>z. c_nul \<notin> set z" "\<lambda>p. c_nul \<notin> set p" "store_put N now" "delete_file N now" for N now
proof unfold_locales
  fix s z p m rc s'
  assume s: "ngx_core_ok N \<and> store_ok N s" "c_nul \<notin> set z" "c_nul \<notin> set p"
    and put: "store_put N now s z p m = (rc, s')"
  obtain key mt sz tags where m: "m = (key, mt, sz, tags)" by (metis prod_cases4)
  note up = put [unfolded m store_put.simps]
  show "(ngx_core_ok N \<and> store_ok N s') \<and> stray s' = stray s \<and> op_spec (view s) (Put z p m) rc (view s')"
    using upsert_file_meta_cases(1,2) [OF _ _ s(2,3) up] upsert_op_spec [OF _ _ s(2,3) up] s(1)
    by (simp add: m tags_elts_def)
next
  fix s z p rc s'
  assume "ngx_core_ok N \<and> store_ok N s" "c_nul \<notin> set z" "delete_file N now s z p = (rc, s')"
  then show "(ngx_core_ok N \<and> store_ok N s') \<and> stray s' = stray s \<and> op_spec (view s) (Del z p) rc (view s')"
    using delete_file_spec [of N s z now p rc s'] by (auto intro: del_ok)
qed

section \<open>The empty store\<close>

definition empty_shm :: shm where
  "empty_shm = \<lparr>sh_pool = \<lparr>slab = [], alloc_failures = 0\<rparr>, sh_zones = []\<rparr>"

lemma store_ok_empty [simp]: "store_ok N empty_shm" "view empty_shm z = Map.empty" "stray empty_shm = {}"
  by (simp_all add: empty_shm_def store_ok_def view_def zone_named_def stray_def)

section \<open>Updates succeed while there is memory\<close>

definition slab_total :: "ngx_core \<Rightarrow> bool" where
  "slab_total N \<longleftrightarrow> (\<forall>h n. slab_alloc N h n \<noteq> None)"

lemma alloc_total: "slab_total N \<Longrightarrow> \<exists>a q. alloc_locked N p n = (Some a, q)"
  by (auto simp: slab_total_def alloc_locked_def split: option.splits)

lemma get_key_total: "slab_total N \<Longrightarrow> \<exists>e q w. get_key_entry_locked N p z key True = (Some e, q, w)"
  using alloc_total [of N p "sizeof_shm_key_entry N + length key"]
  by (auto simp: get_key_entry_locked_def Let_def split: option.splits)

lemma get_tag_total: "slab_total N \<Longrightarrow> \<exists>e q w. get_tag_entry_locked N p z tag True = (Some e, q, w)"
  using alloc_total [of N p "sizeof_shm_tag_entry N + length tag"]
  by (auto simp: get_tag_entry_locked_def Let_def split: option.splits)

lemma link_key_total: "slab_total N \<Longrightarrow> fst (link_exact_key_locked N p z a) = NGX_OK"
  using get_key_total [of N p z "shm_file_key (the (fheap z a))"]
  by (auto simp: link_exact_key_locked_def Let_def)

lemma link_tags_loop_total: "slab_total N \<Longrightarrow> fst (link_tags_loop N p z a ts) = NGX_OK"
proof (induction N p z a ts rule: link_tags_loop.induct)
  case (2 N p z a tag tags)
  obtain e q w where g: "get_tag_entry_locked N p z tag True = (Some e, q, w)"
    using get_tag_total [OF "2.prems"] by blast
  obtain m q2 where m: "alloc_locked N q (sizeof_shm_tag_member N) = (Some m, q2)"
    using alloc_total [OF "2.prems"] by blast
  from "2.IH" [OF g [symmetric] refl _ m [symmetric] refl] "2.prems" g m show ?case by simp
qed simp

lemma link_tags_total: "slab_total N \<Longrightarrow> fst (link_tags_locked N p z a tags) = NGX_OK"
  by (simp add: link_tags_locked_def link_tags_loop_total split: option.splits)

lemma upsert_in_zone_total:
  assumes "slab_total N"
  shows "fst (upsert_in_zone N now p z path key mt sz tags) = NGX_OK"
proof -
  obtain p1 z1 where 1: "(case lookup_file N z path of
      Some old \<Rightarrow> remove_file_locked N p z old | None \<Rightarrow> (p, z)) = (p1, z1)" by (metis surj_pair)
  obtain a p2 where 2: "alloc_locked N p1 (file_alloc_size N path key (tags_elts tags)) = (Some a, p2)"
    using alloc_total [OF assms] by blast
  obtain p3 z3 where 3: "link_exact_key_locked N p2 (insert_file N z1 a (new_file N path key mt sz tags)) a =
      (NGX_OK, p3, z3)" using link_key_total [OF assms] by (metis prod.collapse)
  obtain p4 z4 where 4: "link_tags_locked N p3 z3 a tags = (NGX_OK, p4, z4)"
    using link_tags_total [OF assms] by (metis prod.collapse)
  show ?thesis unfolding upsert_in_zone_def 1 by (simp add: 2 3 4 Let_def)
qed

lemma upsert_total:
  assumes "slab_total N"
  shows "fst (upsert_file_meta N now s zone_name path key mt sz tags) = NGX_OK"
proof -
  obtain a s1 where z: "get_zone_locked N s zone_name True = (Some a, s1)"
  proof -
    obtain b q where "alloc_locked N (sh_pool s) (sizeof_shm_zone N + length zone_name) = (Some b, q)"
      using alloc_total [OF assms] by blast
    then show ?thesis using that by (cases "lookup_zone s zone_name") (auto simp: get_zone_locked_def)
  qed
  obtain pz where "upsert_in_zone N now (sh_pool s1) (zone_at s1 a) path key mt sz tags = (NGX_OK, pz)"
    using upsert_in_zone_total [OF assms] by (metis prod.collapse)
  with z show ?thesis by (simp add: upsert_file_meta_def)
qed

section \<open>Every failed update is counted once\<close>

named_theorems fails \<open>what an operation adds to the counter of failed allocations\<close>

lemma remove_member_fails [fails]: "remove_member N p z a m = (q, w) \<Longrightarrow> alloc_failures q = alloc_failures p"
  by (auto simp: remove_member_def free_empty_tag_entry_locked_def slab_free_locked_def Let_def split: if_splits)

lemma remove_members_fails [fails]: "remove_members N p z a ms = (q, w) \<Longrightarrow> alloc_failures q = alloc_failures p"
  by (induction N p z a ms rule: remove_members.induct) (auto dest: fails split: prod.splits)

lemma unlink_key_fails [fails]: "unlink_key N p z a = (q, w) \<Longrightarrow> alloc_failures q = alloc_failures p"
  by (auto simp: unlink_key_def free_empty_key_entry_locked_def slab_free_locked_def Let_def split: option.splits if_splits)

lemma remove_file_fails [fails]: "remove_file_locked N p z a = (q, w) \<Longrightarrow> alloc_failures q = alloc_failures p"
  by (auto simp: remove_file_locked_def slab_free_locked_def Let_def dest!: fails split: prod.splits)

lemma alloc_fails [fails]: "alloc_locked N p n = (r, q) \<Longrightarrow>
    alloc_failures q = alloc_failures p + (if r = None then 1 else 0)"
  by (auto simp: alloc_locked_def split: option.splits)

lemma get_key_fails [fails]: "get_key_entry_locked N p z key True = (r, q, w) \<Longrightarrow>
    alloc_failures q = alloc_failures p + (if r = None then 1 else 0)"
  by (cases "lookup_key_entry N z key")
    (auto simp: get_key_entry_locked_def Let_def dest!: alloc_fails split: option.splits prod.splits, metis option.distinct(1))

lemma get_tag_fails [fails]: "get_tag_entry_locked N p z tag True = (r, q, w) \<Longrightarrow>
    alloc_failures q = alloc_failures p + (if r = None then 1 else 0)"
  by (cases "lookup_tag_entry N z tag")
    (auto simp: get_tag_entry_locked_def Let_def dest!: alloc_fails split: option.splits prod.splits, metis option.distinct(1))

lemma link_key_fails [fails]: "link_exact_key_locked N p z a = (rc, q, w) \<Longrightarrow>
    alloc_failures q = alloc_failures p + (if rc = NGX_OK then 0 else 1)"
  by (auto simp: link_exact_key_locked_def Let_def dest!: get_key_fails split: option.splits prod.splits if_splits)

lemma link_tags_loop_fails: "link_tags_loop N p z a ts = (rc, q, w) \<Longrightarrow>
    alloc_failures q = alloc_failures p + (if rc = NGX_OK then 0 else 1)"
proof (induction N p z a ts rule: link_tags_loop.induct)
  case (2 N p z a tag tags)
  obtain e p1 z1 where g: "get_tag_entry_locked N p z tag True = (e, p1, z1)" by (metis prod_cases3)
  note g' = get_tag_fails [OF g]
  show ?case
  proof (cases e)
    case None
    with "2.prems" g g' show ?thesis by auto
  next
    case (Some en)
    obtain m p2 where m: "alloc_locked N p1 (sizeof_shm_tag_member N) = (m, p2)" by fastforce
    note m' = alloc_fails [OF m]
    show ?thesis
    proof (cases m)
      case None
      with "2.prems" g g' m m' Some show ?thesis by auto
    next
      case (Some mm)
      with "2.IH" [OF g [unfolded \<open>e = Some en\<close>, symmetric] refl _ m [unfolded Some, symmetric] refl]
        "2.prems" g g' m m' \<open>e = Some en\<close> show ?thesis by simp
    qed
  qed
qed simp

lemma link_tags_fails [fails]: "link_tags_locked N p z a tags = (rc, q, w) \<Longrightarrow>
    alloc_failures q = alloc_failures p + (if rc = NGX_OK then 0 else 1)"
  by (auto simp: link_tags_locked_def dest!: link_tags_loop_fails split: option.splits if_splits)

lemma upsert_in_zone_fails:
  assumes "upsert_in_zone N now p z path key mt sz tags = (rc, p', z')"
  shows "alloc_failures p' = alloc_failures p + (if rc = NGX_OK then 0 else 1)"
proof -
  obtain p1 z1 where 1: "(case lookup_file N z path of
      Some old \<Rightarrow> remove_file_locked N p z old | None \<Rightarrow> (p, z)) = (p1, z1)" by (metis surj_pair)
  then have f1: "alloc_failures p1 = alloc_failures p" by (auto dest: fails split: option.splits)
  obtain r p2 where 2: "alloc_locked N p1 (file_alloc_size N path key (tags_elts tags)) = (r, p2)" by fastforce
  note f2 = alloc_fails [OF 2]
  show ?thesis
  proof (cases r)
    case None
    with assms f1 f2 2 show ?thesis unfolding upsert_in_zone_def 1 by (auto simp: 2)
  next
    case (Some a)
    let ?z2 = "insert_file N z1 a (new_file N path key mt sz tags)"
    obtain rc3 p3 z3 where 3: "link_exact_key_locked N p2 ?z2 a = (rc3, p3, z3)" by (metis prod_cases3)
    obtain rc4 p4 z4 where 4: "link_tags_locked N p3 z3 a tags = (rc4, p4, z4)" by (metis prod_cases3)
    obtain p5 z5 where 5: "remove_file_locked N p3 z3 a = (p5, z5)" by fastforce
    obtain p6 z6 where 6: "remove_file_locked N p4 z4 a = (p6, z6)" by fastforce
    have "(rc, p', z') = (if rc3 \<noteq> NGX_OK then (NGX_ERROR, p5, z5)
        else if rc4 \<noteq> NGX_OK then (NGX_ERROR, p6, z6) else (NGX_OK, p4, touch_zone_locked now z4))"
      using assms unfolding upsert_in_zone_def 1
      by (cases "rc3 = NGX_OK"; cases "rc4 = NGX_OK") (simp_all add: 2 3 4 5 6 Some Let_def)
    then show ?thesis
      using f1 f2 link_key_fails [OF 3] link_tags_fails [OF 4] remove_file_fails [OF 5] remove_file_fails [OF 6] Some
      by (auto split: if_splits)
  qed
qed

lemma get_zone_fails: "get_zone_locked N s name True = (r, s') \<Longrightarrow>
    alloc_failures (sh_pool s') = alloc_failures (sh_pool s) + (if r = None then 1 else 0)"
  by (cases "lookup_zone s name") (auto simp: get_zone_locked_def dest!: alloc_fails split: option.splits prod.splits, metis option.distinct(1))

lemma upsert_fails:
  assumes "upsert_file_meta N now s zone_name path key mt sz tags = (rc, s')"
  shows "alloc_failures (sh_pool s') = alloc_failures (sh_pool s) + (if rc = NGX_OK then 0 else 1)"
proof -
  obtain r s1 where z: "get_zone_locked N s zone_name True = (r, s1)" by fastforce
  note f = get_zone_fails [OF z]
  show ?thesis
  proof (cases r)
    case None
    with assms z f show ?thesis by (auto simp: upsert_file_meta_def)
  next
    case (Some a)
    obtain rc1 p1 z1 where u: "upsert_in_zone N now (sh_pool s1) (zone_at s1 a) path key mt sz tags = (rc1, p1, z1)"
      by (metis prod_cases3)
    with assms z Some f upsert_in_zone_fails [OF u] show ?thesis by (auto simp: upsert_file_meta_def set_zone_def)
  qed
qed

section \<open>A core whose allocator never fails\<close>

definition core_total :: ngx_core where
  "core_total = core_ref 0\<lparr>slab_alloc := \<lambda>h n. Some (slab_top h)\<rparr>"

lemma core_total_ok [simp]: "ngx_core_ok core_total" "slab_total core_total"
  using core_ref_ok [of 0] slab_live_below_top
  by (fastforce simp: core_total_def ngx_core_ok_def slab_ok_def slab_total_def)+

end
