(* ===== verification/Store_Free.thy ===== *)
theory Store_Free
  imports Zone_Free Index_Contract
begin

text \<open>
  How the operations of the index use the slab pool: over any history of calls the pool stays
  disciplined, every pointer of the shared memory names a live block, and the emptied key and tag
  entries are known.
\<close>

section \<open>Pointers and emptied entries of the store\<close>

text \<open>Everything the structures of a zone point at: the file queue, the nodes of the three trees, the
  key entry and the members of a file, the queues of key and tag entries, both ends of a member.\<close>

definition zone_pointers :: "shm_zone \<Rightarrow> addr set" where
  "zone_pointers z =
     set (z_files z) \<union> snd ` set (inorder (z_path_index z)) \<union> snd ` set (inorder (z_key_index z)) \<union>
     snd ` set (inorder (z_tag_index z)) \<union>
     {e. \<exists>f. f \<in> ran (fheap z) \<and> (f_key_entry f = Some e \<or> e \<in> set (f_tag_members f))} \<union>
     {b. \<exists>k. k \<in> ran (kheap z) \<and> b \<in> set (ke_files k)} \<union>
     {m. \<exists>t. t \<in> ran (theap z) \<and> m \<in> set (te_files t)} \<union>
     {b. \<exists>m. m \<in> ran (mheap z) \<and> (b = tm_entry m \<or> b = tm_file m)}"

definition idle_key_entries :: "shm \<Rightarrow> addr set" where
  "idle_key_entries s = (\<Union>x \<in> set (sh_zones s). idle_keys (snd x))"

definition idle_tag_entries :: "shm \<Rightarrow> addr set" where
  "idle_tag_entries s = (\<Union>x \<in> set (sh_zones s). idle_tags (snd x))"

lemmas idle_entries_defs = idle_key_entries_def idle_tag_entries_def

lemma idle_new_zone [simp]: "idle_keys (new_zone name) = {}" "idle_tags (new_zone name) = {}"
  by (simp_all add: idle_keys_def idle_tags_def new_zone_def)

lemma idle_touch [simp]: "idle_keys (touch_zone_locked now z) = idle_keys z" "idle_tags (touch_zone_locked now z) = idle_tags z"
  by (simp_all add: idle_keys_def idle_tags_def touch_zone_locked_def)

lemma idle_empty_shm [simp]: "idle_key_entries empty_shm = {}" "idle_tag_entries empty_shm = {}"
  "disciplined (slab (sh_pool empty_shm))"
  by (simp_all add: idle_entries_defs empty_shm_def)

lemma zone_pointers_live:
  assumes "zone_wf N z" and "zone_addrs z \<subseteq> slab_live (slab p)"
  shows "zone_pointers z \<subseteq> slab_live (slab p)"
proof -
  have heaps: "dom (fheap z) \<subseteq> slab_live (slab p)" "dom (kheap z) \<subseteq> slab_live (slab p)"
    "dom (theap z) \<subseteq> slab_live (slab p)" "dom (mheap z) \<subseteq> slab_live (slab p)"
    using assms(2) by (auto simp: zone_addrs_def)
  note n = zone_wf_no_dangling [OF assms(1)]
  show ?thesis
    unfolding zone_pointers_def
  proof (intro Un_least)
    show "{e. \<exists>f. f \<in> ran (fheap z) \<and> (f_key_entry f = Some e \<or> e \<in> set (f_tag_members f))} \<subseteq> slab_live (slab p)"
      using n(5,6) heaps unfolding ran_def by blast
    show "{b. \<exists>k. k \<in> ran (kheap z) \<and> b \<in> set (ke_files k)} \<subseteq> slab_live (slab p)"
      using n(7) heaps unfolding ran_def by blast
    show "{m. \<exists>t. t \<in> ran (theap z) \<and> m \<in> set (te_files t)} \<subseteq> slab_live (slab p)"
      using n(8) heaps unfolding ran_def by blast
    show "{b. \<exists>m. m \<in> ran (mheap z) \<and> (b = tm_entry m \<or> b = tm_file m)} \<subseteq> slab_live (slab p)"
      using n(9) heaps unfolding ran_def by blast
  qed (use order_trans [OF n(1) heaps(1)] order_trans [OF n(2) heaps(1)]
      order_trans [OF n(3) heaps(2)] order_trans [OF n(4) heaps(3)] in simp_all)
qed

lemma store_pointers_live:
  assumes "store_ok N s" and "(a, z) \<in> set (sh_zones s)"
  shows "zone_pointers z \<subseteq> slab_live (slab (sh_pool s))"
  using assms zone_pointers_live by (fastforce simp: store_ok_def zone_ok_def zone_inv_def)

lemma store_owned_live:
  assumes "store_ok N s" and "x \<in> set (sh_zones s)"
  shows "owned x \<subseteq> slab_live (slab (sh_pool s))"
  using assms by (cases x) (auto simp: store_ok_def zone_ok_def zone_inv_def)

section \<open>Deletions and upserts\<close>

lemma delete_file_absent:
  assumes ok: "ngx_core_ok N" and s: "store_ok N s" and nul: "c_nul \<notin> set zone_name"
    and del: "delete_file N now s zone_name path = (rc, s')" and none: "view s zone_name path = None"
  shows "s' = s"
proof (cases "lookup_zone s zone_name")
  case None
  with del show ?thesis by (simp add: delete_file_def)
next
  case (Some a)
  obtain xs ys z where z: "sh_zones s = xs @ (a, z) # ys" "zone_at s a = z" "zone_named s zone_name = Some z"
    using zone_named_split(2) [OF s nul Some] by blast
  have zok: "zone_ok N (sh_pool s) z" using s by (simp add: store_ok_def z(1))
  have pwf: "path_wf N z" using zone_okD(2) [OF zok] by (simp add: zone_wf_def)
  have "abs_zone z path = None" using none z(3) by (simp add: view_def)
  then have "lookup_file N z path = None"
    using lookup_file_wf [OF ok pwf, of path] abs_zone_None [OF zone_okD(2) [OF zok]] by (metis option.exhaust)
  with Some del z(2) show ?thesis by (simp add: delete_file_def)
qed

lemma delete_file_tidy:
  assumes ok: "ngx_core_ok N" and s: "store_ok N s" and nul: "c_nul \<notin> set zone_name"
    and del: "delete_file N now s zone_name path = (rc, s')"
  shows "disciplined (slab (sh_pool s)) \<Longrightarrow> disciplined (slab (sh_pool s'))"
    and "idle_key_entries s' = idle_key_entries s" and "idle_tag_entries s' = idle_tag_entries s"
proof -
  have "(disciplined (slab (sh_pool s)) \<longrightarrow> disciplined (slab (sh_pool s'))) \<and>
      idle_key_entries s' = idle_key_entries s \<and> idle_tag_entries s' = idle_tag_entries s"
  proof (cases "lookup_zone s zone_name")
    case None
    with del show ?thesis by (simp add: delete_file_def)
  next
    case (Some a)
    obtain xs ys z where z: "sh_zones s = xs @ (a, z) # ys" "zone_at s a = z"
      using zone_named_split(2) [OF s nul Some] by blast
    have zok: "zone_ok N (sh_pool s) z" using s by (simp add: store_ok_def z(1))
    have pwf: "path_wf N z" using zone_okD(2) [OF zok] by (simp add: zone_wf_def)
    show ?thesis
    proof (cases "lookup_file N z path")
      case None
      with Some del z(2) show ?thesis by (simp add: delete_file_def)
    next
      case f: (Some fa)
      then obtain ff where ff: "fheap z fa = Some ff" using lookup_file_wf [OF ok pwf] by blast
      obtain p1 z1 where rm: "remove_file_locked N (sh_pool s) z fa = (p1, z1)" by fastforce
      have s': "s' = set_zone a (p1, touch_zone_locked now z1) s"
        using del Some f rm z(2) by (auto simp: delete_file_def)
      have "sh_pool s' = p1" by (simp add: s' set_zone_def)
      then show ?thesis
        using remove_file_tidy [OF ok zone_okD(1) [OF zok] ff rm]
        by (simp add: idle_entries_defs s' set_zone_split [OF s z(1)] z(1) tidy_def)
    qed
  qed
  then show "disciplined (slab (sh_pool s)) \<Longrightarrow> disciplined (slab (sh_pool s'))"
    "idle_key_entries s' = idle_key_entries s" "idle_tag_entries s' = idle_tag_entries s" by blast+
qed

lemma get_zone_grows:
  assumes ok: "ngx_core_ok N" and get: "get_zone_locked N s name True = (r, s')"
  shows "disciplined (slab (sh_pool s)) \<Longrightarrow> disciplined (slab (sh_pool s'))"
    and "idle_key_entries s' = idle_key_entries s" and "idle_tag_entries s' = idle_tag_entries s"
  using get disciplined_alloc [OF ok]
  by (auto simp: get_zone_locked_def idle_entries_defs split: option.splits prod.splits) force+

lemma upsert_file_meta_grows:
  assumes ok: "ngx_core_ok N" and s: "store_ok N s" and nul: "c_nul \<notin> set zone_name" "c_nul \<notin> set path"
    and up: "upsert_file_meta N now s zone_name path key mt sz tags = (rc, s')"
  shows "disciplined (slab (sh_pool s)) \<Longrightarrow> disciplined (slab (sh_pool s'))"
    and "idle_key_entries s' \<subseteq> idle_key_entries s"
    and "rc = NGX_OK \<Longrightarrow> idle_tag_entries s' \<subseteq> idle_tag_entries s"
proof -
  obtain r s1 where get: "get_zone_locked N s zone_name True = (r, s1)" by fastforce
  note g = get_zone_locked_spec [OF ok s nul(1) get] and gg = get_zone_grows [OF ok get]
  have "(disciplined (slab (sh_pool s)) \<longrightarrow> disciplined (slab (sh_pool s'))) \<and>
      idle_key_entries s' \<subseteq> idle_key_entries s \<and> (rc = NGX_OK \<longrightarrow> idle_tag_entries s' \<subseteq> idle_tag_entries s)"
  proof (cases r)
    case None
    with up get gg show ?thesis by (simp add: upsert_file_meta_def)
  next
    case (Some a)
    obtain xs ys z where z: "sh_zones s1 = xs @ (a, z) # ys" "zone_at s1 a = z"
      using g(4) [OF Some] by blast
    obtain p' z' where uz: "upsert_in_zone N now (sh_pool s1) z path key mt sz tags = (rc, p', z')"
      and s': "s' = set_zone a (p', z') s1"
      using up get Some z(2) by (auto simp: upsert_file_meta_def split: prod.splits)
    have zok: "zone_ok N (sh_pool s1) z" using g(1) by (simp add: store_ok_def z(1))
    have p': "sh_pool s' = p'" by (simp add: s' set_zone_def)
    note u = upsert_in_zone_grows [OF ok zok nul(2) uz, unfolded grows_def]
    note zs = idle_entries_defs s' set_zone_split [OF g(1) z(1)] z(1)
    have "idle_key_entries s' \<subseteq> idle_key_entries s1" using u by (auto simp: zs)
    moreover have "idle_tag_entries s' \<subseteq> idle_tag_entries s1" if "rc = NGX_OK" using u that by (auto simp: zs)
    ultimately show ?thesis using gg u by (auto simp: p')
  qed
  then show "disciplined (slab (sh_pool s)) \<Longrightarrow> disciplined (slab (sh_pool s'))"
    "idle_key_entries s' \<subseteq> idle_key_entries s" "rc = NGX_OK \<Longrightarrow> idle_tag_entries s' \<subseteq> idle_tag_entries s" by blast+
qed

section \<open>Histories\<close>

lemma run_op_grows:
  assumes ok: "ngx_core_ok N" and s: "store_ok N s"
    and nul: "c_nul \<notin> set (op_zone x)" "c_nul \<notin> set (op_path x)"
    and run: "run_op (store_put N now) (delete_file N now) s x = (rc, s')"
  shows "disciplined (slab (sh_pool s)) \<Longrightarrow> disciplined (slab (sh_pool s'))"
    and "idle_key_entries s' \<subseteq> idle_key_entries s"
    and "rc = NGX_OK \<Longrightarrow> idle_tag_entries s' \<subseteq> idle_tag_entries s"
proof -
  have "(disciplined (slab (sh_pool s)) \<longrightarrow> disciplined (slab (sh_pool s'))) \<and>
      idle_key_entries s' \<subseteq> idle_key_entries s \<and> (rc = NGX_OK \<longrightarrow> idle_tag_entries s' \<subseteq> idle_tag_entries s)"
  proof (cases x)
    case (Put z p m)
    obtain key mt sz tags where m: "m = (key, mt, sz, tags)" by (metis prod_cases4)
    have "upsert_file_meta N now s z p key mt sz (Some tags) = (rc, s')" using run by (simp add: Put m)
    from upsert_file_meta_grows [OF ok s _ _ this] nul show ?thesis by (simp add: Put)
  next
    case (Del z p)
    with run have "delete_file N now s z p = (rc, s')" by simp
    from delete_file_tidy [OF ok s _ this] nul show ?thesis by (simp add: Del)
  qed
  then show "disciplined (slab (sh_pool s)) \<Longrightarrow> disciplined (slab (sh_pool s'))"
    "idle_key_entries s' \<subseteq> idle_key_entries s" "rc = NGX_OK \<Longrightarrow> idle_tag_entries s' \<subseteq> idle_tag_entries s" by blast+
qed

lemma run_ops_grows:
  assumes ok: "ngx_core_ok N"
  shows "store_ok N s \<Longrightarrow> \<forall>x \<in> set xs. c_nul \<notin> set (op_zone x) \<and> c_nul \<notin> set (op_path x) \<Longrightarrow>
    disciplined (slab (sh_pool s)) \<Longrightarrow> run_ops (store_put N now) (delete_file N now) s xs = (rcs, s') \<Longrightarrow>
    disciplined (slab (sh_pool s')) \<and> idle_key_entries s' \<subseteq> idle_key_entries s \<and>
    (list_all (\<lambda>rc. rc = NGX_OK) rcs \<longrightarrow> idle_tag_entries s' \<subseteq> idle_tag_entries s)"
proof (induction xs arbitrary: s rcs)
  case (Cons x xs)
  obtain rc s1 where x: "run_op (store_put N now) (delete_file N now) s x = (rc, s1)" by fastforce
  obtain rcs1 where xs: "run_ops (store_put N now) (delete_file N now) s1 xs = (rcs1, s')" "rcs = rc # rcs1"
    using Cons.prems(4) x by (auto split: prod.splits)
  have nul: "c_nul \<notin> set (op_zone x)" "c_nul \<notin> set (op_path x)" using Cons.prems(2) by auto
  note g = run_op_grows [OF ok Cons.prems(1) nul x]
  have "store_ok N s1" using ix.run_op_law [OF _ nul x] ok Cons.prems(1) by simp
  then have "disciplined (slab (sh_pool s')) \<and> idle_key_entries s' \<subseteq> idle_key_entries s1 \<and>
      (list_all (\<lambda>rc. rc = NGX_OK) rcs1 \<longrightarrow> idle_tag_entries s' \<subseteq> idle_tag_entries s1)"
    using Cons.IH [OF _ _ g(1) [OF Cons.prems(3)] xs(1)] Cons.prems(2) by simp
  then show ?case using g(2,3) by (auto simp: xs(2))
qed simp

end
