(* ===== verification/Store_Theorems.thy ===== *)
theory Store_Theorems
  imports Store_Free
begin

text \<open>
  The correctness theorems of the shared-memory index, each with an instance on a concrete store.
\<close>

section \<open>Concrete stores\<close>

definition demo_ops :: "(ngx_str, ngx_str, file_meta) index_op list" where
  "demo_ops = [Put ''z'' ''/a'' (''k'', 1, 2, [''t'']), Put ''z'' ''/b'' (''kk'', 1, 2, [''t'', ''u'']),
     Del ''z'' ''/a'']"

definition demo_store :: shm where
  "demo_store = snd (store_put core_total 5 empty_shm ''z'' ''/a'' (''k'', 1, 2, [''t'']))"

definition full_core :: ngx_core where
  "full_core = core_ref 2"

lemma demo_store_eq:
  "upsert_file_meta core_total 5 empty_shm ''z'' ''/a'' ''k'' 1 2 (Some [''t'']) = (NGX_OK, demo_store)"
  using upsert_total [OF core_total_ok(2), of 5 empty_shm "''z''" "''/a''" "''k''" 1 2 "Some [''t'']"]
  by (simp add: demo_store_def prod_eq_iff)

lemma demo_store_ok [simp]: "store_ok core_total demo_store" "stray demo_store = {}"
  "view demo_store = (\<lambda>_. Map.empty)(''z'' := [''/a'' \<mapsto> (''k'', 1, 2, [''t''])])"
  using upsert_file_meta_cases(1,2,4) [OF core_total_ok(1) store_ok_empty(1) _ _ demo_store_eq]
  by (simp_all add: tags_elts_def fun_eq_iff)

lemma demo_store_tidy: "idle_key_entries demo_store = {}" "idle_tag_entries demo_store = {}"
  "disciplined (slab (sh_pool demo_store))"
  using upsert_file_meta_grows [OF core_total_ok(1) store_ok_empty(1) _ _ demo_store_eq] by simp_all

lemma delete_file_ok: "fst (delete_file N now s zone_name path) = NGX_OK"
  by (simp add: delete_file_def Let_def split: option.splits prod.splits)

lemma demo_ops_codes:
  assumes "run_ops (store_put core_total 5) (delete_file core_total 5) empty_shm demo_ops = (rcs, s')"
  shows "rcs = [NGX_OK, NGX_OK, NGX_OK]"
proof -
  have "fst (store_put core_total 5 s z p m) = NGX_OK" for s z p m
    using upsert_total [OF core_total_ok(2)] by (cases m) simp
  then show ?thesis
    using assms delete_file_ok by (auto simp: demo_ops_def split: prod.splits) (metis fst_conv)+
qed

section \<open>Updates and deletions\<close>

text \<open>C6: Over any history of upserts and deletions, on any zones and paths and whatever
  allocations fail on the way, the store keeps its invariant (every zone well-formed, no pointer
  dangling, no block shared), leaks no slab block, and its content changes step by step as the
  abstract index prescribes; when every call of the history succeeded the content is the last word
  on each path.\<close>

theorem store_history:
  assumes "ngx_core_ok N" and "store_ok N s"
    and "\<forall>x \<in> set xs. c_nul \<notin> set (op_zone x) \<and> c_nul \<notin> set (op_path x)"
    and "run_ops (store_put N now) (delete_file N now) s xs = (rcs, s')"
  shows "store_ok N s' \<and> stray s' = stray s \<and> ops_spec (view s) xs rcs (view s') \<and>
    (list_all (\<lambda>rc. rc = NGX_OK) rcs \<longrightarrow> view s' = last_word xs (view s))"
  using ix.run_ops_law [of N s xs now rcs s'] assms ops_spec_all_ok by auto

theorem store_history_witness:
  "let (rcs, s') = run_ops (store_put core_total 5) (delete_file core_total 5) empty_shm demo_ops
   in store_ok core_total s' \<and> stray s' = {} \<and> ops_spec (view empty_shm) demo_ops rcs (view s')"
proof -
  have "\<forall>x \<in> set demo_ops. c_nul \<notin> set (op_zone x) \<and> c_nul \<notin> set (op_path x)"
    by (simp add: demo_ops_def)
  from store_history [OF core_total_ok(1) store_ok_empty(1) this]
  show ?thesis by (fastforce simp: Let_def split: prod.splits)
qed

text \<open>C18: An upsert either succeeds, and then the path maps to exactly the given key, times and
  tags, or fails with \<open>NGX_ERROR\<close>, and then the store is unchanged or has lost the entry of that
  one path; in both cases the invariant holds, every other path of every zone keeps its entry, no
  slab block leaks, and the counter of failed allocations grows by exactly one per failure.\<close>

theorem upsert_refines:
  assumes "ngx_core_ok N" and "store_ok N s" and "c_nul \<notin> set zone_name" and "c_nul \<notin> set path"
    and "upsert_file_meta N now s zone_name path key mt sz tags = (rc, s')"
  shows "store_ok N s' \<and> stray s' = stray s \<and>
    (rc = NGX_OK \<and> view s' zone_name path = Some (key, mt, sz, tags_elts tags) \<or>
     rc = NGX_ERROR \<and> view s' zone_name path \<in> {view s zone_name path, None}) \<and>
    (\<forall>q. q \<noteq> path \<longrightarrow> view s' zone_name q = view s zone_name q) \<and>
    (\<forall>z. z \<noteq> zone_name \<longrightarrow> view s' z = view s z) \<and>
    alloc_failures (sh_pool s') = alloc_failures (sh_pool s) + (if rc = NGX_OK then 0 else 1)"
proof -
  note c = upsert_file_meta_cases [OF assms]
  have "(rc = NGX_OK \<and> view s' zone_name path = Some (key, mt, sz, tags_elts tags) \<or>
      rc = NGX_ERROR \<and> view s' zone_name path \<in> {view s zone_name path, None}) \<and>
    (\<forall>q. q \<noteq> path \<longrightarrow> view s' zone_name q = view s zone_name q) \<and>
    (\<forall>z. z \<noteq> zone_name \<longrightarrow> view s' z = view s z)"
  proof (cases "rc = NGX_OK")
    case True
    then show ?thesis using c(4) by simp
  next
    case False
    then have "rc = NGX_ERROR" using c(3) by simp
    then show ?thesis using c(5) by auto
  qed
  then show ?thesis using c(1,2) upsert_fails [OF assms(5)] by simp
qed

theorem upsert_refines_witness:
  "let (rc, s') = upsert_file_meta full_core 5 empty_shm ''z'' ''/a'' ''k'' 1 2 (Some [''t''])
   in store_ok full_core s' \<and> stray s' = {} \<and>
      alloc_failures (sh_pool s') = (if rc = NGX_OK then 0 else 1)"
proof -
  have ok: "ngx_core_ok full_core" by (simp add: full_core_def)
  obtain rc s' where u: "upsert_file_meta full_core 5 empty_shm ''z'' ''/a'' ''k'' 1 2 (Some [''t'']) = (rc, s')"
    by fastforce
  from upsert_refines [OF ok store_ok_empty(1) _ _ u] show ?thesis
    by (simp add: u) (simp add: empty_shm_def)
qed

text \<open>C19: Upserts succeed while the slab allocator has memory: with an allocator that never
  fails, an upsert returns \<open>NGX_OK\<close> on every input.\<close>

theorem upsert_succeeds:
  assumes "slab_total N"
  shows "fst (upsert_file_meta N now s zone_name path key mt sz tags) = NGX_OK"
  by (rule upsert_total [OF assms])

theorem upsert_succeeds_witness:
  "fst (upsert_file_meta core_total 5 demo_store ''z'' ''/b'' ''kk'' 1 2 None) = NGX_OK"
  by (rule upsert_succeeds [OF core_total_ok(2)])

text \<open>C20: Deleting a path always succeeds, removes exactly that path from exactly that zone and keeps
  the invariant.  It frees every block of the entry: no block of the slab pool is left that no zone
  owns, and every key or tag entry the deletion emptied is freed with it, so the entries that list
  nothing are the same before and after; nothing is freed that was not allocated.  Deleting a path
  that is not indexed changes nothing.\<close>

theorem delete_refines:
  assumes "ngx_core_ok N" and "store_ok N s" and "c_nul \<notin> set zone_name"
    and "delete_file N now s zone_name path = (rc, s')"
  shows "rc = NGX_OK \<and> store_ok N s' \<and> stray s' = stray s \<and>
    view s' = (view s)(zone_name := (view s zone_name)(path := None)) \<and>
    idle_key_entries s' = idle_key_entries s \<and> idle_tag_entries s' = idle_tag_entries s \<and>
    (disciplined (slab (sh_pool s)) \<longrightarrow> disciplined (slab (sh_pool s'))) \<and>
    (view s zone_name path = None \<longrightarrow> s' = s)"
  using ix.del_content [of N s zone_name now path rc s'] delete_file_tidy [OF assms]
    delete_file_absent [OF assms] assms by simp

theorem delete_refines_witness:
  "let (rc, s') = delete_file core_total 9 demo_store ''z'' ''/a''
   in rc = NGX_OK \<and> store_ok core_total s' \<and> stray s' = {} \<and> view s' ''z'' = Map.empty \<and>
      idle_key_entries s' = {} \<and> idle_tag_entries s' = {} \<and> disciplined (slab (sh_pool s'))"
proof -
  obtain rc s' where d: "delete_file core_total 9 demo_store ''z'' ''/a'' = (rc, s')" by fastforce
  from delete_refines [OF core_total_ok(1) demo_store_ok(1) _ d] demo_store_tidy show ?thesis by (simp add: d)
qed

section \<open>Collections\<close>

text \<open>C21: Collecting by tags returns, without duplicates, exactly the paths of the zone that
  carry one of the tags; when memory of the request pool runs out it returns \<open>NGX_ERROR\<close>; with
  memory it returns \<open>NGX_OK\<close>.\<close>

theorem collect_tags_exact:
  assumes "ngx_core_ok N" and "store_ok N s" and "c_nul \<notin> set zone_name"
    and "collect_paths_by_tags N s pl zone_name tags = (rc, pl', paths)"
  shows "distinct paths \<and> (rc = NGX_OK \<or> rc = NGX_ERROR) \<and> (pl = [] \<longrightarrow> rc = NGX_OK) \<and>
    (rc = NGX_OK \<longrightarrow> set paths = paths_by_tags (view s zone_name) (tags_elts tags))"
  using collect_paths_by_tags_spec [OF assms] by blast

theorem collect_tags_exact_witness:
  "let (rc, pl', paths) = collect_paths_by_tags core_total demo_store [] ''z'' (Some [''x'', ''t''])
   in rc = NGX_OK \<and> set paths = {''/a''}"
proof -
  obtain rc pl' paths where c: "collect_paths_by_tags core_total demo_store [] ''z'' (Some [''x'', ''t'']) = (rc, pl', paths)"
    by (metis prod_cases3)
  have "paths_by_tags (view demo_store ''z'') [''x'', ''t''] = {''/a''}"
    by (auto simp: paths_by_tags_def split: if_splits)
  with collect_tags_exact [OF core_total_ok(1) demo_store_ok(1) _ c] show ?thesis
    by (simp add: c tags_elts_def)
qed

text \<open>C22: Collecting by a non-empty exact key returns, without duplicates, exactly the paths of
  the zone whose cache key is that key.\<close>

theorem collect_key_exact:
  assumes "ngx_core_ok N" and "store_ok N s" and "c_nul \<notin> set zone_name" and "key \<noteq> []"
    and "collect_paths_by_exact_key N s pl zone_name key = (rc, pl', paths)"
  shows "distinct paths \<and> (rc = NGX_OK \<or> rc = NGX_ERROR) \<and> (pl = [] \<longrightarrow> rc = NGX_OK) \<and>
    (rc = NGX_OK \<longrightarrow> set paths = paths_by_key (view s zone_name) key)"
  using collect_paths_by_exact_key_spec [OF assms] by blast

theorem collect_key_exact_witness:
  "let (rc, pl', paths) = collect_paths_by_exact_key core_total demo_store [] ''z'' ''k''
   in rc = NGX_OK \<and> set paths = {''/a''}"
proof -
  obtain rc pl' paths where c: "collect_paths_by_exact_key core_total demo_store [] ''z'' ''k'' = (rc, pl', paths)"
    by (metis prod_cases3)
  have "paths_by_key (view demo_store ''z'') ''k'' = {''/a''}"
    by (auto simp: paths_by_key_def split: if_splits)
  with collect_key_exact [OF core_total_ok(1) demo_store_ok(1) _ _ c] show ?thesis by (simp add: c)
qed

text \<open>C23: Collecting by a key prefix returns, without duplicates, exactly the paths of the zone
  whose cache key starts with the prefix, byte for byte.\<close>

theorem collect_prefix_exact:
  assumes "store_ok N s" and "c_nul \<notin> set zone_name" and "c_nul \<notin> set prefix"
    and "collect_paths_by_key_prefix N s pl zone_name prefix = (rc, pl', paths)"
  shows "distinct paths \<and> (rc = NGX_OK \<or> rc = NGX_ERROR) \<and> (pl = [] \<longrightarrow> rc = NGX_OK) \<and>
    (rc = NGX_OK \<longrightarrow> set paths = paths_by_prefix (view s zone_name) prefix)"
  using collect_paths_by_key_prefix_spec [OF assms] by blast

theorem collect_prefix_exact_witness:
  "let (rc, pl', paths) = collect_paths_by_key_prefix core_total demo_store [] ''z'' ''k''
   in rc = NGX_OK \<and> set paths = {''/a''}"
proof -
  obtain rc pl' paths where c: "collect_paths_by_key_prefix core_total demo_store [] ''z'' ''k'' = (rc, pl', paths)"
    by (metis prod_cases3)
  have "paths_by_prefix (view demo_store ''z'') ''k'' = {''/a''}"
    by (auto simp: paths_by_prefix_def split: if_splits)
  with collect_prefix_exact [OF demo_store_ok(1) _ _ c] show ?thesis by (simp add: c)
qed

section \<open>Memory safety\<close>

text \<open>C24: The index uses its slab pool safely.  After any history of upserts and deletions on a
  fresh store, on any zones and paths and whatever allocations failed on the way: every free the
  operations made named a block that was allocated and not yet freed; every pointer of every zone
  (file queue, nodes of the three trees, key entry and tag members of a file, queues of key and tag
  entries, both ends of a member) names a block that is allocated; every allocated block is one of
  the zones' own; and no key entry is kept without a file, nor any tag entry without a member unless
  an allocation of the history failed.\<close>

theorem store_no_dangling:
  assumes "ngx_core_ok N" and "\<forall>x \<in> set xs. c_nul \<notin> set (op_zone x) \<and> c_nul \<notin> set (op_path x)"
    and "run_ops (store_put N now) (delete_file N now) empty_shm xs = (rcs, s')"
  shows "disciplined (slab (sh_pool s')) \<and>
    (\<forall>(a, z) \<in> set (sh_zones s'). zone_pointers z \<subseteq> slab_live (slab (sh_pool s'))) \<and>
    slab_live (slab (sh_pool s')) = \<Union> (owned ` set (sh_zones s')) \<and>
    idle_key_entries s' = {} \<and> (list_all (\<lambda>rc. rc = NGX_OK) rcs \<longrightarrow> idle_tag_entries s' = {})"
proof -
  have h: "store_ok N s'" "stray s' = {}"
    using ix.run_ops_law [OF _ assms(2,3)] assms(1) by simp_all
  have "\<forall>(a, z) \<in> set (sh_zones s'). zone_pointers z \<subseteq> slab_live (slab (sh_pool s'))"
    using store_pointers_live [OF h(1)] by blast
  moreover have "slab_live (slab (sh_pool s')) = \<Union> (owned ` set (sh_zones s'))"
    using h(2) store_owned_live [OF h(1)] by (auto simp: stray_def)
  ultimately show ?thesis using run_ops_grows [OF assms(1) store_ok_empty(1) assms(2) idle_empty_shm(3) assms(3)] by simp
qed

theorem store_no_dangling_witness:
  "let (rcs, s') = run_ops (store_put core_total 5) (delete_file core_total 5) empty_shm demo_ops
   in rcs = [NGX_OK, NGX_OK, NGX_OK] \<and> disciplined (slab (sh_pool s')) \<and> idle_tag_entries s' = {} \<and>
      slab_live (slab (sh_pool s')) = \<Union> (owned ` set (sh_zones s'))"
proof -
  obtain rcs s' where r: "run_ops (store_put core_total 5) (delete_file core_total 5) empty_shm demo_ops = (rcs, s')"
    by fastforce
  have n: "\<forall>x \<in> set demo_ops. c_nul \<notin> set (op_zone x) \<and> c_nul \<notin> set (op_path x)"
    by (simp add: demo_ops_def)
  from store_no_dangling [OF core_total_ok(1) n r] demo_ops_codes [OF r] show ?thesis by (simp add: r)
qed

section \<open>Blocks and state\<close>

text \<open>C25: The block of a file holds what was stored: path and key read back from the bytes of a
  new file are the given ones whatever the strings contain, and the bytes written fit exactly the
  size that was allocated.\<close>

theorem file_block_roundtrip:
  "shm_file_path (new_file N path key mt sz tags) = path \<and>
   shm_file_key (new_file N path key mt sz tags) = key \<and>
   sizeof_shm_file N + length (f_data (new_file N path key mt sz tags)) =
     file_alloc_size N path key (tags_elts tags)"
proof -
  have "length (concat (map (\<lambda>t. t @ [c_nul]) ts)) = sum_list (map (\<lambda>t. length t + 1) ts)" for ts
    by (induction ts) auto
  then show ?thesis
    by (simp add: shm_file_path_def shm_file_key_def new_file_def file_data_def file_alloc_size_def)
qed

text \<open>C26: Setting the state of a zone keeps the indexed files, and a later reading returns the
  state that was set, normalised; the state read is always consistent (a complete bootstrap has a
  time, and no update precedes it; an incomplete one has no times).\<close>

theorem zone_state_roundtrip:
  assumes "ngx_core_ok N" and "store_ok N s" and "c_nul \<notin> set zone_name" and "now \<noteq> 0" and "now2 \<noteq> 0"
    and "set_zone_state N now s zone_name st = (rc, s', st')"
  shows "store_ok N s' \<and> view s' = view s \<and> state_consistent st' \<and>
    state_consistent (snd (get_zone_state now2 s zone_name)) \<and>
    (rc = NGX_OK \<longrightarrow> get_zone_state now2 s' zone_name = (NGX_OK, st')) \<and>
    (state_consistent st \<longrightarrow> st' = st)"
proof -
  note s = set_zone_state_spec [OF assms(1-3,6)]
  have c: "state_consistent st'" using s(4) normalize_consistent [OF assms(4)] by simp
  have "get_zone_state now2 s' zone_name = (NGX_OK, st')" if "rc = NGX_OK"
    using get_zone_state_spec [OF s(1) assms(3), of now2] s(5) [OF that] normalize_id [OF c]
    by (cases st') (simp add: state_triple_def)
  then show ?thesis
    using s c normalize_id get_zone_state_spec [OF assms(2,3), of now2] normalize_consistent [OF assms(5)] by simp
qed

theorem zone_state_roundtrip_witness:
  "let st = \<lparr>st_bootstrap_complete = True, st_last_bootstrap_at = 0, st_last_updated_at = 0\<rparr>;
       (rc, s', st') = set_zone_state core_total 7 demo_store ''z'' st
   in view s' = view demo_store \<and> state_consistent st'"
proof -
  let ?st = "\<lparr>st_bootstrap_complete = True, st_last_bootstrap_at = 0, st_last_updated_at = 0\<rparr>"
  obtain rc s' st' where u: "set_zone_state core_total 7 demo_store ''z'' ?st = (rc, s', st')" by (metis prod_cases3)
  from zone_state_roundtrip [OF core_total_ok(1) demo_store_ok(1) _ _ _ u, of 8] show ?thesis by (simp add: u)
qed

end
