(* ===== verification/Os.thy ===== *)
theory Os
  imports Ngx
begin

text \<open>
  The file system as the module sees it through \<^verbatim>\<open>ngx_file_info\<close>, \<^verbatim>\<open>ngx_open_file\<close>,
  \<^verbatim>\<open>ngx_read_file\<close>, \<^verbatim>\<open>ngx_write_file\<close>, \<^verbatim>\<open>ngx_delete_file\<close>, \<^verbatim>\<open>opendir\<close> and \<^verbatim>\<open>readdir\<close>:
  regular files by path, the directory tree below a path, and, as parameters, which calls fail on
  which path for a reason other than a missing file, how many bytes of a write to a path get
  through, and the time.
\<close>

section \<open>State\<close>

record os_file =
  fl_bytes :: string
  fl_mtime :: int

datatype os_op = OpStat | OpOpen | OpRead | OpWrite | OpUnlink

text \<open>A directory entry has the type \<^verbatim>\<open>readdir\<close> reports: a subdirectory, a regular file, unknown
  (some file systems report no type), anything else.\<close>

datatype dir = Unreadable | Dir "(string \<times> dirent) list"
  and dirent = DtDir dir | DtReg | DtUnknown | DtOther

record os =
  os_files :: "ngx_str \<rightharpoonup> os_file"
  os_fault :: "os_op \<Rightarrow> ngx_str \<Rightarrow> bool"
  os_tree :: "ngx_str \<Rightarrow> dir"
  os_room :: "ngx_str \<Rightarrow> nat"
  os_clock :: int

datatype 'a sys = SysOk 'a | SysNoent | SysErr

section \<open>Calls\<close>

text \<open>\<open>file_info\<close> gives size and modification time.\<close>

definition file_info :: "os \<Rightarrow> ngx_str \<Rightarrow> (nat \<times> int) sys" where
  "file_info o0 path =
     (case os_files o0 path of
        None \<Rightarrow> SysNoent
      | Some f \<Rightarrow> if os_fault o0 OpStat path then SysErr else SysOk (length (fl_bytes f), fl_mtime f))"

definition open_file :: "os \<Rightarrow> ngx_str \<Rightarrow> unit sys" where
  "open_file o0 path =
     (case os_files o0 path of
        None \<Rightarrow> SysNoent
      | Some f \<Rightarrow> if os_fault o0 OpOpen path then SysErr else SysOk ())"

definition read_file :: "os \<Rightarrow> ngx_str \<Rightarrow> nat \<Rightarrow> nat \<Rightarrow> string option" where
  "read_file o0 path n offset =
     (case os_files o0 path of
        None \<Rightarrow> None
      | Some f \<Rightarrow> if os_fault o0 OpRead path then None else Some (take n (drop offset (fl_bytes f))))"

text \<open>\<open>write_file\<close> overwrites at an offset.  The bytes that get through are on the disk whatever
  the call returns: \<open>None\<close> is \<^verbatim>\<open>NGX_ERROR\<close>, possibly after a part was written, and a number is the
  number of bytes written, possibly fewer than asked for.\<close>

definition write_file :: "os \<Rightarrow> ngx_str \<Rightarrow> string \<Rightarrow> nat \<Rightarrow> nat option \<times> os" where
  "write_file o0 path bytes offset =
     (case os_files o0 path of
        None \<Rightarrow> (None, o0)
      | Some f \<Rightarrow>
          let n = min (os_room o0 path) (length bytes)
          in (if os_fault o0 OpWrite path then None else Some n,
              if n = 0 then o0
              else o0\<lparr>os_files := (os_files o0)(path \<mapsto> f\<lparr>fl_bytes :=
                       take offset (fl_bytes f) @ take n bytes @ drop (offset + n) (fl_bytes f),
                     fl_mtime := os_clock o0\<rparr>)\<rparr>))"

definition unlink_file :: "os \<Rightarrow> ngx_str \<Rightarrow> unit sys \<times> os" where
  "unlink_file o0 path =
     (case os_files o0 path of
        None \<Rightarrow> (SysNoent, o0)
      | Some f \<Rightarrow>
          if os_fault o0 OpUnlink path then (SysErr, o0)
          else (SysOk (), o0\<lparr>os_files := (os_files o0)(path := None)\<rparr>))"

lemma unlink_file_cases:
  assumes "unlink_file o0 path = (r, o1)"
  shows "os_fault o1 = os_fault o0" and "os_tree o1 = os_tree o0" and "os_room o1 = os_room o0"
    and "r = SysOk () \<Longrightarrow> os_files o1 = (os_files o0)(path := None) \<and> path \<in> dom (os_files o0)"
    and "r = SysNoent \<Longrightarrow> o1 = o0 \<and> path \<notin> dom (os_files o0)"
    and "r = SysErr \<Longrightarrow> o1 = o0 \<and> path \<in> dom (os_files o0)"
  using assms by (auto simp: unlink_file_def split: option.splits if_splits)

end
