(* ===== verification/Cache_File.thy ===== *)
theory Cache_File
  imports Rbtree Os
begin

text \<open>
  Purging one cache file: the node of the nginx cache zone, the file on disk, hard (delete) and
  soft (expire) purging by path, and by the file a request has opened
  (\<^verbatim>\<open>src/src/ngx_cache_pilot_module.c\<close>).

  The structures \<open>cache_node\<close>, \<open>file_cache\<close> and \<open>http_cache\<close> are the parts of
  nginx's \<^verbatim>\<open>ngx_http_file_cache_node_t\<close>, \<^verbatim>\<open>ngx_http_file_cache_t\<close> and \<^verbatim>\<open>ngx_http_cache_t\<close> that the
  module reads or writes.  What nginx does to them, the layout of a cache file header and the
  directory walk are parameters in \<open>http_core\<close>.  The model is for 64-bit little-endian platforms,
  where a tree key is the first eight bytes of a cache key.
\<close>

section \<open>State\<close>

record cache_node =
  cn_node_key :: nat
  cn_key :: string
  cn_exists :: bool
  cn_updating :: bool
  cn_valid_sec :: int
  cn_fs_size :: int
  cn_lock_time :: int

record file_cache =
  fc_name :: ngx_str
  fc_path :: ngx_str
  fc_tree :: rbtree
  fc_nodes :: "addr \<rightharpoonup> cache_node"
  fc_size :: int
  fc_max_size :: int
  fc_cold :: bool

record http_cache =
  hc_file_cache :: addr
  hc_keys :: "ngx_str list"
  hc_file_name :: ngx_str
  hc_node :: "addr option"
  hc_updating :: bool
  hc_lock_time :: int
  hc_valid_sec :: int

text \<open>The file system and the cache zone, which every purge works on.\<close>

record disk =
  dk_os :: os
  dk_cache :: file_cache

section \<open>nginx's cache as a parameter\<close>

record http_core =
  sizeof_cache_header :: nat
  cache_version :: nat
  header_version :: "string \<Rightarrow> nat"
  header_valid_sec :: "string \<Rightarrow> int"
  header_put_valid_sec :: "string \<Rightarrow> int \<Rightarrow> string"
  walk_tree :: "os \<Rightarrow> ngx_str \<Rightarrow> ngx_str list \<times> bool"

text \<open>\<open>valid_sec\<close> of a header is a 64-bit \<^verbatim>\<open>time_t\<close>; storing it keeps the version, and storing
  what is there changes nothing.  \<open>below root p\<close>: the path \<open>p\<close> lies under the directory \<open>root\<close>.
  A walk visits files below its root, each once.  It may miss some and still succeed:
  \<^verbatim>\<open>ngx_walk_tree\<close> goes on after a subdirectory it cannot open and an entry it cannot stat.\<close>

definition below :: "ngx_str \<Rightarrow> ngx_str \<Rightarrow> bool" where
  "below root p \<longleftrightarrow> take (length root + 1) p = root @ ''/''"

definition http_core_ok :: "http_core \<Rightarrow> bool" where
  "http_core_ok H \<longleftrightarrow>
     (\<forall>h v. length h = sizeof_cache_header H \<longrightarrow> - (2 ^ 63) \<le> v \<longrightarrow> v < 2 ^ 63 \<longrightarrow>
        length (header_put_valid_sec H h v) = sizeof_cache_header H \<and>
        header_valid_sec H (header_put_valid_sec H h v) = v \<and>
        header_version H (header_put_valid_sec H h v) = header_version H h) \<and>
     (\<forall>h. length h = sizeof_cache_header H \<longrightarrow> header_put_valid_sec H h (header_valid_sec H h) = h) \<and>
     (\<forall>o0 root ps ok. walk_tree H o0 root = (ps, ok) \<longrightarrow>
        distinct ps \<and> set ps \<subseteq> {p \<in> dom (os_files o0). below root p})"

section \<open>Cache keys\<close>

fun hex_pairs :: "ngx_core \<Rightarrow> string \<Rightarrow> string option" where
  "hex_pairs N (c # d # cs) =
     (let hi = hextoi1 N c; lo = hextoi1 N d in
      if hi = -1 \<or> lo = -1 then None
      else map_option (\<lambda>k. char_of (nat (hi * 16 + lo)) # k) (hex_pairs N cs))"
| "hex_pairs N _ = Some []"

definition key_bytes :: nat where
  "key_bytes = 16"

definition last_component :: "ngx_str \<Rightarrow> ngx_str" where
  "last_component path = rev (takeWhile (\<lambda>c. c \<noteq> CHR ''/'') (rev path))"

definition filename_key :: "ngx_core \<Rightarrow> ngx_str \<Rightarrow> string option" where
  "filename_key N path =
     (let p = last_component path in
      if length p \<noteq> 2 * key_bytes then None else hex_pairs N p)"

definition tree_key :: "string \<Rightarrow> nat" where
  "tree_key key = foldr (\<lambda>c n. of_char c + 256 * n) (take 8 key) 0"

text \<open>\<open>memcmp\<close> of two byte strings of the same length.\<close>

fun memcmp :: "string \<Rightarrow> string \<Rightarrow> int" where
  "memcmp (x # xs) (y # ys) =
     (if x = y then memcmp xs ys else int (of_char x) - int (of_char y))"
| "memcmp _ _ = 0"

fun cache_lookup_loop :: "(addr \<rightharpoonup> cache_node) \<Rightarrow> rbtree \<Rightarrow> nat \<Rightarrow> string \<Rightarrow> addr option" where
  "cache_lookup_loop nodes Sentinel node_key key = None"
| "cache_lookup_loop nodes (RbNode c l k a r) node_key key =
     (if node_key < k then cache_lookup_loop nodes l node_key key
      else if k < node_key then cache_lookup_loop nodes r node_key key
      else
        let rc = memcmp (drop 8 key) (cn_key (the (nodes a))) in
        if rc = 0 then Some a
        else if rc < 0 then cache_lookup_loop nodes l node_key key
        else cache_lookup_loop nodes r node_key key)"

definition cache_lookup :: "file_cache \<Rightarrow> string \<Rightarrow> addr option" where
  "cache_lookup fc key = cache_lookup_loop (fc_nodes fc) (fc_tree fc) (tree_key key) key"

section \<open>Nodes\<close>

definition upd_node :: "(cache_node \<Rightarrow> cache_node) \<Rightarrow> addr \<Rightarrow> file_cache \<Rightarrow> file_cache" where
  "upd_node g a fc = fc\<lparr>fc_nodes := (fc_nodes fc)(a := map_option g (fc_nodes fc a))\<rparr>"

definition mark_node_deleted :: "file_cache \<Rightarrow> addr \<Rightarrow> file_cache" where
  "mark_node_deleted fc a =
     upd_node (\<lambda>n. n\<lparr>cn_fs_size := 0, cn_exists := False, cn_updating := False\<rparr>) a
       (fc\<lparr>fc_size := fc_size fc - cn_fs_size (the (fc_nodes fc a))\<rparr>)"

section \<open>Hard purge of a path\<close>

definition delete_cache_file :: "ngx_core \<Rightarrow> disk \<Rightarrow> ngx_str \<Rightarrow> ngx_rc \<times> disk" where
  "delete_cache_file N d path =
     (case file_info (dk_os d) path of
        SysNoent \<Rightarrow> (NGX_DECLINED, d)
      | SysErr \<Rightarrow> (NGX_ERROR, d)
      | SysOk _ \<Rightarrow>
          let d1 = (case filename_key N path of
                None \<Rightarrow> d
              | Some key \<Rightarrow>
                  (case cache_lookup (dk_cache d) key of
                     None \<Rightarrow> d
                   | Some a \<Rightarrow>
                       if cn_exists (the (fc_nodes (dk_cache d) a))
                       then d\<lparr>dk_cache := mark_node_deleted (dk_cache d) a\<rparr> else d))
          in case unlink_file (dk_os d1) path of
               (SysNoent, o1) \<Rightarrow> (NGX_DECLINED, d1\<lparr>dk_os := o1\<rparr>)
             | (SysErr, o1) \<Rightarrow> (NGX_ERROR, d1\<lparr>dk_os := o1\<rparr>)
             | (SysOk _, o1) \<Rightarrow> (NGX_OK, d1\<lparr>dk_os := o1\<rparr>))"

text \<open>The node of an opened file is locked by the request, so it is a live node.\<close>

definition delete_opened_file :: "disk \<Rightarrow> http_cache \<Rightarrow> ngx_rc \<times> disk" where
  "delete_opened_file d c =
     (let a = the (hc_node c) in
      if \<not> cn_exists (the (fc_nodes (dk_cache d) a)) then (NGX_DECLINED, d)
      else
        let d1 = d\<lparr>dk_cache := mark_node_deleted (dk_cache d) a\<rparr>;
            (r, o1) = unlink_file (dk_os d1) (hc_file_name c)
        in (NGX_OK, d1\<lparr>dk_os := o1\<rparr>))"

section \<open>Soft purge of a path\<close>

definition soft_header :: "http_core \<Rightarrow> os \<Rightarrow> ngx_str \<Rightarrow> ngx_rc \<times> os" where
  "soft_header H o0 path =
     (case open_file o0 path of
        SysNoent \<Rightarrow> (NGX_DECLINED, o0)
      | SysErr \<Rightarrow> (NGX_ERROR, o0)
      | SysOk _ \<Rightarrow>
          (case read_file o0 path (sizeof_cache_header H) 0 of
             None \<Rightarrow> (NGX_ERROR, o0)
           | Some h \<Rightarrow>
               if length h \<noteq> sizeof_cache_header H then (NGX_ERROR, o0)
               else if header_version H h \<noteq> cache_version H then (NGX_ERROR, o0)
               else (case write_file o0 path (header_put_valid_sec H h 0) 0 of
                   (n, o1) \<Rightarrow>
                     if n \<noteq> Some (sizeof_cache_header H) then (NGX_ERROR, o1) else (NGX_OK, o1))))"

definition soft_path :: "ngx_core \<Rightarrow> http_core \<Rightarrow> disk \<Rightarrow> ngx_str \<Rightarrow> ngx_rc \<times> disk" where
  "soft_path N H d path =
     (case soft_header H (dk_os d) path of
        (rc, o1) \<Rightarrow>
          if rc \<noteq> NGX_OK then (rc, d\<lparr>dk_os := o1\<rparr>)
          else
            let d1 = d\<lparr>dk_os := o1\<rparr>
            in (NGX_OK,
                case filename_key N path of
                  None \<Rightarrow> d1
                | Some key \<Rightarrow>
                    (case cache_lookup (dk_cache d1) key of
                       None \<Rightarrow> d1
                     | Some a \<Rightarrow>
                         if cn_exists (the (fc_nodes (dk_cache d1) a))
                         then d1\<lparr>dk_cache := upd_node (\<lambda>n. n\<lparr>cn_valid_sec := 0\<rparr>) a (dk_cache d1)\<rparr>
                         else d1)))"

definition by_path :: "ngx_core \<Rightarrow> http_core \<Rightarrow> disk \<Rightarrow> ngx_str \<Rightarrow> bool \<Rightarrow> ngx_rc \<times> disk" where
  "by_path N H d path soft = (if soft then soft_path N H d path else delete_cache_file N d path)"

text \<open>The lock of an entry that is being updated is given back only by the request that holds it.\<close>

definition release_updating :: "disk \<Rightarrow> http_cache \<Rightarrow> disk \<times> http_cache" where
  "release_updating d c =
     (if hc_node c = None \<or> \<not> hc_updating c then (d, c)
      else
        let a = the (hc_node c); n = the (fc_nodes (dk_cache d) a)
        in (if cn_updating n \<and> cn_lock_time n = hc_lock_time c
            then d\<lparr>dk_cache := upd_node (\<lambda>n. n\<lparr>cn_updating := False\<rparr>) a (dk_cache d)\<rparr> else d,
            c\<lparr>hc_updating := False\<rparr>))"

section \<open>Directory walks\<close>

text \<open>\<open>ngx_walk_tree\<close> calls the file handler on every file and goes on whatever the handler
  returns, except \<^verbatim>\<open>NGX_ABORT\<close>, which these handlers never return.  \<open>ps_purged\<close> counts.\<close>

record partial_ctx =
  pc_key_partial :: ngx_str
  pc_purged :: nat

definition cache_header_skip :: "http_core \<Rightarrow> nat" where
  "cache_header_skip H = sizeof_cache_header H + 6"

definition partial_match :: "ngx_core \<Rightarrow> http_core \<Rightarrow> os \<Rightarrow> ngx_str \<Rightarrow> ngx_str \<Rightarrow> bool" where
  "partial_match N H o0 key_partial path =
     (if length key_partial = 0 then True
      else (case open_file o0 path of
          SysOk _ \<Rightarrow>
            (case read_file o0 path (length key_partial) (cache_header_skip H) of
               None \<Rightarrow> False
             | Some key_in_file \<Rightarrow>
                 if length key_in_file \<noteq> length key_partial then False
                 else strncasecmp N key_in_file key_partial (length key_partial) = 0)
        | _ \<Rightarrow> False))"

definition delete_file_handler :: "ngx_core \<Rightarrow> http_core \<Rightarrow> partial_ctx \<times> disk \<Rightarrow> ngx_str \<Rightarrow> partial_ctx \<times> disk" where
  "delete_file_handler N H = (\<lambda>(pc, d) path.
     (case by_path N H d path False of
        (rc, d1) \<Rightarrow> (if rc = NGX_OK then pc\<lparr>pc_purged := pc_purged pc + 1\<rparr> else pc, d1)))"

definition soft_file_handler :: "ngx_core \<Rightarrow> http_core \<Rightarrow> partial_ctx \<times> disk \<Rightarrow> ngx_str \<Rightarrow> partial_ctx \<times> disk" where
  "soft_file_handler N H = (\<lambda>(pc, d) path.
     (case soft_path N H d path of
        (rc, d1) \<Rightarrow> (if rc = NGX_OK then pc\<lparr>pc_purged := pc_purged pc + 1\<rparr> else pc, d1)))"

definition delete_partial_file_handler ::
  "ngx_core \<Rightarrow> http_core \<Rightarrow> partial_ctx \<times> disk \<Rightarrow> ngx_str \<Rightarrow> partial_ctx \<times> disk" where
  "delete_partial_file_handler N H = (\<lambda>(pc, d) path.
     (if \<not> partial_match N H (dk_os d) (pc_key_partial pc) path then (pc, d)
      else (case by_path N H d path False of
          (rc, d1) \<Rightarrow> (if rc = NGX_OK then pc\<lparr>pc_purged := pc_purged pc + 1\<rparr> else pc, d1))))"

definition soft_partial_file_handler ::
  "ngx_core \<Rightarrow> http_core \<Rightarrow> partial_ctx \<times> disk \<Rightarrow> ngx_str \<Rightarrow> partial_ctx \<times> disk" where
  "soft_partial_file_handler N H = (\<lambda>(pc, d) path.
     (if \<not> partial_match N H (dk_os d) (pc_key_partial pc) path then (pc, d)
      else (case soft_path N H d path of
          (rc, d1) \<Rightarrow> (if rc = NGX_OK then pc\<lparr>pc_purged := pc_purged pc + 1\<rparr> else pc, d1))))"

end
