(* ===== verification/Cache_File_Spec.thy ===== *)
theory Cache_File_Spec
  imports Cache_File
begin

text \<open>
  What purging one file does: the cache node of a file is found by the key in its name; a hard
  purge that does not fail leaves no file; a soft purge expires the header on disk first and the
  node only after that; bytes in use are accounted for.
\<close>

section \<open>Finding the node of a file\<close>

text \<open>On byte strings of the same length \<open>memcmp\<close> is the total order of the reference
  comparison, so the contract of ordered trees applies to the cache tree as well.\<close>

lemma memcmp_ref: "length a = length b \<Longrightarrow> memcmp a b = memn2cmp_ref a b"
  by (induction a b rule: memcmp.induct) auto

interpretation mc: node_order "\<lambda>_ :: unit. True" "\<lambda>_. memn2cmp_ref"
  using memn2cmp_ok_ref unfolding memn2cmp_ok_def by unfold_locales blast+

definition cache_wf :: "file_cache \<Rightarrow> bool" where
  "cache_wf fc \<longleftrightarrow>
     tree_of memn2cmp_ref (\<lambda>a. cn_node_key (the (fc_nodes fc a))) (\<lambda>a. cn_key (the (fc_nodes fc a)))
       (fc_tree fc) (dom (fc_nodes fc)) \<and>
     (\<forall>a n. fc_nodes fc a = Some n \<longrightarrow> length (cn_key n) = 8)"

lemma cache_lookup_loop_generic:
  assumes "\<forall>(k, a) \<in> set (inorder t). length (cn_key (the (nodes a))) = 8" and "length key = 16"
  shows "cache_lookup_loop nodes t nk key =
    lookup_generic t nk (drop 8 key) (\<lambda>a. the (nodes a)) (\<lambda>needle d. memn2cmp_ref needle (cn_key d))"
  using assms by (induction t) (auto simp: memcmp_ref Let_def)

text \<open>A node is found exactly when it carries the whole key.\<close>

definition node_full_key :: "cache_node \<Rightarrow> string \<Rightarrow> bool" where
  "node_full_key n key \<longleftrightarrow> cn_node_key n = tree_key key \<and> cn_key n = drop 8 key"

lemma cache_lookup_iff:
  assumes "cache_wf fc" and "length key = 16"
  shows "cache_lookup fc key = Some a \<longleftrightarrow> (\<exists>n. fc_nodes fc a = Some n \<and> node_full_key n key)"
proof -
  have tree: "tree_of memn2cmp_ref (\<lambda>a. cn_node_key (the (fc_nodes fc a))) (\<lambda>a. cn_key (the (fc_nodes fc a)))
       (fc_tree fc) (dom (fc_nodes fc))" using assms(1) by (simp add: cache_wf_def)
  then have len: "\<forall>(k, a) \<in> set (inorder (fc_tree fc)). length (cn_key (the (fc_nodes fc a))) = 8"
    using assms(1) by (auto simp: cache_wf_def tree_of_def)
  have "cache_lookup fc key = Some a \<longleftrightarrow> a \<in> dom (fc_nodes fc) \<and>
      cn_node_key (the (fc_nodes fc a)) = tree_key key \<and> cn_key (the (fc_nodes fc a)) = drop 8 key"
    unfolding cache_lookup_def cache_lookup_loop_generic [OF len assms(2)]
    by (rule mc.lookup_generic_tree_of [where sd = cn_key]) (auto simp: tree)
  then show ?thesis by (auto simp: node_full_key_def)
qed

lemma tree_key_inj: "length a = length b \<Longrightarrow> length a \<le> 8 \<Longrightarrow> tree_key a = tree_key b \<Longrightarrow> a = b"
proof (induction a b rule: list_induct2)
  case (Cons x xs y ys)
  have "tree_key (z # zs) = of_char z + 256 * tree_key zs" if "length zs \<le> 7" for z zs
    using that by (simp add: tree_key_def)
  with Cons have eq: "(of_char x :: nat) + 256 * tree_key xs = of_char y + 256 * tree_key ys" by simp
  have lt: "(of_char x :: nat) < 256" "(of_char y :: nat) < 256"
    using nat_of_char_less_256 by auto
  have "(of_char x :: nat) = (of_char x + 256 * tree_key xs) mod 256" using lt by simp
  also have "\<dots> = of_char y" unfolding eq using lt by simp
  finally have "x = y" by simp
  moreover from this eq have "tree_key xs = tree_key ys" by simp
  ultimately show ?case using Cons by simp
qed simp

section \<open>The name of a cache file\<close>

definition hex_digit :: "nat \<Rightarrow> char" where
  "hex_digit n = char_of (if n < 10 then 48 + n else 87 + n)"

definition hex_byte :: "char \<Rightarrow> string" where
  "hex_byte c = [hex_digit (of_char c div 16), hex_digit (of_char c mod 16)]"

definition hex_dump :: "string \<Rightarrow> string" where
  "hex_dump key = concat (map hex_byte key)"

lemma hex_value_digit: "n < 16 \<Longrightarrow> hex_value (hex_digit n) = Some (int n)"
  by (auto simp: hex_value_def hex_digit_def Let_def)

lemma hex_digit_not_slash: "n < 16 \<Longrightarrow> hex_digit n \<noteq> CHR ''/''"
  using hex_value_digit [of n] by (auto simp: hex_value_def)

lemma nibble_less: "(of_char (c :: char) :: nat) div 16 < 16" "(of_char (c :: char) :: nat) mod 16 < 16"
  using nat_of_char_less_256 [of c] by (simp_all add: less_mult_imp_div_less)

lemma hex_pairs_dump:
  assumes ok: "ngx_core_ok N"
  shows "hex_pairs N (hex_dump key) = Some key"
proof (induction key)
  case (Cons c key)
  have "nat (int (of_char c div 16) * 16 + int (of_char c mod 16)) = (of_char c :: nat)"
    by (metis div_mult_mod_eq nat_int of_nat_add of_nat_mult of_nat_numeral)
  with Cons nibble_less [of c] show ?case
    by (simp add: hex_dump_def hex_byte_def core_okD(5) [OF ok] hex_value_digit Let_def)
qed (simp add: hex_dump_def)

lemma filename_key_dump:
  assumes ok: "ngx_core_ok N" and "length key = key_bytes"
  shows "filename_key N (dir @ ''/'' @ hex_dump key) = Some key"
proof -
  have no: "CHR ''/'' \<notin> set (hex_dump key)"
  proof -
    have "CHR ''/'' \<notin> set (hex_byte c)" for c
      using hex_digit_not_slash [OF nibble_less(1) [of c]] hex_digit_not_slash [OF nibble_less(2) [of c]]
      by (auto simp: hex_byte_def)
    then show ?thesis by (simp add: hex_dump_def)
  qed
  have len: "length (hex_dump key) = 2 * length key"
    by (induction key) (auto simp: hex_dump_def hex_byte_def)
  have tw: "takeWhile (\<lambda>c. c \<noteq> CHR ''/'') (rev (hex_dump key)) = rev (hex_dump key)"
    using no by (subst takeWhile_eq_all_conv) auto
  have "last_component (dir @ ''/'' @ hex_dump key) = hex_dump key"
    by (simp add: last_component_def takeWhile_tail tw)
  with len assms hex_pairs_dump [OF ok] show ?thesis by (simp add: filename_key_def)
qed

lemma hex_pairs_length: "hex_pairs N p = Some key \<Longrightarrow> length key = length p div 2"
  by (induction N p arbitrary: key rule: hex_pairs.induct) (auto simp: Let_def split: if_splits)

lemma filename_key_length: "filename_key N path = Some key \<Longrightarrow> length key = 16"
  by (auto simp: filename_key_def key_bytes_def Let_def dest!: hex_pairs_length split: if_splits)

section \<open>Hard purge\<close>

text \<open>What a purge may do to the cache zone: nothing, or one node marked deleted, or one node
  expired; the node is the one with the key in the file name.\<close>

definition node_of_path :: "ngx_core \<Rightarrow> file_cache \<Rightarrow> ngx_str \<Rightarrow> addr option" where
  "node_of_path N fc path =
     (case filename_key N path of None \<Rightarrow> None
      | Some key \<Rightarrow> (case cache_lookup fc key of None \<Rightarrow> None
          | Some a \<Rightarrow> if cn_exists (the (fc_nodes fc a)) then Some a else None))"

definition drop_node :: "ngx_core \<Rightarrow> file_cache \<Rightarrow> ngx_str \<Rightarrow> file_cache" where
  "drop_node N fc path = (case node_of_path N fc path of None \<Rightarrow> fc | Some a \<Rightarrow> mark_node_deleted fc a)"

definition expire_node :: "ngx_core \<Rightarrow> file_cache \<Rightarrow> ngx_str \<Rightarrow> file_cache" where
  "expire_node N fc path = (case node_of_path N fc path of None \<Rightarrow> fc
     | Some a \<Rightarrow> upd_node (\<lambda>n. n\<lparr>cn_valid_sec := 0\<rparr>) a fc)"

lemma disk_update_same [simp]: "d\<lparr>dk_cache := dk_cache d\<rparr> = d" "d\<lparr>dk_os := dk_os d\<rparr> = d"
  by simp_all

lemma delete_cache_file_eq:
  "delete_cache_file N d path =
     (case file_info (dk_os d) path of
        SysNoent \<Rightarrow> (NGX_DECLINED, d) | SysErr \<Rightarrow> (NGX_ERROR, d)
      | SysOk _ \<Rightarrow>
          let d1 = d\<lparr>dk_cache := drop_node N (dk_cache d) path\<rparr>
          in case unlink_file (dk_os d) path of
               (SysNoent, o1) \<Rightarrow> (NGX_DECLINED, d1\<lparr>dk_os := o1\<rparr>)
             | (SysErr, o1) \<Rightarrow> (NGX_ERROR, d1\<lparr>dk_os := o1\<rparr>)
             | (SysOk _, o1) \<Rightarrow> (NGX_OK, d1\<lparr>dk_os := o1\<rparr>))"
proof -
  have "(case filename_key N path of None \<Rightarrow> d
      | Some key \<Rightarrow> (case cache_lookup (dk_cache d) key of None \<Rightarrow> d
         | Some a \<Rightarrow> if cn_exists (the (fc_nodes (dk_cache d) a))
             then d\<lparr>dk_cache := mark_node_deleted (dk_cache d) a\<rparr> else d)) =
      d\<lparr>dk_cache := drop_node N (dk_cache d) path\<rparr>"
    by (simp add: drop_node_def node_of_path_def split: option.splits)
  note eq = this
  show ?thesis unfolding delete_cache_file_def eq Let_def by (simp split: sys.split)
qed

lemma delete_cache_file_cases:
  assumes "delete_cache_file N d path = (rc, d')"
  shows "rc = NGX_OK \<Longrightarrow> path \<in> dom (os_files (dk_os d)) \<and>
      dk_os d' = (dk_os d)\<lparr>os_files := (os_files (dk_os d))(path := None)\<rparr> \<and>
      dk_cache d' = drop_node N (dk_cache d) path"
    and "rc = NGX_DECLINED \<Longrightarrow> d' = d \<and> path \<notin> dom (os_files (dk_os d))"
    and "rc = NGX_ERROR \<Longrightarrow> dk_os d' = dk_os d \<and> path \<in> dom (os_files (dk_os d)) \<and>
      (dk_cache d' = dk_cache d \<or> dk_cache d' = drop_node N (dk_cache d) path)"
    and "rc = NGX_OK \<or> rc = NGX_DECLINED \<or> rc = NGX_ERROR"
  using assms unfolding delete_cache_file_eq
  by (auto simp: file_info_def unlink_file_def Let_def split: option.splits if_splits)

section \<open>Soft purge\<close>

definition file_expired :: "http_core \<Rightarrow> os_file \<Rightarrow> bool" where
  "file_expired H f \<longleftrightarrow> header_valid_sec H (take (sizeof_cache_header H) (fl_bytes f)) = 0"

lemma http_core_okD:
  assumes "http_core_ok H" and "length h = sizeof_cache_header H"
  shows "length (header_put_valid_sec H h 0) = sizeof_cache_header H"
    and "header_valid_sec H (header_put_valid_sec H h 0) = 0"
    and "header_version H (header_put_valid_sec H h 0) = header_version H h"
    and "header_valid_sec H h = 0 \<Longrightarrow> header_put_valid_sec H h 0 = h"
proof -
  have "header_put_valid_sec H h (header_valid_sec H h) = h" using assms by (simp add: http_core_ok_def)
  then show "header_valid_sec H h = 0 \<Longrightarrow> header_put_valid_sec H h 0 = h" by simp
qed (use assms in \<open>simp_all add: http_core_ok_def\<close>)

lemma walk_tree_below:
  assumes "http_core_ok H" and "walk_tree H o0 root = (ps, ok)"
  shows "distinct ps" and "set ps \<subseteq> dom (os_files o0)" and "p \<in> set ps \<Longrightarrow> below root p"
  using assms unfolding http_core_ok_def by blast+

text \<open>Only the header is rewritten: the rest of the file keeps its bytes.\<close>

definition same_body :: "http_core \<Rightarrow> os_file \<Rightarrow> os_file \<Rightarrow> bool" where
  "same_body H f g \<longleftrightarrow> length (fl_bytes g) = length (fl_bytes f) \<and>
     drop (sizeof_cache_header H) (fl_bytes g) = drop (sizeof_cache_header H) (fl_bytes f)"

text \<open>What a write that does not get through leaves: the first \<open>k\<close> bytes of the header are those of
  the expired header, the others those that were there.\<close>

definition header_torn :: "http_core \<Rightarrow> os_file \<Rightarrow> os_file \<Rightarrow> bool" where
  "header_torn H f g \<longleftrightarrow> sizeof_cache_header H \<le> length (fl_bytes f) \<and>
     (\<exists>k \<le> sizeof_cache_header H. fl_bytes g =
        take k (header_put_valid_sec H (take (sizeof_cache_header H) (fl_bytes f)) 0) @ drop k (fl_bytes f))"

lemma header_torn_body:
  assumes "http_core_ok H" and "header_torn H f g"
  shows "same_body H f g" and "file_expired H f \<Longrightarrow> file_expired H g"
proof -
  let ?n = "sizeof_cache_header H"
  let ?h = "take ?n (fl_bytes f)"
  obtain k where k: "k \<le> ?n" "fl_bytes g = take k (header_put_valid_sec H ?h 0) @ drop k (fl_bytes f)" "?n \<le> length (fl_bytes f)"
    using assms(2) by (auto simp: header_torn_def)
  have h: "length ?h = ?n" using k(3) by simp
  note o = http_core_okD [OF assms(1) h]
  show "same_body H f g" using k o(1) by (simp add: same_body_def)
  show "file_expired H g" if "file_expired H f"
  proof -
    have "header_put_valid_sec H ?h 0 = ?h" using o(4) that by (simp add: file_expired_def)
    then have "fl_bytes g = fl_bytes f" using k(1,2) by (simp add: min_def append_take_drop_id)
    then show ?thesis using that by (simp add: file_expired_def)
  qed
qed

text \<open>What can keep a purge from its file: a system call that fails, a write that does not get through
  in full, or a file whose header is not one of this version.\<close>

definition refused :: "http_core \<Rightarrow> bool \<Rightarrow> os \<Rightarrow> ngx_str \<Rightarrow> bool" where
  "refused H soft o0 p \<longleftrightarrow>
     (if soft then os_fault o0 OpOpen p \<or> os_fault o0 OpRead p \<or> os_fault o0 OpWrite p \<or>
        os_room o0 p < sizeof_cache_header H \<or>
        (\<exists>f. os_files o0 p = Some f \<and> (length (fl_bytes f) < sizeof_cache_header H \<or>
           header_version H (take (sizeof_cache_header H) (fl_bytes f)) \<noteq> cache_version H))
      else os_fault o0 OpStat p \<or> os_fault o0 OpUnlink p)"

text \<open>What a purge that fails leaves of its file: all of it, or, in soft mode, a torn header.\<close>

definition file_kept :: "http_core \<Rightarrow> bool \<Rightarrow> os_file option \<Rightarrow> os_file option \<Rightarrow> bool" where
  "file_kept H soft f0 g0 \<longleftrightarrow> g0 = f0 \<or> soft \<and> (\<exists>f g. f0 = Some f \<and> g0 = Some g \<and> header_torn H f g)"

lemma soft_header_cases:
  assumes H: "http_core_ok H" and s: "soft_header H o0 path = (rc, o1)"
  shows "rc = NGX_OK \<Longrightarrow> \<exists>f g. os_files o0 path = Some f \<and>
      o1 = o0\<lparr>os_files := (os_files o0)(path \<mapsto> g)\<rparr> \<and> file_expired H g \<and> same_body H f g"
    and "rc \<noteq> NGX_OK \<Longrightarrow> o1 = o0 \<or> rc = NGX_ERROR \<and> (\<exists>f g. os_files o0 path = Some f \<and>
      o1 = o0\<lparr>os_files := (os_files o0)(path \<mapsto> g)\<rparr> \<and> header_torn H f g)"
    and "rc = NGX_DECLINED \<Longrightarrow> path \<notin> dom (os_files o0) \<and> o1 = o0"
    and "rc = NGX_OK \<or> rc = NGX_DECLINED \<or> rc = NGX_ERROR"
    and "rc = NGX_OK \<longleftrightarrow> path \<in> dom (os_files o0) \<and> \<not> refused H True o0 path"
proof -
  let ?n = "sizeof_cache_header H"
  consider (none) "os_files o0 path = None" "rc = NGX_DECLINED" "o1 = o0"
    | (fail) f where "os_files o0 path = Some f" "rc = NGX_ERROR" "o1 = o0" "refused H True o0 path"
    | (torn) f g where "os_files o0 path = Some f" "rc = NGX_ERROR" "refused H True o0 path"
        "o1 = o0\<lparr>os_files := (os_files o0)(path \<mapsto> g)\<rparr>" "header_torn H f g"
    | (ok) f g where "os_files o0 path = Some f" "rc = NGX_OK" "\<not> refused H True o0 path"
        "o1 = o0 \<and> g = f \<or> o1 = o0\<lparr>os_files := (os_files o0)(path \<mapsto> g)\<rparr>" "file_expired H g" "same_body H f g"
  proof (cases "os_files o0 path")
    case None
    then show thesis using none s by (simp add: soft_header_def open_file_def)
  next
    case (Some f)
    let ?h = "take ?n (fl_bytes f)" and ?m = "min (os_room o0 path) ?n"
    let ?g = "f\<lparr>fl_bytes := take ?m (header_put_valid_sec H ?h 0) @ drop ?m (fl_bytes f), fl_mtime := os_clock o0\<rparr>"
    show thesis
    proof (cases "os_fault o0 OpOpen path \<or> os_fault o0 OpRead path \<or> length (fl_bytes f) < ?n \<or>
        header_version H ?h \<noteq> cache_version H")
      case True
      then show thesis using fail [OF Some] s Some
        by (auto simp: soft_header_def open_file_def read_file_def refused_def split: if_splits)
    next
      case False
      then have len: "length ?h = ?n" by simp
      note h = http_core_okD [OF H len]
      have "soft_header H o0 path = (if os_fault o0 OpWrite path \<or> ?m \<noteq> ?n then NGX_ERROR else NGX_OK,
          if ?m = 0 then o0 else o0\<lparr>os_files := (os_files o0)(path \<mapsto> ?g)\<rparr>)"
        using Some False h(1) len
        by (cases "?m = 0") (auto simp: soft_header_def open_file_def read_file_def write_file_def Let_def min_def)
      note e = this [unfolded s]
      have t: "header_torn H f ?g" using False by (auto simp: header_torn_def intro!: exI [of _ ?m])
      show thesis
      proof (cases "os_fault o0 OpWrite path \<or> ?m \<noteq> ?n")
        case True
        then have "refused H True o0 path" by (auto simp: refused_def)
        then show thesis using fail [OF Some] torn [OF Some _ _ _ t] e True by (cases "?m = 0") auto
      next
        case no: False
        then have "\<not> refused H True o0 path" using False Some by (auto simp: refused_def)
        moreover have "file_expired H ?g" "same_body H f ?g" using no False h(1,2) by (auto simp: file_expired_def same_body_def)
        moreover have "file_expired H f" if "?n = 0"
          using http_core_okD(2) [OF H, of "[]"] http_core_okD(1) [OF H, of "[]"] that by (simp add: file_expired_def)
        ultimately show thesis using ok [OF Some, of ?g] ok [OF Some, of f] e no
          by (cases "?m = 0") (auto simp: same_body_def)
      qed
    qed
  qed
  note c = this
  show "rc = NGX_OK \<Longrightarrow> \<exists>f g. os_files o0 path = Some f \<and>
      o1 = o0\<lparr>os_files := (os_files o0)(path \<mapsto> g)\<rparr> \<and> file_expired H g \<and> same_body H f g"
  proof (cases rule: c)
    case (ok f g)
    have "o0 = o0\<lparr>os_files := (os_files o0)(path \<mapsto> f)\<rparr>" using ok(1) by (simp add: fun_upd_idem)
    then show ?thesis using ok by metis
  qed auto
  show "rc \<noteq> NGX_OK \<Longrightarrow> o1 = o0 \<or> rc = NGX_ERROR \<and> (\<exists>f g. os_files o0 path = Some f \<and>
      o1 = o0\<lparr>os_files := (os_files o0)(path \<mapsto> g)\<rparr> \<and> header_torn H f g)"
    by (cases rule: c) auto
  show "rc = NGX_DECLINED \<Longrightarrow> path \<notin> dom (os_files o0) \<and> o1 = o0" "rc = NGX_OK \<or> rc = NGX_DECLINED \<or> rc = NGX_ERROR"
    "rc = NGX_OK \<longleftrightarrow> path \<in> dom (os_files o0) \<and> \<not> refused H True o0 path"
    by (cases rule: c; auto)+
qed

lemma soft_path_cases:
  assumes H: "http_core_ok H" and soft: "soft_path N H d path = (rc, d')"
  shows "rc = NGX_OK \<Longrightarrow> \<exists>f g. os_files (dk_os d) path = Some f \<and>
      dk_os d' = (dk_os d)\<lparr>os_files := (os_files (dk_os d))(path \<mapsto> g)\<rparr> \<and> file_expired H g \<and> same_body H f g \<and>
      dk_cache d' = expire_node N (dk_cache d) path"
    and "rc \<noteq> NGX_OK \<Longrightarrow> d' = d \<or> rc = NGX_ERROR \<and> (\<exists>f g. os_files (dk_os d) path = Some f \<and>
      d' = d\<lparr>dk_os := (dk_os d)\<lparr>os_files := (os_files (dk_os d))(path \<mapsto> g)\<rparr>\<rparr> \<and> header_torn H f g)"
    and "rc = NGX_DECLINED \<Longrightarrow> path \<notin> dom (os_files (dk_os d)) \<and> d' = d"
    and "rc = NGX_OK \<or> rc = NGX_DECLINED \<or> rc = NGX_ERROR"
    and "rc = NGX_OK \<longleftrightarrow> path \<in> dom (os_files (dk_os d)) \<and> \<not> refused H True (dk_os d) path"
proof -
  obtain rc1 o1 where s: "soft_header H (dk_os d) path = (rc1, o1)" by fastforce
  note c = soft_header_cases [OF H s]
  have rc: "rc = rc1"
    using soft s by (auto simp: soft_path_def Let_def split: if_splits)
  have ok: "d' = d\<lparr>dk_os := o1, dk_cache := expire_node N (dk_cache d) path\<rparr>" if "rc1 = NGX_OK"
    using soft s that by (auto simp: soft_path_def Let_def expire_node_def node_of_path_def split: option.splits)
  have no: "d' = d\<lparr>dk_os := o1\<rparr>" if "rc1 \<noteq> NGX_OK" using soft s that by (auto simp: soft_path_def)
  show "rc = NGX_OK \<Longrightarrow> \<exists>f g. os_files (dk_os d) path = Some f \<and>
      dk_os d' = (dk_os d)\<lparr>os_files := (os_files (dk_os d))(path \<mapsto> g)\<rparr> \<and> file_expired H g \<and> same_body H f g \<and>
      dk_cache d' = expire_node N (dk_cache d) path"
    using c(1) ok rc by fastforce
  show "rc \<noteq> NGX_OK \<Longrightarrow> d' = d \<or> rc = NGX_ERROR \<and> (\<exists>f g. os_files (dk_os d) path = Some f \<and>
      d' = d\<lparr>dk_os := (dk_os d)\<lparr>os_files := (os_files (dk_os d))(path \<mapsto> g)\<rparr>\<rparr> \<and> header_torn H f g)"
    using c(2) no rc by (metis disk_update_same(2))
  show "rc = NGX_DECLINED \<Longrightarrow> path \<notin> dom (os_files (dk_os d)) \<and> d' = d" using c(3) no rc by auto
  show "rc = NGX_OK \<or> rc = NGX_DECLINED \<or> rc = NGX_ERROR" using c(4) rc by simp
  show "rc = NGX_OK \<longleftrightarrow> path \<in> dom (os_files (dk_os d)) \<and> \<not> refused H True (dk_os d) path" using c(5) rc by simp
qed

section \<open>Both modes\<close>

definition path_purged :: "http_core \<Rightarrow> bool \<Rightarrow> os \<Rightarrow> ngx_str \<Rightarrow> bool" where
  "path_purged H soft o0 p \<longleftrightarrow>
     (if soft then (\<forall>f. os_files o0 p = Some f \<longrightarrow> file_expired H f) else os_files o0 p = None)"

lemma by_path_cases:
  assumes H: "http_core_ok H" and p: "by_path N H d path soft = (rc, d')"
  shows "rc = NGX_OK \<Longrightarrow> path_purged H soft (dk_os d') path \<and> path \<in> dom (os_files (dk_os d))"
    and "rc = NGX_DECLINED \<Longrightarrow> d' = d \<and> os_files (dk_os d) path = None"
    and "rc = NGX_OK \<or> rc = NGX_DECLINED \<or> rc = NGX_ERROR"
    and "q \<noteq> path \<Longrightarrow> os_files (dk_os d') q = os_files (dk_os d) q"
    and "rc \<noteq> NGX_OK \<Longrightarrow> file_kept H soft (os_files (dk_os d) path) (os_files (dk_os d') path)"
    and "os_fault (dk_os d') = os_fault (dk_os d)" and "os_room (dk_os d') = os_room (dk_os d)"
    and "rc = NGX_OK \<longleftrightarrow> path \<in> dom (os_files (dk_os d)) \<and> \<not> refused H soft (dk_os d) path"
    and "soft \<Longrightarrow> dom (os_files (dk_os d')) = dom (os_files (dk_os d))"
proof -
  have "(rc = NGX_OK \<longrightarrow> path_purged H soft (dk_os d') path \<and> path \<in> dom (os_files (dk_os d))) \<and>
    (rc = NGX_DECLINED \<longrightarrow> d' = d \<and> os_files (dk_os d) path = None) \<and>
    (rc = NGX_OK \<or> rc = NGX_DECLINED \<or> rc = NGX_ERROR) \<and>
    (\<forall>q. q \<noteq> path \<longrightarrow> os_files (dk_os d') q = os_files (dk_os d) q) \<and>
    (rc \<noteq> NGX_OK \<longrightarrow> file_kept H soft (os_files (dk_os d) path) (os_files (dk_os d') path)) \<and>
    os_fault (dk_os d') = os_fault (dk_os d) \<and> os_room (dk_os d') = os_room (dk_os d) \<and>
    (rc = NGX_OK \<longleftrightarrow> path \<in> dom (os_files (dk_os d)) \<and> \<not> refused H soft (dk_os d) path) \<and>
    (soft \<longrightarrow> dom (os_files (dk_os d')) = dom (os_files (dk_os d)))"
  proof (cases soft)
    case True
    with p have s: "soft_path N H d path = (rc, d')" by (simp add: by_path_def)
    note c = soft_path_cases [OF H s]
    show ?thesis
    proof (cases "rc = NGX_OK")
      case ok: True
      with c(1,5) True show ?thesis by (auto simp: path_purged_def split: if_splits)
    next
      case False
      from c(2) [OF False] show ?thesis
      proof
        assume "d' = d"
        then show ?thesis using c(3-5) False by (auto simp: file_kept_def True)
      next
        assume "rc = NGX_ERROR \<and> (\<exists>f g. os_files (dk_os d) path = Some f \<and>
          d' = d\<lparr>dk_os := (dk_os d)\<lparr>os_files := (os_files (dk_os d))(path \<mapsto> g)\<rparr>\<rparr> \<and> header_torn H f g)"
        then show ?thesis using c(5) by (auto simp: file_kept_def True split: if_splits)
      qed
    qed
  next
    case False
    with p have s: "delete_cache_file N d path = (rc, d')" by (simp add: by_path_def)
    note c = delete_cache_file_cases [OF this]
    have "rc = NGX_OK \<longleftrightarrow> path \<in> dom (os_files (dk_os d)) \<and> \<not> refused H soft (dk_os d) path"
      using s False unfolding delete_cache_file_eq
      by (auto simp: file_info_def unlink_file_def refused_def Let_def split: option.splits if_splits)
    note ok = this
    show ?thesis
    proof (cases "rc = NGX_OK")
      case True
      with ok c(1) [OF True] False show ?thesis by (simp add: path_purged_def)
    next
      case no: False
      with ok c(2-4) False show ?thesis by (auto simp: file_kept_def)
    qed
  qed
  then show "rc = NGX_OK \<Longrightarrow> path_purged H soft (dk_os d') path \<and> path \<in> dom (os_files (dk_os d))"
    "rc = NGX_DECLINED \<Longrightarrow> d' = d \<and> os_files (dk_os d) path = None"
    "rc = NGX_OK \<or> rc = NGX_DECLINED \<or> rc = NGX_ERROR"
    "q \<noteq> path \<Longrightarrow> os_files (dk_os d') q = os_files (dk_os d) q"
    "rc \<noteq> NGX_OK \<Longrightarrow> file_kept H soft (os_files (dk_os d) path) (os_files (dk_os d') path)"
    "os_fault (dk_os d') = os_fault (dk_os d)" "os_room (dk_os d') = os_room (dk_os d)"
    "rc = NGX_OK \<longleftrightarrow> path \<in> dom (os_files (dk_os d)) \<and> \<not> refused H soft (dk_os d) path"
    "soft \<Longrightarrow> dom (os_files (dk_os d')) = dom (os_files (dk_os d))" by blast+
qed

lemma file_kept_purged:
  assumes "http_core_ok H" and "file_kept H soft (os_files o0 p) (os_files o1 p)" and "path_purged H soft o0 p"
  shows "path_purged H soft o1 p"
  using assms(2,3) header_torn_body(2) [OF assms(1)] by (auto simp: path_purged_def file_kept_def split: if_splits)

lemma file_kept_there: "file_kept H soft f0 g0 \<Longrightarrow> g0 = None \<longleftrightarrow> f0 = None"
  by (auto simp: file_kept_def)

lemma by_path_keeps_purged:
  assumes H: "http_core_ok H" and "by_path N H d path soft = (rc, d')" and "path_purged H soft (dk_os d) q"
  shows "path_purged H soft (dk_os d') q"
proof (cases "q = path")
  case True
  then show ?thesis
    using by_path_cases(1,5) [OF assms(1,2)] file_kept_purged [OF H] assms(3) by (cases "rc = NGX_OK") auto
next
  case False
  with by_path_cases(4) [OF assms(1,2) False] assms(3) show ?thesis by (simp add: path_purged_def)
qed

section \<open>The cache zone\<close>

text \<open>Bytes in use: the size the zone reports minus the sizes of its nodes never changes.\<close>

definition cache_bytes :: "file_cache \<Rightarrow> int" where
  "cache_bytes fc = (\<Sum>a \<in> dom (fc_nodes fc). cn_fs_size (the (fc_nodes fc a)))"

definition cache_slack :: "file_cache \<Rightarrow> int" where
  "cache_slack fc = fc_size fc - cache_bytes fc"

definition cache_ok :: "file_cache \<Rightarrow> bool" where
  "cache_ok fc \<longleftrightarrow> cache_wf fc \<and> finite (dom (fc_nodes fc))"

lemma dom_upd_node [simp]: "dom (fc_nodes (upd_node g a fc)) = dom (fc_nodes fc)"
  by (auto simp: upd_node_def split: if_splits)

lemma cache_wf_upd:
  assumes "cache_wf fc" and "\<And>n. cn_key (g n) = cn_key n \<and> cn_node_key (g n) = cn_node_key n"
  shows "cache_wf (upd_node g a fc)"
proof -
  have dom: "dom (fc_nodes (upd_node g a fc)) = dom (fc_nodes fc)"
    by (auto simp: upd_node_def split: if_splits)
  have "tree_of memn2cmp_ref (\<lambda>b. cn_node_key (the (fc_nodes (upd_node g a fc) b)))
      (\<lambda>b. cn_key (the (fc_nodes (upd_node g a fc) b))) (fc_tree fc) (dom (fc_nodes fc))"
  proof (rule tree_of_cong [THEN iffD2])
    show "tree_of memn2cmp_ref (\<lambda>a. cn_node_key (the (fc_nodes fc a))) (\<lambda>a. cn_key (the (fc_nodes fc a)))
       (fc_tree fc) (dom (fc_nodes fc))" using assms(1) by (simp add: cache_wf_def)
  qed (auto simp: upd_node_def assms(2))
  moreover have "\<forall>b n. fc_nodes (upd_node g a fc) b = Some n \<longrightarrow> length (cn_key n) = 8"
    using assms by (auto simp: cache_wf_def upd_node_def)
  ultimately show ?thesis unfolding cache_wf_def dom by (simp add: upd_node_def)
qed

lemma cache_wf_size [simp]: "cache_wf (fc\<lparr>fc_size := n\<rparr>) = cache_wf fc"
  by (simp add: cache_wf_def)

lemma node_of_path_dom:
  assumes "cache_wf fc" and "node_of_path N fc path = Some a"
  shows "\<exists>n. fc_nodes fc a = Some n \<and> cn_exists n"
  using assms cache_lookup_iff [OF assms(1) filename_key_length]
  by (fastforce simp: node_of_path_def split: option.splits if_splits)

lemma cache_ok_drop: "cache_ok fc \<Longrightarrow> cache_ok (drop_node N fc path)"
  by (simp add: cache_ok_def drop_node_def mark_node_deleted_def cache_wf_upd split: option.splits)

lemma cache_ok_expire: "cache_ok fc \<Longrightarrow> cache_ok (expire_node N fc path)"
  by (simp add: cache_ok_def expire_node_def cache_wf_upd split: option.splits)

lemma cache_slack_mark:
  assumes "finite (dom (fc_nodes fc))" and "fc_nodes fc a = Some n"
  shows "cache_slack (mark_node_deleted fc a) = cache_slack fc"
proof -
  let ?fc = "mark_node_deleted fc a"
  have dom: "dom (fc_nodes ?fc) = dom (fc_nodes fc)"
    by (auto simp: mark_node_deleted_def upd_node_def split: if_splits)
  have a: "a \<in> dom (fc_nodes fc)" using assms(2) by auto
  have "cache_bytes ?fc = (\<Sum>b \<in> dom (fc_nodes fc) - {a}. cn_fs_size (the (fc_nodes ?fc b))) +
      cn_fs_size (the (fc_nodes ?fc a))"
    unfolding cache_bytes_def dom by (simp add: sum.remove [OF assms(1) a])
  also have "(\<Sum>b \<in> dom (fc_nodes fc) - {a}. cn_fs_size (the (fc_nodes ?fc b))) =
      (\<Sum>b \<in> dom (fc_nodes fc) - {a}. cn_fs_size (the (fc_nodes fc b)))"
    by (rule sum.cong) (auto simp: mark_node_deleted_def upd_node_def)
  also have "cn_fs_size (the (fc_nodes ?fc a)) = 0"
    using assms(2) by (simp add: mark_node_deleted_def upd_node_def)
  also have "(\<Sum>b \<in> dom (fc_nodes fc) - {a}. cn_fs_size (the (fc_nodes fc b))) = cache_bytes fc - cn_fs_size n"
    unfolding cache_bytes_def using assms(2) by (simp add: sum.remove [OF assms(1) a])
  finally show ?thesis
    using assms(2) by (simp add: cache_slack_def mark_node_deleted_def upd_node_def)
qed

lemma cache_slack_drop: "cache_ok fc \<Longrightarrow> cache_slack (drop_node N fc path) = cache_slack fc"
  using node_of_path_dom cache_slack_mark
  by (fastforce simp: cache_ok_def drop_node_def split: option.splits)

lemma cache_slack_expire:
  assumes "cache_ok fc"
  shows "cache_slack (expire_node N fc path) = cache_slack fc"
proof (cases "node_of_path N fc path")
  case None
  then show ?thesis by (simp add: expire_node_def)
next
  case (Some a)
  let ?fc = "upd_node (\<lambda>n. n\<lparr>cn_valid_sec := 0\<rparr>) a fc"
  have "dom (fc_nodes ?fc) = dom (fc_nodes fc)" by (auto simp: upd_node_def split: if_splits)
  moreover have "cn_fs_size (the (fc_nodes ?fc b)) = cn_fs_size (the (fc_nodes fc b))"
    if "b \<in> dom (fc_nodes fc)" for b using that by (auto simp: upd_node_def)
  ultimately have "cache_bytes ?fc = cache_bytes fc" unfolding cache_bytes_def by (auto intro: sum.cong)
  with Some show ?thesis by (simp add: expire_node_def cache_slack_def upd_node_def)
qed

lemma by_path_cache:
  assumes H: "http_core_ok H" and p: "by_path N H d path soft = (rc, d')"
  shows "dk_cache d' \<in> {dk_cache d, drop_node N (dk_cache d) path, expire_node N (dk_cache d) path}"
    and "rc = NGX_OK \<Longrightarrow> dk_cache d' =
      (if soft then expire_node N (dk_cache d) path else drop_node N (dk_cache d) path)"
proof -
  show "rc = NGX_OK \<Longrightarrow> dk_cache d' =
      (if soft then expire_node N (dk_cache d) path else drop_node N (dk_cache d) path)"
    using p soft_path_cases(1) [OF H] delete_cache_file_cases(1)
    by (cases soft) (auto simp: by_path_def, blast+)
  show "dk_cache d' \<in> {dk_cache d, drop_node N (dk_cache d) path, expire_node N (dk_cache d) path}"
  proof (cases soft)
    case True
    then have s: "soft_path N H d path = (rc, d')" using p by (simp add: by_path_def)
    from soft_path_cases(1,2) [OF H s] show ?thesis by (cases "rc = NGX_OK") auto
  next
    case False
    then have s: "delete_cache_file N d path = (rc, d')" using p by (simp add: by_path_def)
    from delete_cache_file_cases [OF s] show ?thesis by auto
  qed
qed

lemma by_path_accounts:
  assumes "http_core_ok H" and "cache_ok (dk_cache d)" and "by_path N H d path soft = (rc, d')"
  shows "cache_ok (dk_cache d')" and "cache_slack (dk_cache d') = cache_slack (dk_cache d)"
  using by_path_cache(1) [OF assms(1,3)] assms(2)
  by (auto simp: cache_ok_drop cache_ok_expire cache_slack_drop cache_slack_expire)

section \<open>A concrete instance of nginx's cache\<close>

text \<open>A header of nine bytes: the version and eight bytes of time; a walk of a fixed list of
  candidate paths.\<close>

fun le_bytes :: "nat \<Rightarrow> nat \<Rightarrow> string" where
  "le_bytes 0 v = []"
| "le_bytes (Suc n) v = char_of (v mod 256) # le_bytes n (v div 256)"

fun le_value :: "string \<Rightarrow> nat" where
  "le_value [] = 0"
| "le_value (c # cs) = of_char c + 256 * le_value cs"

lemma le_value_bytes: "le_value (le_bytes n v) = v mod 256 ^ n"
proof (induction n arbitrary: v)
  case (Suc n)
  then show ?case by (simp add: mod_mult2_eq)
qed simp

lemma le_bytes_value: "le_bytes (length s) (le_value s) = s"
proof (induction s)
  case (Cons c s)
  have "(of_char c :: nat) < 256" by (rule nat_of_char_less_256)
  then have "(of_char c + 256 * le_value s) mod 256 = (of_char c :: nat)"
    "(of_char c + 256 * le_value s) div 256 = le_value s" by simp_all
  then show ?case using Cons by simp
qed simp

lemma le_value_less: "le_value s < 256 ^ length s"
proof (induction s)
  case (Cons c s)
  have "(of_char c :: nat) < 256" by (rule nat_of_char_less_256)
  moreover have "256 * (le_value s + 1) \<le> 256 * 256 ^ length s" using Cons by (intro mult_le_mono2) simp
  moreover have "a + 256 * b < m" if "a < 256" "256 * (b + 1) \<le> m" for a b m :: nat using that by simp
  ultimately have "of_char c + 256 * le_value s < 256 * 256 ^ length s" by blast
  then show ?case by simp
qed simp

lemma length_le_bytes [simp]: "length (le_bytes n v) = n"
  by (induction n arbitrary: v) auto

definition ref_version :: "string \<Rightarrow> nat" where
  "ref_version h = of_char (h ! 0)"

definition ref_get_valid :: "string \<Rightarrow> int" where
  "ref_get_valid h = (let n = int (le_value (drop 1 h)) in if n < 2 ^ 63 then n else n - 2 ^ 64)"

definition ref_put_valid :: "string \<Rightarrow> int \<Rightarrow> string" where
  "ref_put_valid h v = take 1 h @ le_bytes 8 (nat (v mod 2 ^ 64))"

definition http_with :: "(os \<Rightarrow> ngx_str \<Rightarrow> ngx_str list \<times> bool) \<Rightarrow> http_core" where
  "http_with walk = \<lparr>sizeof_cache_header = 9, cache_version = 5,
     header_version = ref_version, header_valid_sec = ref_get_valid, header_put_valid_sec = ref_put_valid,
     walk_tree = walk\<rparr>"

definition http_ref :: "ngx_str list \<Rightarrow> http_core" where
  "http_ref files = http_with (\<lambda>o0 root.
     (filter (\<lambda>p. p \<in> dom (os_files o0) \<and> below root p) (remdups files), dom (os_files o0) \<subseteq> set files))"

lemma http_ref_ok [simp]: "http_core_ok (http_ref files)"
proof -
  have v: "(let n = int (le_value (le_bytes 8 (nat (v mod 2 ^ 64)))) in if n < 2 ^ 63 then n else n - 2 ^ 64) = v"
    if "- (2 ^ 63) \<le> v" "v < 2 ^ 63" for v :: int
  proof -
    have "int (le_value (le_bytes 8 (nat (v mod 2 ^ 64)))) = v mod 2 ^ 64"
      by (simp add: le_value_bytes nat_mod_distrib)
    moreover have "v mod 2 ^ 64 = (if 0 \<le> v then v else v + 2 ^ 64)"
    proof (cases "0 \<le> v")
      case False
      then have "(v + 2 ^ 64) mod 2 ^ 64 = v + 2 ^ 64" using that by (intro mod_pos_pos_trivial) auto
      then show ?thesis using False by simp
    qed (use that in simp)
    ultimately show ?thesis using that by (simp add: Let_def)
  qed
  have again: "ref_put_valid h (ref_get_valid h) = h" if "length h = 9" for h
  proof -
    let ?n = "int (le_value (drop 1 h))"
    have "le_value (drop 1 h) < 2 ^ 64" using le_value_less [of "drop 1 h"] that by simp
    then have n: "0 \<le> ?n" "?n < 2 ^ 64" by simp_all
    have "ref_get_valid h mod 2 ^ 64 = ?n"
    proof (cases "?n < 2 ^ 63")
      case False
      have "(?n - 2 ^ 64) mod 2 ^ 64 = ?n mod 2 ^ 64" by simp
      then show ?thesis using False n by (simp add: ref_get_valid_def)
    qed (use n in \<open>simp add: ref_get_valid_def\<close>)
    moreover have "le_bytes 8 (le_value (drop 1 h)) = drop 1 h" using le_bytes_value [of "drop 1 h"] that by simp
    ultimately show ?thesis by (simp add: ref_put_valid_def)
  qed
  have "drop 1 (take 1 h) = []" "take 1 h ! 0 = h ! 0" if "length h = 9" for h :: string using that by auto
  with v again show ?thesis by (auto simp: http_core_ok_def http_ref_def http_with_def ref_version_def
      ref_get_valid_def ref_put_valid_def nth_append min_def)
qed

end
