(* ===== verification/Cache_Theorems.thy ===== *)
theory Cache_Theorems
  imports Cache_File_Spec
begin

text \<open>
  The correctness theorems of purging one cache file: which node a path names, what the hard and
  the soft purge do to the disk and to the cache zone, and the accounting of the zone.
\<close>

section \<open>A concrete cache\<close>

definition demo_key :: string where
  "demo_key = ''0123456789abcdef''"

definition demo_path :: ngx_str where
  "demo_path = ''/c'' @ ''/'' @ hex_dump demo_key"

definition demo_file :: os_file where
  "demo_file = \<lparr>fl_bytes = char_of (5 :: nat) # ''AAAAAAAAbody'', fl_mtime = 3\<rparr>"

definition demo_node :: cache_node where
  "demo_node = \<lparr>cn_node_key = tree_key demo_key, cn_key = drop 8 demo_key, cn_exists = True,
     cn_updating = False, cn_valid_sec = 99, cn_fs_size = 2, cn_lock_time = 0\<rparr>"

definition demo_disk :: disk where
  "demo_disk = \<lparr>dk_os = \<lparr>os_files = [demo_path \<mapsto> demo_file], os_fault = \<lambda>_ _. False, os_tree = \<lambda>_. Unreadable,
       os_room = \<lambda>_. 4096, os_clock = 9\<rparr>,
     dk_cache = \<lparr>fc_name = ''z'', fc_path = ''/c'', fc_tree = RbNode False Sentinel (tree_key demo_key) 4 Sentinel,
       fc_nodes = [4 \<mapsto> demo_node], fc_size = 7, fc_max_size = 100, fc_cold = False\<rparr>\<rparr>"

definition demo_http :: http_core where
  "demo_http = http_ref [demo_path]"

lemma demo_http_ok [simp]: "http_core_ok demo_http"
  by (simp add: demo_http_def)

lemma demo_cache_ok [simp]: "cache_ok (dk_cache demo_disk)" "cache_wf (dk_cache demo_disk)"
  by (simp_all add: cache_ok_def cache_wf_def demo_disk_def demo_node_def tree_of_def demo_key_def)

lemma demo_files [simp]: "os_files (dk_os demo_disk) = [demo_path \<mapsto> demo_file]"
  by (simp add: demo_disk_def)

lemma demo_node_of_path: "node_of_path (core_ref 0) (dk_cache demo_disk) demo_path = Some 4"
proof -
  have "filename_key (core_ref 0) demo_path = Some demo_key"
    unfolding demo_path_def by (rule filename_key_dump) (simp_all add: demo_key_def key_bytes_def)
  moreover have "cache_lookup (dk_cache demo_disk) demo_key = Some 4"
    unfolding cache_lookup_iff [OF demo_cache_ok(2), of demo_key, simplified demo_key_def [THEN arg_cong [where f = length]], simplified]
    by (simp add: demo_disk_def node_full_key_def demo_node_def)
  ultimately show ?thesis by (simp add: node_of_path_def demo_disk_def demo_node_def)
qed

lemma demo_mark: "fc_size (mark_node_deleted (dk_cache demo_disk) 4) = 5"
  by (simp add: demo_disk_def demo_node_def mark_node_deleted_def upd_node_def)

section \<open>The node of a file\<close>

text \<open>C27: The name nginx gives a cache file leads to exactly its node: for a file named by the
  hexadecimal dump of a 16-byte cache key, in any directory, the key is read back from the name,
  and the search of the red-black tree of a well-formed zone returns a node if and only if it is
  the node of the zone that carries that whole key.\<close>

theorem path_names_node:
  assumes "ngx_core_ok N" and "cache_wf fc" and "length key = key_bytes"
  shows "filename_key N (dir @ ''/'' @ hex_dump key) = Some key \<and>
    (cache_lookup fc key = Some a \<longleftrightarrow>
       (\<exists>n. fc_nodes fc a = Some n \<and> cn_node_key n = tree_key key \<and> cn_key n = drop 8 key)) \<and>
    (\<forall>key2. length key2 = key_bytes \<and> tree_key key2 = tree_key key \<and> drop 8 key2 = drop 8 key \<longrightarrow> key2 = key)"
proof -
  have "key2 = key" if "length key2 = key_bytes" "tree_key key2 = tree_key key" "drop 8 key2 = drop 8 key" for key2
  proof -
    have "tree_key (take 8 key2) = tree_key (take 8 key)" using that(2) by (simp add: tree_key_def)
    then have "take 8 key2 = take 8 key" by (intro tree_key_inj) (use that(1) assms(3) in \<open>auto simp: key_bytes_def\<close>)
    with that(3) show ?thesis by (metis append_take_drop_id)
  qed
  then show ?thesis
    using filename_key_dump [OF assms(1,3)] cache_lookup_iff [OF assms(2)] assms(3)
    by (simp add: node_full_key_def key_bytes_def)
qed

theorem path_names_node_witness:
  "filename_key (core_ref 0) (''/c'' @ ''/'' @ hex_dump demo_key) = Some demo_key \<and>
   cache_lookup (dk_cache demo_disk) demo_key = Some 4"
proof -
  have len: "length demo_key = key_bytes" by (simp add: demo_key_def key_bytes_def)
  from path_names_node [OF core_ref_ok demo_cache_ok(2) len, of 0 "''/c''" 4] show ?thesis
    by (simp add: demo_disk_def demo_node_def)
qed

section \<open>The two purges of a path\<close>

text \<open>C28: A hard purge of a path returns one of three codes and each says what happened:
  \<open>NGX_OK\<close> - the file was there and is gone, every other file is untouched, and the node of its key,
  if there is a live one, is marked deleted with the bytes it accounted for given back;
  \<open>NGX_DECLINED\<close> - there was no such file and nothing changed; \<open>NGX_ERROR\<close> - the file is still
  there and no file changed.\<close>

theorem hard_purge_outcome:
  assumes "delete_cache_file N d path = (rc, d')"
  shows "(rc = NGX_OK \<and> path \<in> dom (os_files (dk_os d)) \<and>
      os_files (dk_os d') = (os_files (dk_os d))(path := None) \<and>
      (case node_of_path N (dk_cache d) path of
         None \<Rightarrow> dk_cache d' = dk_cache d
       | Some a \<Rightarrow> dk_cache d' = mark_node_deleted (dk_cache d) a)) \<or>
    (rc = NGX_DECLINED \<and> path \<notin> dom (os_files (dk_os d)) \<and> d' = d) \<or>
    (rc = NGX_ERROR \<and> path \<in> dom (os_files (dk_os d)) \<and> dk_os d' = dk_os d)"
  using delete_cache_file_cases [OF assms] by (auto simp: drop_node_def split: option.splits)

theorem hard_purge_outcome_witness:
  "let (rc, d') = delete_cache_file (core_ref 0) demo_disk demo_path
   in rc \<noteq> NGX_DECLINED \<and> (rc = NGX_OK \<longrightarrow> demo_path \<notin> dom (os_files (dk_os d')) \<and> fc_size (dk_cache d') = 5)"
proof -
  obtain rc d' where d: "delete_cache_file (core_ref 0) demo_disk demo_path = (rc, d')" by fastforce
  from hard_purge_outcome [OF d] show ?thesis
    by (auto simp: d demo_node_of_path demo_mark)
qed

text \<open>C29: What a soft purge of a path leaves behind, on every return code.  It returns \<open>NGX_OK\<close> if and
  only if the file is there, every system call works, the header is one of this version and its write
  gets through in full; then the header says that the file expired, its length and its body and every
  other file are untouched, and the live node of its key, if any, is expired too.  \<open>NGX_DECLINED\<close>
  means that there is no such file, and nothing changed.  On \<open>NGX_ERROR\<close> the cache zone is exactly as
  before, so it never says that a file expired when the write failed; no file changed, or only the
  header of this one is torn: some first bytes are those of the expired header and all others those
  that were there, so the body is kept, and a file that had expired stays so.\<close>

theorem soft_purge_outcome:
  assumes "http_core_ok H" and "soft_path N H d path = (rc, d')"
  shows "(rc = NGX_OK \<longleftrightarrow> path \<in> dom (os_files (dk_os d)) \<and> \<not> refused H True (dk_os d) path) \<and>
    (rc = NGX_OK \<and> (\<exists>f g. os_files (dk_os d) path = Some f \<and>
        os_files (dk_os d') = (os_files (dk_os d))(path \<mapsto> g) \<and> file_expired H g \<and> same_body H f g) \<and>
      (case node_of_path N (dk_cache d) path of
         None \<Rightarrow> dk_cache d' = dk_cache d
       | Some a \<Rightarrow> dk_cache d' = upd_node (\<lambda>n. n\<lparr>cn_valid_sec := 0\<rparr>) a (dk_cache d)) \<or>
     rc = NGX_DECLINED \<and> path \<notin> dom (os_files (dk_os d)) \<and> d' = d \<or>
     rc = NGX_ERROR \<and> dk_cache d' = dk_cache d \<and>
      (dk_os d' = dk_os d \<or> (\<exists>f g. os_files (dk_os d) path = Some f \<and>
         os_files (dk_os d') = (os_files (dk_os d))(path \<mapsto> g) \<and> header_torn H f g \<and> same_body H f g \<and>
         (file_expired H f \<longrightarrow> file_expired H g))))"
proof -
  note c = soft_path_cases [OF assms]
  show ?thesis
  proof (cases "rc = NGX_OK")
    case True
    from c(1) [OF True] obtain f g where "os_files (dk_os d) path = Some f"
      "dk_os d' = (dk_os d)\<lparr>os_files := (os_files (dk_os d))(path \<mapsto> g)\<rparr>" "file_expired H g" "same_body H f g"
      "dk_cache d' = expire_node N (dk_cache d) path" by blast
    with True c(5) show ?thesis by (auto simp: expire_node_def split: option.splits)
  next
    case False
    from c(2) [OF False] show ?thesis
    proof
      assume "d' = d"
      then show ?thesis using c(3-5) False by auto
    next
      assume "rc = NGX_ERROR \<and> (\<exists>f g. os_files (dk_os d) path = Some f \<and>
        d' = d\<lparr>dk_os := (dk_os d)\<lparr>os_files := (os_files (dk_os d))(path \<mapsto> g)\<rparr>\<rparr> \<and> header_torn H f g)"
      then obtain f g where fg: "rc = NGX_ERROR" "os_files (dk_os d) path = Some f" "header_torn H f g"
        "d' = d\<lparr>dk_os := (dk_os d)\<lparr>os_files := (os_files (dk_os d))(path \<mapsto> g)\<rparr>\<rparr>" by blast
      then show ?thesis using c(5) header_torn_body [OF assms(1) fg(3)] by auto
    qed
  qed
qed

text \<open>The write to the demo file, in full and cut short.\<close>

definition short_disk :: disk where
  "short_disk = demo_disk\<lparr>dk_os := (dk_os demo_disk)\<lparr>os_room := (\<lambda>_. 3)\<rparr>\<rparr>"

lemma demo_usable: "\<not> refused demo_http True (dk_os demo_disk) demo_path" "refused demo_http True (dk_os short_disk) demo_path"
  by (simp_all add: refused_def demo_http_def http_ref_def http_with_def demo_disk_def short_disk_def demo_file_def ref_version_def)

theorem soft_purge_outcome_witness:
  "let (rc, d') = soft_path (core_ref 0) demo_http demo_disk demo_path;
       (rc2, d2) = soft_path (core_ref 0) demo_http short_disk demo_path
   in rc = NGX_OK \<and> (\<exists>g. os_files (dk_os d') demo_path = Some g \<and> file_expired demo_http g) \<and>
      rc2 = NGX_ERROR \<and> dk_cache d2 = dk_cache demo_disk"
proof -
  obtain rc d' where d: "soft_path (core_ref 0) demo_http demo_disk demo_path = (rc, d')" by fastforce
  obtain rc2 d2 where d2: "soft_path (core_ref 0) demo_http short_disk demo_path = (rc2, d2)" by fastforce
  have s: "os_files (dk_os short_disk) = [demo_path \<mapsto> demo_file]" "dk_cache short_disk = dk_cache demo_disk"
    by (simp_all add: short_disk_def)
  from soft_purge_outcome [OF demo_http_ok d] soft_purge_outcome [OF demo_http_ok d2] demo_usable s
  show ?thesis by (auto simp: d d2)
qed

section \<open>Accounting\<close>

text \<open>C30: Purging a path, hard or soft, keeps the cache zone well-formed and its accounting
  right: the size the zone reports and the sizes of its nodes change by the same amount, on every
  return code.\<close>

theorem purge_keeps_accounts:
  assumes "http_core_ok H" and "cache_ok (dk_cache d)" and "by_path N H d path soft = (rc, d')"
  shows "cache_ok (dk_cache d') \<and>
    fc_size (dk_cache d') - cache_bytes (dk_cache d') = fc_size (dk_cache d) - cache_bytes (dk_cache d)"
  using by_path_accounts [OF assms] by (simp add: cache_slack_def)

theorem purge_keeps_accounts_witness:
  "let (rc, d') = by_path (core_ref 0) demo_http demo_disk demo_path False
   in fc_size (dk_cache d') - cache_bytes (dk_cache d') = 5"
proof -
  obtain rc d' where d: "by_path (core_ref 0) demo_http demo_disk demo_path False = (rc, d')" by fastforce
  from purge_keeps_accounts [OF demo_http_ok demo_cache_ok(1) d] show ?thesis
    by (simp add: d) (simp add: demo_disk_def cache_bytes_def demo_node_def)
qed

end
