(* ===== verification/Tokens.thy ===== *)
theory Tokens
  imports Store_Collect Os
begin

text \<open>
  Reading tags: \<open>extract_tokens\<close> and \<open>push_unique\<close>, the header loops of requests and responses,
  and \<open>parse_file\<close> and \<open>process_file\<close>, which index one cache file from its bytes on disk
  (\<^verbatim>\<open>src/src/ngx_cache_pilot_index_store.c\<close>, \<^verbatim>\<open>src/src/ngx_cache_pilot_index.c\<close>,
  \<^verbatim>\<open>src/src/ngx_cache_pilot_index_runtime.c\<close>).
\<close>

section \<open>Tokens\<close>

definition max_tokens_per_scan :: nat where
  "max_tokens_per_scan = 1000"

definition is_sep :: "char \<Rightarrow> bool" where
  "is_sep c \<longleftrightarrow> c = CHR '' '' \<or> c = CHR 0x09 \<or> c = CHR 0x0D \<or> c = CHR 0x0A \<or> c = CHR '',''"

definition is_blank :: "char \<Rightarrow> bool" where
  "is_blank c \<longleftrightarrow> c = CHR '' '' \<or> c = CHR 0x09"

definition is_eol :: "char \<Rightarrow> bool" where
  "is_eol c \<longleftrightarrow> c = CHR 0x0A \<or> c = CHR 0x0D"

definition push_unique ::
  "ngx_core \<Rightarrow> pool \<Rightarrow> ngx_str list \<Rightarrow> ngx_str \<Rightarrow> ngx_rc \<times> pool \<times> ngx_str list" where
  "push_unique N pl tags d =
     (if length d = 0 then (NGX_OK, pl, tags)
      else if list_ex (\<lambda>t. length t = length d \<and> strncasecmp N t d (length d) = 0) tags
      then (NGX_OK, pl, tags)
      else (case pool_alloc pl of
          (False, pl1) \<Rightarrow> (NGX_ERROR, pl1, tags)
        | (True, pl1) \<Rightarrow>
            (case pool_alloc pl1 of
               (False, pl2) \<Rightarrow> (NGX_ERROR, pl2, tags)
             | (True, pl2) \<Rightarrow> (NGX_OK, pl2, tags @ [d]))))"

function extract_tokens ::
  "ngx_core \<Rightarrow> pool \<Rightarrow> string \<Rightarrow> ngx_str list \<Rightarrow> ngx_rc \<times> pool \<times> ngx_str list" where
  "extract_tokens N pl val tags =
     (if val = [] then (NGX_OK, pl, tags)
      else
        let from_start = dropWhile is_sep val;
            token = takeWhile (\<lambda>c. \<not> is_sep c) from_start;
            rest = dropWhile (\<lambda>c. \<not> is_sep c) from_start
        in if token \<noteq> [] then
             (if length tags \<ge> max_tokens_per_scan then (NGX_OK, pl, tags)
              else (case push_unique N pl tags token of
                  (rc, pl1, tags1) \<Rightarrow>
                    if rc \<noteq> NGX_OK then (NGX_ERROR, pl1, tags1)
                    else extract_tokens N pl1 rest tags1))
           else extract_tokens N pl rest tags)"
  by pat_completeness auto

lemma rest_shorter:
  assumes "val \<noteq> []"
  shows "length (dropWhile (\<lambda>c. \<not> is_sep c) (dropWhile is_sep val)) < length val"
proof (cases "is_sep (hd val)")
  case True
  then have "length (dropWhile is_sep val) < length val"
    using assms by (cases val) (auto simp: length_dropWhile_le le_imp_less_Suc)
  then show ?thesis using length_dropWhile_le order.strict_trans1 by blast
next
  case False
  with assms show ?thesis by (cases val) (auto simp: length_dropWhile_le le_imp_less_Suc)
qed

termination extract_tokens
  by (relation "measure (\<lambda>(N, pl, v, tags). length v)") (auto simp: rest_shorter)

declare extract_tokens.simps [simp del]

section \<open>Tag headers\<close>

text \<open>The headers of a message are a list of name and value; the list of parts in the code is the
  same sequence.\<close>

fun wanted_loop ::
  "ngx_core \<Rightarrow> pool \<Rightarrow> ngx_str \<times> ngx_str \<Rightarrow> ngx_str list \<Rightarrow> ngx_str list \<Rightarrow> ngx_rc \<times> pool \<times> ngx_str list" where
  "wanted_loop N pl h [] tags = (NGX_OK, pl, tags)"
| "wanted_loop N pl h (w # ws) tags =
     (if length (fst h) \<noteq> length w then wanted_loop N pl h ws tags
      else if strncasecmp N (fst h) w (length w) \<noteq> 0 then wanted_loop N pl h ws tags
      else (case extract_tokens N pl (snd h) tags of
          (rc, pl1, tags1) \<Rightarrow>
            if rc \<noteq> NGX_OK then (NGX_ERROR, pl1, tags1) else wanted_loop N pl1 h ws tags1))"

fun headers_loop ::
  "ngx_core \<Rightarrow> pool \<Rightarrow> (ngx_str \<times> ngx_str) list \<Rightarrow> ngx_str list \<Rightarrow> ngx_str list \<Rightarrow>
     ngx_rc \<times> pool \<times> ngx_str list" where
  "headers_loop N pl [] wanted tags = (NGX_OK, pl, tags)"
| "headers_loop N pl (h # hs) wanted tags =
     (case wanted_loop N pl h wanted tags of
        (rc, pl1, tags1) \<Rightarrow>
          if rc \<noteq> NGX_OK then (NGX_ERROR, pl1, tags1) else headers_loop N pl1 hs wanted tags1)"

definition request_headers ::
  "ngx_core \<Rightarrow> pool \<Rightarrow> bool \<Rightarrow> ngx_str list \<Rightarrow> (ngx_str \<times> ngx_str) list \<Rightarrow>
     ngx_rc \<times> pool \<times> ngx_str list option" where
  "request_headers N pl location_enabled wanted headers_in =
     (if \<not> location_enabled then (NGX_DECLINED, pl, None)
      else (case pool_alloc pl of
          (False, pl1) \<Rightarrow> (NGX_ERROR, pl1, None)
        | (True, pl1) \<Rightarrow>
            (case headers_loop N pl1 headers_in wanted [] of
               (rc, pl2, result) \<Rightarrow>
                 if rc \<noteq> NGX_OK then (NGX_ERROR, pl2, None)
                 else (if length result > 0 then NGX_OK else NGX_DECLINED, pl2, Some result))))"

definition response_headers ::
  "ngx_core \<Rightarrow> pool \<Rightarrow> ngx_str list \<Rightarrow> (ngx_str \<times> ngx_str) list \<Rightarrow>
     ngx_rc \<times> pool \<times> ngx_str list option" where
  "response_headers N pl wanted headers_out =
     (case pool_alloc pl of
        (False, pl1) \<Rightarrow> (NGX_ERROR, pl1, None)
      | (True, pl1) \<Rightarrow>
          (case headers_loop N pl1 headers_out wanted [] of
             (rc, pl2, result) \<Rightarrow>
               if rc \<noteq> NGX_OK then (NGX_ERROR, pl2, None) else (NGX_OK, pl2, Some result)))"

section \<open>Cache files\<close>

definition cache_key_len :: nat where
  "cache_key_len = 16"

definition base_name :: "ngx_str \<Rightarrow> ngx_str" where
  "base_name path = rev (takeWhile (\<lambda>c. c \<noteq> CHR ''/'') (rev path))"

definition path_known :: "ngx_str \<Rightarrow> bool" where
  "path_known path \<longleftrightarrow> length (base_name path) = 2 * cache_key_len"

text \<open>The value that starts at an offset: without leading blanks, up to the end of the line.\<close>

definition line_value :: "string \<Rightarrow> nat \<Rightarrow> string" where
  "line_value buf i = takeWhile (\<lambda>c. \<not> is_eol c) (dropWhile is_blank (drop i buf))"

fun parse_headers_loop ::
  "ngx_core \<Rightarrow> pool \<Rightarrow> string \<Rightarrow> nat \<Rightarrow> ngx_str list \<Rightarrow> ngx_str list \<Rightarrow> ngx_rc \<times> pool \<times> ngx_str list" where
  "parse_headers_loop N pl buf i [] tags = (NGX_OK, pl, tags)"
| "parse_headers_loop N pl buf i (h # hs) tags =
     (if i + length h + 1 \<ge> length buf then parse_headers_loop N pl buf i hs tags
      else if strncasecmp N (drop i buf) h (length h) \<noteq> 0 \<or> buf ! (i + length h) \<noteq> CHR '':''
      then parse_headers_loop N pl buf i hs tags
      else (case extract_tokens N pl (line_value buf (i + length h + 1)) tags of
          (rc, pl1, tags1) \<Rightarrow>
            if rc \<noteq> NGX_OK then (NGX_ERROR, pl1, tags1)
            else parse_headers_loop N pl1 buf i hs tags1))"

definition parse_key_line ::
  "ngx_core \<Rightarrow> pool \<Rightarrow> string \<Rightarrow> nat \<Rightarrow> ngx_str \<Rightarrow> ngx_rc \<times> pool \<times> ngx_str" where
  "parse_key_line N pl buf i key =
     (if length key = 0 \<and> i + 4 \<le> length buf \<and> strncasecmp N (drop i buf) ''KEY:'' 4 = 0
      then (let val = line_value buf (i + 4) in
            if val \<noteq> [] then
              (case pool_alloc pl of
                 (False, pl1) \<Rightarrow> (NGX_ERROR, pl1, key)
               | (True, pl1) \<Rightarrow> (NGX_OK, pl1, val))
            else (NGX_OK, pl, key))
      else (NGX_OK, pl, key))"

fun parse_loop ::
  "ngx_core \<Rightarrow> pool \<Rightarrow> string \<Rightarrow> ngx_str list option \<Rightarrow> nat list \<Rightarrow> ngx_str \<Rightarrow> ngx_str list \<Rightarrow>
     ngx_rc \<times> pool \<times> ngx_str \<times> ngx_str list" where
  "parse_loop N pl buf headers [] key tags = (NGX_OK, pl, key, tags)"
| "parse_loop N pl buf headers (i # is) key tags =
     (if i \<noteq> 0 \<and> buf ! (i - 1) \<noteq> CHR 0x0A then parse_loop N pl buf headers is key tags
      else (case parse_key_line N pl buf i key of
          (rc, pl1, key1) \<Rightarrow>
            if rc \<noteq> NGX_OK then (NGX_ERROR, pl1, key1, tags)
            else (case headers of
                None \<Rightarrow> parse_loop N pl1 buf headers is key1 tags
              | Some hs \<Rightarrow>
                  (case parse_headers_loop N pl1 buf i hs tags of
                     (rc2, pl2, tags2) \<Rightarrow>
                       if rc2 \<noteq> NGX_OK then (NGX_ERROR, pl2, key1, tags2)
                       else parse_loop N pl2 buf headers is key1 tags2))))"

record parsed =
  pf_tags :: "ngx_str list"
  pf_key :: ngx_str
  pf_mtime :: int
  pf_size :: int

definition parse_file ::
  "ngx_core \<Rightarrow> os \<Rightarrow> pool \<Rightarrow> ngx_str \<Rightarrow> ngx_str list option \<Rightarrow> ngx_rc \<times> parsed option" where
  "parse_file N o0 pl path headers =
     (if \<not> path_known path then (NGX_DECLINED, None)
      else (case file_info o0 path of
        SysOk (fsize, mtime) \<Rightarrow>
          (let max_read = min 65536 fsize in
           if max_read = 0 then (NGX_DECLINED, None)
           else (case pool_alloc pl of
             (False, pl1) \<Rightarrow> (NGX_ERROR, None)
           | (True, pl1) \<Rightarrow>
               (case open_file o0 path of
                  SysOk _ \<Rightarrow>
                    (case read_file o0 path max_read 0 of
                       None \<Rightarrow> (NGX_DECLINED, None)
                     | Some buf \<Rightarrow>
                         if length buf = 0 then (NGX_DECLINED, None)
                         else (case pool_alloc pl1 of
                           (False, pl2) \<Rightarrow> (NGX_ERROR, None)
                         | (True, pl2) \<Rightarrow>
                             (case parse_loop N pl2 buf headers [0..<length buf] [] [] of
                                (rc, pl3, key, tags) \<Rightarrow>
                                  if rc \<noteq> NGX_OK then (NGX_ERROR, None)
                                  else (NGX_OK, Some \<lparr>pf_tags = tags, pf_key = key,
                                          pf_mtime = mtime, pf_size = int fsize\<rparr>))))
                | _ \<Rightarrow> (NGX_DECLINED, None))))
      | _ \<Rightarrow> (NGX_DECLINED, None)))"

text \<open>\<open>pool_ok\<close>: whether the temporary pool could be created; \<open>pl\<close>: its allocations.\<close>

definition process_file ::
  "ngx_core \<Rightarrow> int \<Rightarrow> os \<Rightarrow> bool \<Rightarrow> pool \<Rightarrow> shm \<Rightarrow> ngx_str \<Rightarrow> ngx_str \<Rightarrow> ngx_str list option \<Rightarrow>
     ngx_rc \<times> shm" where
  "process_file N now o0 pool_ok pl s zone_name path headers =
     (if \<not> pool_ok then (NGX_ERROR, s)
      else if headers = None \<or> headers = Some [] then
        (case parse_file N o0 pl path None of
           (NGX_OK, Some pf) \<Rightarrow>
             upsert_file_meta N now s zone_name path (pf_key pf) (pf_mtime pf) (pf_size pf) None
         | _ \<Rightarrow> delete_file N now s zone_name path)
      else
        (case parse_file N o0 pl path headers of
           (NGX_OK, Some pf) \<Rightarrow>
             upsert_file_meta N now s zone_name path (pf_key pf) (pf_mtime pf) (pf_size pf)
               (Some (pf_tags pf))
         | _ \<Rightarrow> delete_file N now s zone_name path))"

end
