(* ===== verification/Token_Spec.thy ===== *)
theory Token_Spec
  imports Tokens
begin

text \<open>
  What reading tags computes: \<open>extract_tokens\<close> and the header loops return the tokens of the
  matching headers without duplicates up to case and up to the limit; \<open>parse_file\<close> reads back the
  key nginx writes into a cache file.
\<close>

section \<open>What extracting tokens computes\<close>

text \<open>The specification: the maximal runs of bytes that are not separators, each kept unless an
  equal one, ignoring case, is already there, and cut at the limit.\<close>

fun split_seps :: "string \<Rightarrow> string list" where
  "split_seps [] = [[]]"
| "split_seps (c # cs) =
     (if is_sep c then [] # split_seps cs
      else (c # hd (split_seps cs)) # tl (split_seps cs))"

definition tokens :: "string \<Rightarrow> ngx_str list" where
  "tokens v = filter (\<lambda>t. t \<noteq> []) (split_seps v)"

definition push_ci :: "ngx_str list \<Rightarrow> ngx_str \<Rightarrow> ngx_str list" where
  "push_ci tags d = (if \<exists>t \<in> set tags. lower t = lower d then tags else tags @ [d])"

definition dedup_ci :: "ngx_str list \<Rightarrow> ngx_str list \<Rightarrow> ngx_str list" where
  "dedup_ci tags ts = foldl push_ci tags ts"

lemma split_seps_nonempty [simp]: "split_seps v \<noteq> []"
  by (cases v) auto

lemma split_seps_run:
  "\<forall>c \<in> set a. \<not> is_sep c \<Longrightarrow> split_seps (a @ b) = (a @ hd (split_seps b)) # tl (split_seps b)"
  by (induction a) auto

lemma tokens_sep: "\<forall>c \<in> set a. is_sep c \<Longrightarrow> tokens (a @ b) = tokens b"
  by (induction a) (auto simp: tokens_def)

lemma tokens_run:
  assumes "\<forall>c \<in> set a. \<not> is_sep c" and "a \<noteq> []" and "b = [] \<or> is_sep (hd b)"
  shows "tokens (a @ b) = a # tokens b"
proof (cases b)
  case Nil
  with split_seps_run [OF assms(1), of b] assms(2) show ?thesis by (simp add: tokens_def)
next
  case (Cons c cs)
  with assms(3) have "is_sep c" by simp
  with split_seps_run [OF assms(1), of b] assms(2) Cons show ?thesis by (simp add: tokens_def)
qed

lemma tokens_step:
  fixes v :: string
  defines "s \<equiv> dropWhile is_sep v"
  defines "t \<equiv> takeWhile (\<lambda>c. \<not> is_sep c) s"
  defines "r \<equiv> dropWhile (\<lambda>c. \<not> is_sep c) s"
  shows "tokens v = (if t = [] then tokens r else t # tokens r)"
proof -
  have "tokens v = tokens (takeWhile is_sep v @ s)" by (simp add: s_def)
  also have "\<dots> = tokens s" by (rule tokens_sep) (auto dest: set_takeWhileD)
  finally have 1: "tokens v = tokens (t @ r)" by (simp add: t_def r_def)
  have 2: "r = [] \<or> is_sep (hd r)"
    unfolding r_def using hd_dropWhile by force
  have 3: "\<forall>c \<in> set t. \<not> is_sep c" by (auto simp: t_def dest: set_takeWhileD)
  from 1 tokens_run [OF 3 _ 2] show ?thesis by auto
qed

lemma tokens_Nil [simp]: "tokens [] = []"
  by (simp add: tokens_def)

lemma dedup_ci_extends: "\<exists>xs. dedup_ci tags ts = tags @ xs"
proof (induction ts arbitrary: tags)
  case (Cons t ts)
  obtain xs where "dedup_ci (push_ci tags t) ts = push_ci tags t @ xs" using Cons by blast
  moreover have "\<exists>ys. push_ci tags t = tags @ ys" by (simp add: push_ci_def)
  ultimately show ?case by (auto simp: dedup_ci_def)
qed (simp add: dedup_ci_def)

lemma dedup_ci_simps [simp]:
  "dedup_ci tags [] = tags" "dedup_ci tags (t # ts) = dedup_ci (push_ci tags t) ts"
  by (simp_all add: dedup_ci_def)

lemma push_unique_ok:
  assumes ok: "ngx_core_ok N" and "\<forall>t \<in> set tags. c_nul \<notin> set t" and "c_nul \<notin> set d" and "d \<noteq> []"
  shows "push_unique N [] tags d = (NGX_OK, [], push_ci tags d)"
proof -
  have "length t = length d \<and> strncasecmp N t d (length d) = 0 \<longleftrightarrow> lower t = lower d" if "t \<in> set tags" for t
  proof -
    have "length t = length d" if "lower t = lower d" using that by (metis length_lower)
    with that assms(2,3) show ?thesis by (auto simp: core_okD(4) [OF ok] c_prefix_no_nul)
  qed
  then have "list_ex (\<lambda>t. length t = length d \<and> strncasecmp N t d (length d) = 0) tags \<longleftrightarrow>
      (\<exists>t \<in> set tags. lower t = lower d)" by (auto simp: list_ex_iff)
  with assms(4) show ?thesis by (simp add: push_unique_def push_ci_def)
qed

lemma push_ci_props:
  "set (push_ci tags d) \<subseteq> insert d (set tags)"
  "length (push_ci tags d) \<le> Suc (length tags)"
  by (auto simp: push_ci_def)

lemma extract_tokens_ok:
  assumes ok: "ngx_core_ok N"
  shows "c_nul \<notin> set v \<Longrightarrow> \<forall>t \<in> set tags. c_nul \<notin> set t \<Longrightarrow> length tags \<le> max_tokens_per_scan \<Longrightarrow>
    extract_tokens N [] v tags = (NGX_OK, [], take max_tokens_per_scan (dedup_ci tags (tokens v)))"
proof (induction "length v" arbitrary: v tags rule: less_induct)
  case less
  let ?s = "dropWhile is_sep v"
  let ?t = "takeWhile (\<lambda>c. \<not> is_sep c) ?s"
  let ?r = "dropWhile (\<lambda>c. \<not> is_sep c) ?s"
  show ?case
  proof (cases "v = []")
    case True
    with less.prems show ?thesis by (simp add: extract_tokens.simps)
  next
    case False
    note IH = less.hyps [OF rest_shorter [OF False]]
    have sub: "set ?s \<subseteq> set v" "set ?t \<subseteq> set v" "set ?r \<subseteq> set v"
      by (auto dest!: set_dropWhileD set_takeWhileD)
    have nul: "c_nul \<notin> set ?r" "c_nul \<notin> set ?t" using less.prems(1) sub by auto
    show ?thesis
    proof (cases "?t = []")
      case True
      then show ?thesis
        using IH [OF nul(1) less.prems(2,3)] tokens_step [of v] False
        by (subst extract_tokens.simps) (simp add: Let_def)
    next
      case t: False
      show ?thesis
      proof (cases "length tags \<ge> max_tokens_per_scan")
        case True
        obtain xs where xs: "dedup_ci tags (tokens v) = tags @ xs" using dedup_ci_extends by blast
        have "length tags = max_tokens_per_scan" using True less.prems(3) by simp
        then have "take max_tokens_per_scan (tags @ xs) = tags" by simp
        with xs True t False show ?thesis by (subst extract_tokens.simps) (simp add: Let_def)
      next
        case room: False
        have p: "push_unique N [] tags ?t = (NGX_OK, [], push_ci tags ?t)"
          by (rule push_unique_ok [OF ok less.prems(2) nul(2) t])
        have "\<forall>t \<in> set (push_ci tags ?t). c_nul \<notin> set t"
          using push_ci_props(1) [of tags ?t] less.prems(2) nul(2) by blast
        moreover have "length (push_ci tags ?t) \<le> max_tokens_per_scan"
          using push_ci_props(2) [of tags ?t] room by simp
        ultimately have "extract_tokens N [] ?r (push_ci tags ?t) =
            (NGX_OK, [], take max_tokens_per_scan (dedup_ci (push_ci tags ?t) (tokens ?r)))"
          using IH [OF nul(1)] by blast
        then show ?thesis
          using p t room False tokens_step [of v] by (subst extract_tokens.simps) (simp add: Let_def)
      qed
    qed
  qed
qed

text \<open>Tags of several headers: the limit and the removal of duplicates act on the whole sequence.\<close>

lemma dedup_ci_append: "dedup_ci tags (a @ b) = dedup_ci (dedup_ci tags a) b"
  by (simp add: dedup_ci_def)

lemma take_dedup_ci:
  "take n (dedup_ci (take n (dedup_ci tags a)) b) = take n (dedup_ci tags (a @ b))"
proof (cases "length (dedup_ci tags a) \<le> n")
  case True
  then show ?thesis by (simp add: dedup_ci_append)
next
  case False
  obtain xs where "dedup_ci (take n (dedup_ci tags a)) b = take n (dedup_ci tags a) @ xs"
    using dedup_ci_extends by blast
  moreover obtain ys where "dedup_ci tags (a @ b) = dedup_ci tags a @ ys"
    using dedup_ci_extends [of "dedup_ci tags a" b] by (auto simp: dedup_ci_append)
  ultimately show ?thesis using False by simp
qed

definition matching_tokens :: "ngx_str \<times> ngx_str \<Rightarrow> ngx_str list \<Rightarrow> ngx_str list" where
  "matching_tokens h wanted =
     concat (map (\<lambda>w. if lower (fst h) = lower w then tokens (snd h) else []) wanted)"

definition header_tokens :: "ngx_str list \<Rightarrow> (ngx_str \<times> ngx_str) list \<Rightarrow> ngx_str list" where
  "header_tokens wanted hs = concat (map (\<lambda>h. matching_tokens h wanted) hs)"

definition headers_no_nul :: "ngx_str list \<Rightarrow> (ngx_str \<times> ngx_str) list \<Rightarrow> bool" where
  "headers_no_nul wanted hs \<longleftrightarrow>
     (\<forall>w \<in> set wanted. c_nul \<notin> set w) \<and> (\<forall>h \<in> set hs. c_nul \<notin> set (fst h) \<and> c_nul \<notin> set (snd h))"

lemma tokens_subset: "t \<in> set (tokens v) \<Longrightarrow> set t \<subseteq> set v"
proof -
  have "t \<in> set (split_seps v) \<Longrightarrow> set t \<subseteq> set v" for t
  proof (induction v arbitrary: t)
    case (Cons c v)
    show ?case
    proof (cases "is_sep c")
      case True
      with Cons show ?thesis by auto
    next
      case False
      with Cons.prems consider "t = c # hd (split_seps v)" | "t \<in> set (tl (split_seps v))" by auto
      then show ?thesis
      proof cases
        case 1
        with Cons.IH [of "hd (split_seps v)"] show ?thesis by auto
      next
        case 2
        then have "t \<in> set (split_seps v)" by (meson list.set_sel(2) split_seps_nonempty)
        with Cons.IH show ?thesis by auto
      qed
    qed
  qed simp
  then show "t \<in> set (tokens v) \<Longrightarrow> set t \<subseteq> set v" by (simp add: tokens_def)
qed

lemma dedup_ci_subset: "set (dedup_ci tags ts) \<subseteq> set tags \<union> set ts"
proof (induction ts arbitrary: tags)
  case (Cons t ts)
  show ?case using Cons [of "push_ci tags t"] push_ci_props(1) [of tags t] by auto
qed simp

lemma take_dedup_no_nul:
  assumes "\<forall>t \<in> set tags. c_nul \<notin> set t" and "c_nul \<notin> set v"
  shows "\<forall>t \<in> set (take n (dedup_ci tags (tokens v))). c_nul \<notin> set t"
  using assms dedup_ci_subset [of tags "tokens v"] tokens_subset [of _ v]
  by (meson UnE in_mono in_set_takeD)

lemma wanted_loop_ok:
  assumes ok: "ngx_core_ok N"
  shows "headers_no_nul wanted [h] \<Longrightarrow> \<forall>t \<in> set tags. c_nul \<notin> set t \<Longrightarrow> length tags \<le> max_tokens_per_scan \<Longrightarrow>
    wanted_loop N [] h wanted tags =
      (NGX_OK, [], take max_tokens_per_scan (dedup_ci tags (matching_tokens h wanted)))"
proof (induction wanted arbitrary: tags)
  case (Cons w ws)
  have nul: "c_nul \<notin> set w" "c_nul \<notin> set (fst h)" "c_nul \<notin> set (snd h)" "headers_no_nul ws [h]"
    using Cons.prems(1) by (auto simp: headers_no_nul_def)
  have iff: "length (fst h) = length w \<and> strncasecmp N (fst h) w (length w) = 0 \<longleftrightarrow> lower (fst h) = lower w"
  proof -
    have "length (fst h) = length w" if "lower (fst h) = lower w" using that by (metis length_lower)
    then show ?thesis using nul by (auto simp: core_okD(4) [OF ok] c_prefix_no_nul)
  qed
  show ?case
  proof (cases "lower (fst h) = lower w")
    case True
    let ?tags = "take max_tokens_per_scan (dedup_ci tags (tokens (snd h)))"
    have "extract_tokens N [] (snd h) tags = (NGX_OK, [], ?tags)"
      by (rule extract_tokens_ok [OF ok nul(3) Cons.prems(2,3)])
    moreover have "wanted_loop N [] h ws ?tags =
        (NGX_OK, [], take max_tokens_per_scan (dedup_ci ?tags (matching_tokens h ws)))"
      by (rule Cons.IH [OF nul(4) take_dedup_no_nul [OF Cons.prems(2) nul(3)]]) simp
    ultimately show ?thesis using True iff by (simp add: take_dedup_ci matching_tokens_def)
  next
    case False
    with iff Cons.IH [OF nul(4) Cons.prems(2,3)] show ?thesis by (auto simp: matching_tokens_def)
  qed
qed (simp add: matching_tokens_def)

lemma matching_tokens_subset: "t \<in> set (matching_tokens h wanted) \<Longrightarrow> set t \<subseteq> set (snd h)"
  using tokens_subset by (fastforce simp: matching_tokens_def split: if_splits)

lemma headers_loop_ok:
  assumes ok: "ngx_core_ok N"
  shows "headers_no_nul wanted hs \<Longrightarrow> \<forall>t \<in> set tags. c_nul \<notin> set t \<Longrightarrow> length tags \<le> max_tokens_per_scan \<Longrightarrow>
    headers_loop N [] hs wanted tags =
      (NGX_OK, [], take max_tokens_per_scan (dedup_ci tags (header_tokens wanted hs)))"
proof (induction hs arbitrary: tags)
  case (Cons h hs)
  let ?tags = "take max_tokens_per_scan (dedup_ci tags (matching_tokens h wanted))"
  have nul: "headers_no_nul wanted [h]" "headers_no_nul wanted hs" "c_nul \<notin> set (snd h)"
    using Cons.prems(1) by (auto simp: headers_no_nul_def)
  have "c_nul \<notin> set t" if "t \<in> set ?tags" for t
    using that dedup_ci_subset [of tags "matching_tokens h wanted"] matching_tokens_subset [of t h wanted]
      Cons.prems(2) nul(3) by (meson UnE in_mono in_set_takeD)
  then have "headers_loop N [] hs wanted ?tags =
      (NGX_OK, [], take max_tokens_per_scan (dedup_ci ?tags (header_tokens wanted hs)))"
    using Cons.IH [OF nul(2)] by simp
  with wanted_loop_ok [OF ok nul(1) Cons.prems(2,3)] show ?case
    by (simp add: take_dedup_ci header_tokens_def)
qed (simp add: header_tokens_def)

text \<open>With any pool: the array never exceeds the limit and its elements are tokens.\<close>

definition is_token :: "ngx_str \<Rightarrow> bool" where
  "is_token t \<longleftrightarrow> t \<noteq> [] \<and> (\<forall>c \<in> set t. \<not> is_sep c)"

lemma push_unique_any:
  "push_unique N pl tags d = (rc, pl', tags') \<Longrightarrow> tags' = tags \<or> rc = NGX_OK \<and> tags' = tags @ [d]"
  by (auto simp: push_unique_def split: if_splits prod.splits bool.splits)

lemma extract_tokens_any:
  "extract_tokens N pl v tags = (rc, pl', tags') \<Longrightarrow> length tags \<le> max_tokens_per_scan \<Longrightarrow> list_all is_token tags \<Longrightarrow>
    length tags' \<le> max_tokens_per_scan \<and> list_all is_token tags' \<and> (rc = NGX_OK \<or> rc = NGX_ERROR)"
proof (induction N pl v tags rule: extract_tokens.induct)
  case (1 N pl v tags)
  let ?s = "dropWhile is_sep v"
  let ?t = "takeWhile (\<lambda>c. \<not> is_sep c) ?s"
  let ?r = "dropWhile (\<lambda>c. \<not> is_sep c) ?s"
  note run = "1.prems"(1) [unfolded extract_tokens.simps [of N pl v tags] Let_def]
  show ?case
  proof (cases "v = []")
    case True
    with run "1.prems" show ?thesis by simp
  next
    case v: False
    show ?thesis
    proof (cases "?t = []")
      case True
      with run v have "extract_tokens N pl ?r tags = (rc, pl', tags')" by simp
      from "1.IH"(2) [OF v refl refl refl _ this "1.prems"(2,3)] True show ?thesis by simp
    next
      case t: False
      show ?thesis
      proof (cases "length tags \<ge> max_tokens_per_scan")
        case True
        with run v t "1.prems" show ?thesis by simp
      next
        case room: False
        obtain rc1 pl1 tags1 where p: "push_unique N pl tags ?t = (rc1, pl1, tags1)" by (metis prod_cases3)
        have "is_token ?t" using t by (auto simp: is_token_def dest: set_takeWhileD)
        then have tags1: "length tags1 \<le> max_tokens_per_scan" "list_all is_token tags1"
          using push_unique_any [OF p] "1.prems"(2,3) room by auto
        show ?thesis
        proof (cases "rc1 = NGX_OK")
          case True
          with run v t room p have "extract_tokens N pl1 ?r tags1 = (rc, pl', tags')" by simp
          from "1.IH"(1) [OF v refl refl refl t room p [symmetric] refl _ this tags1] True show ?thesis by simp
        next
          case False
          with run v t room p tags1 show ?thesis by simp
        qed
      qed
    qed
  qed
qed

section \<open>The key of a cache file\<close>

lemma push_unique_pool: "push_unique N [] tags d = (rc, pl', tags') \<Longrightarrow> rc = NGX_OK \<and> pl' = []"
  by (auto simp: push_unique_def split: if_splits)

lemma extract_tokens_pool: "extract_tokens N pl v tags = (rc, pl', tags') \<Longrightarrow> pl = [] \<Longrightarrow> rc = NGX_OK \<and> pl' = []"
proof (induction N pl v tags rule: extract_tokens.induct)
  case (1 N pl v tags)
  let ?s = "dropWhile is_sep v"
  let ?t = "takeWhile (\<lambda>c. \<not> is_sep c) ?s"
  let ?r = "dropWhile (\<lambda>c. \<not> is_sep c) ?s"
  note run = "1.prems"(1) [unfolded extract_tokens.simps [of N pl v tags] Let_def]
  consider "v = []" | "v \<noteq> []" "?t = []" | "v \<noteq> []" "?t \<noteq> []" "length tags \<ge> max_tokens_per_scan"
    | (go) "v \<noteq> []" "?t \<noteq> []" "\<not> length tags \<ge> max_tokens_per_scan" by blast
  then show ?case
  proof cases
    case go
    obtain rc1 pl1 tags1 where p: "push_unique N pl tags ?t = (rc1, pl1, tags1)" by (metis prod_cases3)
    then have p1: "rc1 = NGX_OK" "pl1 = []" using push_unique_pool "1.prems"(2) by blast+
    with run go p have "extract_tokens N pl1 ?r tags1 = (rc, pl', tags')" by simp
    from "1.IH"(1) [OF go(1) refl refl refl go(2,3) p [symmetric] refl _ this p1(2)] p1(1) show ?thesis by simp
  next
    case 2
    with run have "extract_tokens N pl ?r tags = (rc, pl', tags')" by simp
    from "1.IH"(2) [OF 2(1) refl refl refl _ this "1.prems"(2)] 2(2) show ?thesis by simp
  qed (use run "1.prems"(2) in auto)
qed

lemma parse_headers_loop_pool:
  "parse_headers_loop N pl buf i hs tags = (rc, pl', tags') \<Longrightarrow> pl = [] \<Longrightarrow> rc = NGX_OK \<and> pl' = []"
proof (induction N pl buf i hs tags arbitrary: rc pl' tags' rule: parse_headers_loop.induct)
  case (2 N pl buf i h hs tags)
  obtain rc1 pl1 tags1 where e: "extract_tokens N pl (line_value buf (i + length h + 1)) tags = (rc1, pl1, tags1)"
    by (metis prod_cases3)
  note e1 = extract_tokens_pool [OF e "2.prems"(2)]
  consider "i + length h + 1 \<ge> length buf"
    | "\<not> i + length h + 1 \<ge> length buf" "strncasecmp N (drop i buf) h (length h) \<noteq> 0 \<or> buf ! (i + length h) \<noteq> CHR '':''"
    | "\<not> i + length h + 1 \<ge> length buf" "\<not> (strncasecmp N (drop i buf) h (length h) \<noteq> 0 \<or> buf ! (i + length h) \<noteq> CHR '':'')"
    by blast
  then show ?case
  proof cases
    case 1
    with "2.IH"(1) [OF 1 _ "2.prems"(2)] "2.prems"(1) show ?thesis by simp
  next
    case 2
    with "2.IH"(2) [OF 2 _ "2.prems"(2)] "2.prems"(1) show ?thesis by simp
  next
    case 3
    with e e1 "2.prems"(1) have "parse_headers_loop N pl1 buf i hs tags1 = (rc, pl', tags')" by simp
    with "2.IH"(3) [OF 3 e [symmetric] refl _ this] e1 show ?thesis by simp
  qed
qed auto

fun scan_key :: "ngx_core \<Rightarrow> string \<Rightarrow> nat list \<Rightarrow> ngx_str \<Rightarrow> ngx_str" where
  "scan_key N buf [] key = key"
| "scan_key N buf (i # is) key =
     (if (i = 0 \<or> buf ! (i - 1) = CHR 0x0A) \<and> key = [] \<and> i + 4 \<le> length buf \<and>
         strncasecmp N (drop i buf) ''KEY:'' 4 = 0
      then scan_key N buf is (line_value buf (i + 4))
      else scan_key N buf is key)"

lemma parse_loop_scan_key:
  "\<exists>tags'. parse_loop N [] buf headers is key tags = (NGX_OK, [], scan_key N buf is key, tags')"
proof (induction "is" arbitrary: key tags)
  case (Cons i "is")
  have k: "parse_key_line N [] buf i key = (NGX_OK, [],
      if key = [] \<and> i + 4 \<le> length buf \<and> strncasecmp N (drop i buf) ''KEY:'' 4 = 0
      then line_value buf (i + 4) else key)"
    by (simp add: parse_key_line_def Let_def)
  show ?case
  proof (cases headers)
    case None
    with Cons show ?thesis by (auto simp: k)
  next
    case (Some hs)
    obtain rc2 pl2 tags2 where h: "parse_headers_loop N [] buf i hs tags = (rc2, pl2, tags2)" by (metis prod_cases3)
    with parse_headers_loop_pool [OF h] have "rc2 = NGX_OK" "pl2 = []" by auto
    with h Some Cons show ?thesis by (auto simp: k)
  qed
qed simp

lemma scan_key_skip:
  assumes "\<forall>i \<in> set is1. (i = 0 \<or> buf ! (i - 1) = CHR 0x0A) \<longrightarrow> strncasecmp N (drop i buf) ''KEY:'' 4 \<noteq> 0"
  shows "scan_key N buf (is1 @ is2) key = scan_key N buf is2 key"
  using assms by (induction is1) auto

lemma scan_key_found: "key \<noteq> [] \<Longrightarrow> scan_key N buf is key = key"
  by (induction "is") auto

text \<open>nginx writes the key on a line of its own after the binary header.\<close>

definition key_line :: "ngx_str \<Rightarrow> string" where
  "key_line key = [CHR 0x0A] @ ''KEY: '' @ key @ [CHR 0x0A]"

definition plain_key :: "ngx_str \<Rightarrow> bool" where
  "plain_key key \<longleftrightarrow> key \<noteq> [] \<and> \<not> is_blank (hd key) \<and> (\<forall>c \<in> set key. \<not> is_eol c)"

lemma line_value_key:
  assumes "plain_key key"
  shows "line_value (hdr @ key_line key @ rest) (length hdr + 5) = key"
proof -
  have "drop (length hdr + 5) (hdr @ key_line key @ rest) = CHR '' '' # key @ CHR 0x0A # rest"
    by (simp add: key_line_def)
  moreover have "dropWhile is_blank (CHR '' '' # key @ CHR 0x0A # rest) = key @ CHR 0x0A # rest"
    using assms by (cases key) (auto simp: plain_key_def is_blank_def)
  moreover have "takeWhile (\<lambda>c. \<not> is_eol c) (key @ CHR 0x0A # rest) = key"
    using assms by (subst takeWhile_append2) (auto simp: plain_key_def is_eol_def)
  ultimately show ?thesis by (simp add: line_value_def)
qed

lemma scan_key_file:
  assumes ok: "ngx_core_ok N" and key: "plain_key key"
    and hdr: "\<forall>i \<le> length hdr. (i = 0 \<or> (hdr @ key_line key @ rest) ! (i - 1) = CHR 0x0A) \<longrightarrow>
      strncasecmp N (drop i (hdr @ key_line key @ rest)) ''KEY:'' 4 \<noteq> 0"
    and buf: "buf = hdr @ key_line key @ rest"
  shows "scan_key N buf [0..<length buf] [] = key"
proof -
  let ?p = "Suc (length hdr)"
  have p: "?p < length buf" by (simp add: buf key_line_def)
  then have split: "[0..<length buf] = [0..<?p] @ ?p # [Suc ?p..<length buf]"
    by (metis less_imp_le_nat upt_add_eq_append upt_conv_Cons zero_le le_add_diff_inverse)
  have at: "buf ! (?p - 1) = CHR 0x0A" by (simp add: buf key_line_def nth_append)
  have "drop ?p buf = ''KEY: '' @ key @ [CHR 0x0A] @ rest" by (simp add: buf key_line_def)
  then have m: "strncasecmp N (drop ?p buf) ''KEY:'' 4 = 0"
    unfolding core_okD(4) [OF ok] by (simp add: c_prefix_def c_nul_def)
  have len: "?p + 4 \<le> length buf" by (simp add: buf key_line_def)
  have "scan_key N buf [0..<length buf] [] = scan_key N buf (?p # [Suc ?p..<length buf]) []"
    unfolding split using hdr by (intro scan_key_skip) (auto simp: buf less_Suc_eq_le)
  also have "\<dots> = scan_key N buf [Suc ?p..<length buf] (line_value buf (?p + 4))"
    using at m len by simp
  also have "line_value buf (?p + 4) = key"
    using line_value_key [OF key, of hdr rest] by (simp add: buf add.commute)
  also have "scan_key N buf [Suc ?p..<length buf] key = key"
    using key by (intro scan_key_found) (simp add: plain_key_def)
  finally show ?thesis .
qed

end
