(* ===== verification/Token_Theorems.thy ===== *)
theory Token_Theorems
  imports Token_Spec Index_Contract
begin

text \<open>
  The correctness theorems of reading tags and keys: from header values, from the headers of a
  request, and from the bytes of a cache file.
\<close>

section \<open>Tokens and headers\<close>

text \<open>C31: With memory, extracting tokens from a header value appends to the tags found so far the
  maximal runs of non-separator bytes of the value, in order, dropping those equal to an earlier
  one up to ASCII case, and stops at 1000 tags.\<close>

theorem extract_tokens_spec:
  assumes "ngx_core_ok N" and "c_nul \<notin> set v" and "\<forall>t \<in> set tags. c_nul \<notin> set t"
    and "length tags \<le> max_tokens_per_scan"
  shows "extract_tokens N [] v tags = (NGX_OK, [], take max_tokens_per_scan (dedup_ci tags (tokens v)))"
  using extract_tokens_ok assms by blast

theorem extract_tokens_spec_witness:
  "extract_tokens (core_ref 0) [] ''a, b A'' [''c''] = (NGX_OK, [], [''c'', ''a'', ''b''])"
proof -
  have "take max_tokens_per_scan (dedup_ci [''c''] (tokens ''a, b A'')) = [''c'', ''a'', ''b'']"
    by code_simp
  with extract_tokens_spec [OF core_ref_ok [of 0], of "''a, b A''" "[''c'']"] show ?thesis
    by (simp add: max_tokens_per_scan_def)
qed

text \<open>C32: Whatever memory there is and whatever bytes the value holds, extracting tokens keeps
  the list of tags within 1000 non-empty tokens that contain no separator, and returns \<open>NGX_OK\<close> or
  \<open>NGX_ERROR\<close>.\<close>

theorem extract_tokens_bounded:
  assumes "extract_tokens N pl v tags = (rc, pl', tags')"
    and "length tags \<le> max_tokens_per_scan" and "list_all is_token tags"
  shows "length tags' \<le> max_tokens_per_scan \<and> list_all is_token tags' \<and> (rc = NGX_OK \<or> rc = NGX_ERROR)"
  by (rule extract_tokens_any [OF assms])

theorem extract_tokens_bounded_witness:
  "let (rc, pl', tags') = extract_tokens (core_ref 0) [True, False] ''a,b'' []
   in length tags' \<le> 1000 \<and> list_all is_token tags'"
proof -
  obtain rc pl' tags' where e: "extract_tokens (core_ref 0) [True, False] ''a,b'' [] = (rc, pl', tags')"
    by (metis prod_cases3)
  from extract_tokens_bounded [OF e] show ?thesis by (simp add: e max_tokens_per_scan_def)
qed

text \<open>C33: With memory, the tags of a request are the deduplicated tokens of the values of all its
  headers whose name is a configured tag header up to ASCII case, in order of appearance, at most
  1000; the request is declined when there are none.\<close>

theorem request_tags_spec:
  assumes "ngx_core_ok N" and "headers_no_nul wanted hs"
  shows "request_headers N [] True wanted hs =
    (let ts = take max_tokens_per_scan (dedup_ci [] (header_tokens wanted hs))
     in (if ts = [] then NGX_DECLINED else NGX_OK, [], Some ts))"
  using headers_loop_ok [OF assms, of "[]"] by (simp add: request_headers_def Let_def)

theorem request_tags_spec_witness:
  "request_headers (core_ref 0) [] True [''Cache-Tag''] [(''cache-tag'', ''a b''), (''x'', ''c'')] =
    (NGX_OK, [], Some [''a'', ''b''])"
proof -
  have "take max_tokens_per_scan (dedup_ci [] (header_tokens [''Cache-Tag''] [(''cache-tag'', ''a b''), (''x'', ''c'')])) =
      [''a'', ''b'']" by code_simp
  with request_tags_spec [OF core_ref_ok [of 0], of "[''Cache-Tag'']" "[(''cache-tag'', ''a b''), (''x'', ''c'')]"]
  show ?thesis by (simp add: headers_no_nul_def)
qed

section \<open>Cache files\<close>

text \<open>When no system call fails, parsing a file is the scan of its first 64 KB.\<close>

lemma parse_file_run:
  assumes "path_known path" and "os_files o0 path = Some f" and "\<forall>k. \<not> os_fault o0 k path"
    and "buf = take 65536 (fl_bytes f)" and "buf \<noteq> []"
    and "parse_loop N [] buf headers [0..<length buf] [] [] = (NGX_OK, [], key, tags)"
  shows "parse_file N o0 [] path headers = (NGX_OK, Some \<lparr>pf_tags = tags, pf_key = key,
      pf_mtime = fl_mtime f, pf_size = int (length (fl_bytes f))\<rparr>)"
proof -
  define n where "n = min 65536 (length (fl_bytes f))"
  have n0: "n \<noteq> 0" using assms(4,5) by (auto simp: n_def)
  have calls: "file_info o0 path = SysOk (length (fl_bytes f), fl_mtime f)" "open_file o0 path = SysOk ()"
    "read_file o0 path n 0 = Some buf"
    using assms(2-4) by (auto simp: file_info_def open_file_def read_file_def n_def min_def)
  have "parse_file N o0 [] path headers = (if length buf = 0 then (NGX_DECLINED, None)
      else (NGX_OK, Some \<lparr>pf_tags = tags, pf_key = key, pf_mtime = fl_mtime f, pf_size = int (length (fl_bytes f))\<rparr>))"
    using assms(1) n0 unfolding parse_file_def calls(1) sys.case prod.case n_def [symmetric] Let_def calls(2,3)
    by (simp only: assms(6) pool_alloc.simps prod.case option.case bool.case sys.case if_False if_True refl simp_thms)
  then show ?thesis using assms(5) by simp
qed

text \<open>C34: Parsing a cache file recovers its key: for a file whose name is a cache file name and
  whose bytes are a header without a line that starts with KEY:, then the key line nginx writes, then
  anything, with the key line within the first 64 KB, parsing succeeds and returns that key, and the
  modification time and size of the file.\<close>

theorem parse_file_key:
  assumes "ngx_core_ok N" and "plain_key key" and "path_known path"
    and "os_files o0 path = Some f" and "\<forall>k. \<not> os_fault o0 k path"
    and "fl_bytes f = hdr @ key_line key @ rest" and "length (hdr @ key_line key) \<le> 65536"
    and "\<forall>i \<le> length hdr. (i = 0 \<or> (hdr @ key_line key) ! (i - 1) = CHR 0x0A) \<longrightarrow>
      strncasecmp N (drop i (hdr @ key_line key @ take (65536 - length (hdr @ key_line key)) rest)) ''KEY:'' 4 \<noteq> 0"
  shows "\<exists>tags. parse_file N o0 [] path headers = (NGX_OK, Some \<lparr>pf_tags = tags, pf_key = key,
      pf_mtime = fl_mtime f, pf_size = int (length (fl_bytes f))\<rparr>)"
proof -
  let ?rest = "take (65536 - length (hdr @ key_line key)) rest"
  let ?buf = "hdr @ key_line key @ ?rest"
  have buf: "take 65536 (fl_bytes f) = ?buf" using assms(6,7) by simp
  have ne: "key_line key \<noteq> []" by (simp add: key_line_def)
  have at: "(hdr @ key_line key @ ?rest) ! (i - 1) = (hdr @ key_line key) ! (i - 1)" if "i \<le> length hdr" for i
    using that ne by (cases i) (auto simp: nth_append)
  have "scan_key N ?buf [0..<length ?buf] [] = key"
    by (rule scan_key_file [OF assms(1,2) _ refl]) (use assms(8) at in auto)
  with parse_loop_scan_key [of N ?buf headers "[0..<length ?buf]" "[]" "[]"]
  obtain tags where p: "parse_loop N [] ?buf headers [0..<length ?buf] [] [] = (NGX_OK, [], key, tags)" by auto
  show ?thesis using parse_file_run [OF assms(3-5) buf [symmetric] _ p] ne by blast
qed

definition tag_file :: os_file where
  "tag_file = \<lparr>fl_bytes = ''x'' @ key_line ''k1'' @ ''Cache-Tag: a'' @ [CHR 0x0D, CHR 0x0A] @ [CHR 0x0D, CHR 0x0A] @
     ''body'' @ [CHR 0x0A] @ ''cache-tag: evil'', fl_mtime = 3\<rparr>"

definition tag_path :: ngx_str where
  "tag_path = ''/c/0123456789abcdef0123456789abcdef''"

definition tag_os :: os where
  "tag_os = \<lparr>os_files = [tag_path \<mapsto> tag_file], os_fault = \<lambda>_ _. False, os_tree = \<lambda>_. Unreadable,
     os_room = \<lambda>_. 4096, os_clock = 9\<rparr>"

lemma tag_path_known: "path_known tag_path"
  by code_simp

theorem parse_file_key_witness:
  "\<exists>tags. parse_file (core_ref 0) tag_os [] tag_path None = (NGX_OK, Some \<lparr>pf_tags = tags, pf_key = ''k1'',
      pf_mtime = 3, pf_size = 46\<rparr>)"
proof -
  let ?rest = "''Cache-Tag: a'' @ [CHR 0x0D, CHR 0x0A] @ [CHR 0x0D, CHR 0x0A] @ ''body'' @ [CHR 0x0A] @ ''cache-tag: evil''"
  have f: "os_files tag_os tag_path = Some tag_file" "\<forall>k. \<not> os_fault tag_os k tag_path"
    "fl_bytes tag_file = ''x'' @ key_line ''k1'' @ ?rest" "length (''x'' @ key_line ''k1'') \<le> 65536"
    "plain_key ''k1''"
    by (simp_all add: tag_os_def tag_file_def key_line_def plain_key_def is_blank_def is_eol_def)
  have n: "\<forall>i \<le> length ''x''. (i = 0 \<or> (''x'' @ key_line ''k1'') ! (i - 1) = CHR 0x0A) \<longrightarrow>
      strncasecmp (core_ref 0) (drop i (''x'' @ key_line ''k1'' @ take (65536 - length (''x'' @ key_line ''k1'')) ?rest)) ''KEY:'' 4 \<noteq> 0"
  proof -
    have "to_lower (CHR ''x'') \<noteq> to_lower (CHR ''K'')" by code_simp
    then have "strncasecmp (core_ref 0) (''x'' @ r) ''KEY:'' 4 \<noteq> 0" for r
      by (simp add: core_okD(4) [OF core_ref_ok] c_prefix_def lower_def)
    then show ?thesis by (auto simp: le_Suc_eq)
  qed
  from parse_file_key [OF core_ref_ok f(5) tag_path_known f(1,2,3,4) n, of None] show ?thesis
    by (simp add: tag_file_def key_line_def)
qed

definition body_file :: os_file where
  "body_file = \<lparr>fl_bytes = [CHR 0x0A] @ ''T:a'' @ [CHR 0x0A] @ [CHR 0x0A] @ ''b'' @ [CHR 0x0A] @ ''t:evil'', fl_mtime = 3\<rparr>"

text \<open>The scan does not stop at the end of the response headers: a line of the body that looks like
  a tag header is indexed as tags of the file.\<close>

theorem body_line_is_indexed:
  "parse_file (core_ref 0) (tag_os\<lparr>os_files := [tag_path \<mapsto> body_file]\<rparr>) [] tag_path (Some [''T'']) =
     (NGX_OK, Some \<lparr>pf_tags = [''a'', ''evil''], pf_key = [], pf_mtime = 3, pf_size = 14\<rparr>)"
proof -
  have "parse_loop (core_ref 0) [] (fl_bytes body_file) (Some [''T'']) [0..<length (fl_bytes body_file)] [] [] =
      (NGX_OK, [], [], [''a'', ''evil''])" by code_simp
  from parse_file_run [OF tag_path_known _ _ _ _ this, of "tag_os\<lparr>os_files := [tag_path \<mapsto> body_file]\<rparr>" body_file]
  show ?thesis by (simp add: tag_os_def body_file_def)
qed

text \<open>C35: Indexing a file from disk refines an update of the abstract index by what parsing the
  file returns: when parsing yields key, time, size and tags the path maps to them (or the update
  failed and the path's entry is unchanged or gone); when the file cannot be parsed - missing,
  unreadable, not a cache file - the path is no longer indexed. The rest of the index is untouched and no block leaks.\<close>

theorem process_file_refines:
  assumes "ngx_core_ok N" and "store_ok N s" and "c_nul \<notin> set zone_name" and "c_nul \<notin> set path"
    and "process_file N now o0 True pl s zone_name path (Some hs) = (rc, s')" and "hs \<noteq> []"
  shows "store_ok N s' \<and> stray s' = stray s \<and>
    op_spec (view s) (case parse_file N o0 pl path (Some hs) of
        (NGX_OK, Some pf) \<Rightarrow> Put zone_name path (pf_key pf, pf_mtime pf, pf_size pf, pf_tags pf)
      | _ \<Rightarrow> Del zone_name path) rc (view s')"
proof -
  obtain r pf where p: "parse_file N o0 pl path (Some hs) = (r, pf)" by fastforce
  show ?thesis
  proof (cases "\<exists>f. r = NGX_OK \<and> pf = Some f")
    case True
    then obtain f where f: "r = NGX_OK" "pf = Some f" by blast
    with assms(5,6) p have u: "upsert_file_meta N now s zone_name path (pf_key f) (pf_mtime f) (pf_size f)
        (Some (pf_tags f)) = (rc, s')" by (simp add: process_file_def)
    from upsert_file_meta_cases(1,2) [OF assms(1-4) u] upsert_op_spec [OF assms(1-4) u] f p show ?thesis
      by (simp add: tags_elts_def)
  next
    case False
    with assms(5,6) p have d: "delete_file N now s zone_name path = (rc, s')"
      by (auto simp: process_file_def split: ngx_rc.splits option.splits)
    have del: "(case (r, pf) of (NGX_OK, Some pf) \<Rightarrow> Put zone_name path (pf_key pf, pf_mtime pf, pf_size pf, pf_tags pf)
      | _ \<Rightarrow> Del zone_name path) = Del zone_name path"
      using False by (cases r; cases pf) auto
    from ix.del_law [OF _ assms(3) d] assms(1,2) show ?thesis unfolding p del by blast
  qed
qed

theorem process_file_refines_witness:
  "let (rc, s') = process_file core_total 5 tag_os True [] empty_shm ''z'' tag_path (Some [''Cache-Tag''])
   in store_ok core_total s' \<and> stray s' = {}"
proof -
  obtain rc s' where p: "process_file core_total 5 tag_os True [] empty_shm ''z'' tag_path (Some [''Cache-Tag'']) = (rc, s')"
    by fastforce
  have "c_nul \<notin> set tag_path" by (simp add: tag_path_def)
  from process_file_refines [OF core_total_ok(1) store_ok_empty(1) _ this p] show ?thesis by (simp add: p)
qed

end
