(* ===== verification/Conf.thy ===== *)
theory Conf
  imports Ngx
begin

text \<open>
  Configuration: the directives of the module, the table of upstream protocols, merging of location
  configurations, attaching the purge handler to a location and registering its cache zone for the
  index (\<^verbatim>\<open>src/src/ngx_cache_pilot_module.c\<close>, \<^verbatim>\<open>src/src/ngx_cache_pilot_index.c\<close>).

  Configuration is read once, single-threaded, before any request.  A pointer to a sub-structure of
  another configuration is modelled by the value it points to, which no longer changes.  A cache
  zone of nginx is known by its address.  The model is for nginx 1.7.9 or later, built with the
  four upstream modules.
\<close>

section \<open>Structures\<close>

record complex_value =
  cv_value :: ngx_str
  cv_lengths :: bool

datatype flag = Unset | Set bool

record pilot_conf =
  pc_enable :: flag
  pc_configured :: flag
  pc_enable_values :: "complex_value list option"
  pc_soft :: bool
  pc_purge_all :: bool

datatype protocol_id = FASTCGI | PROXY | SCGI | UWSGI

datatype handler = Access_handler | Protocol_handler | Metrics_handler | Other_handler nat

datatype resp_type = RESPONSE_TYPE_JSON | RESPONSE_TYPE_TEXT

datatype conf_ptr = Ptr_unset | Ptr_null | Ptr pilot_conf

record stat_zone =
  sz_name :: ngx_str
  sz_cache :: addr

record loc_conf =
  lc_slot :: "protocol_id \<Rightarrow> pilot_conf"
  lc_conf :: conf_ptr
  lc_handler :: "handler option"
  lc_original_handler :: "handler option"
  lc_protocol :: "protocol_id option option"
  lc_resptype :: "resp_type option"
  lc_resptype_configured :: bool
  lc_cache_index :: flag
  lc_cache_tag_headers :: "ngx_str list option"
  lc_purge_mode_header :: "ngx_str option"
  lc_stat_zones :: "stat_zone list option"

record index_zone =
  iz_zone_name :: ngx_str
  iz_cache :: addr
  iz_headers :: "ngx_str list option"

record main_conf =
  mc_index_shm_size :: "nat option"
  mc_index_zone :: bool
  mc_zones :: "index_zone list"
  mc_metrics_zone :: bool

text \<open>The core location configuration and the location configuration of an upstream module, as far
  as the module uses them; a cache zone with its name.\<close>

record core_loc =
  cl_name :: ngx_str
  cl_handler :: "handler option"

record proto_loc =
  pl_upstream :: bool
  pl_lengths :: bool
  pl_cache :: int
  pl_cache_zone :: "addr option"
  pl_cache_value :: "complex_value option"
  pl_cache_key :: complex_value

datatype conf_result = CONF_OK | CONF_ERROR | CONF_MSG string

section \<open>The purge directive\<close>

text \<open>\<open>strip_flags\<close> is the loop that takes \<open>soft\<close> and \<open>purge_all\<close> off the end of the
  arguments; \<open>position\<close> is the number of arguments left, the directive's name included.\<close>

fun strip_flags :: "ngx_str list \<Rightarrow> nat \<Rightarrow> pilot_conf \<Rightarrow> nat \<times> pilot_conf" where
  "strip_flags val 0 cpcf = (0, cpcf)"
| "strip_flags val (Suc position) cpcf =
     (if Suc position > 2 \<and> \<not> pc_purge_all cpcf \<and> c_strcmp_eq (val ! position) ''purge_all''
      then strip_flags val position (cpcf\<lparr>pc_purge_all := True\<rparr>)
      else if Suc position > 2 \<and> \<not> pc_soft cpcf \<and> c_strcmp_eq (val ! position) ''soft''
      then strip_flags val position (cpcf\<lparr>pc_soft := True\<rparr>)
      else (Suc position, cpcf))"

text \<open>\<open>compile\<close> is \<^verbatim>\<open>ngx_http_compile_complex_value\<close>: \<open>None\<close> for a value it rejects.\<close>

fun compile_all ::
  "(ngx_str \<Rightarrow> complex_value option) \<Rightarrow> pool \<Rightarrow> ngx_str list \<Rightarrow> complex_value list option \<times> pool" where
  "compile_all compile pl [] = (Some [], pl)"
| "compile_all compile pl (v # vs) =
     (case pool_alloc pl of
        (False, pl1) \<Rightarrow> (None, pl1)
      | (True, pl1) \<Rightarrow>
          (case compile v of
             None \<Rightarrow> (None, pl1)
           | Some cv \<Rightarrow>
               (case compile_all compile pl1 vs of
                  (None, pl2) \<Rightarrow> (None, pl2)
                | (Some cvs, pl2) \<Rightarrow> (Some (cv # cvs), pl2))))"

definition pilot_conf_set ::
  "(ngx_str \<Rightarrow> complex_value option) \<Rightarrow> pool \<Rightarrow> ngx_str list \<Rightarrow> pilot_conf \<Rightarrow> conf_result \<times> pilot_conf" where
  "pilot_conf_set compile pl val cpcf =
     (if length val < 2 then (CONF_ERROR, cpcf)
      else
        let (position, cpcf1) =
              strip_flags val (length val) (cpcf\<lparr>pc_enable := Set True, pc_configured := Set True\<rparr>)
        in if position < 2 then (CONF_ERROR, cpcf1)
           else (case pool_alloc pl of
               (False, pl1) \<Rightarrow> (CONF_ERROR, cpcf1)
             | (True, pl1) \<Rightarrow>
                 (case compile_all compile pl1 (take (position - 1) (drop 1 val)) of
                    (None, pl2) \<Rightarrow> (CONF_ERROR, cpcf1)
                  | (Some cvs, pl2) \<Rightarrow> (CONF_OK, cpcf1\<lparr>pc_enable_values := Some cvs\<rparr>))))"

definition protocol_conf_set ::
  "(ngx_str \<Rightarrow> complex_value option) \<Rightarrow> pool \<Rightarrow> ngx_str list \<Rightarrow> loc_conf \<Rightarrow> protocol_id \<Rightarrow>
     conf_result \<times> loc_conf" where
  "protocol_conf_set compile pl val cplcf proto =
     (if pc_enable (lc_slot cplcf proto) \<noteq> Unset then (CONF_MSG ''is duplicate'', cplcf)
      else
        let (r, c) = pilot_conf_set compile pl val (lc_slot cplcf proto)
        in (r, cplcf\<lparr>lc_slot := (lc_slot cplcf)(proto := c)\<rparr>))"

definition fastcgi_cache_purge_conf ::
  "(ngx_str \<Rightarrow> complex_value option) \<Rightarrow> pool \<Rightarrow> ngx_str list \<Rightarrow> loc_conf \<Rightarrow> conf_result \<times> loc_conf" where
  "fastcgi_cache_purge_conf compile pl val cplcf = protocol_conf_set compile pl val cplcf FASTCGI"

definition proxy_cache_purge_conf ::
  "(ngx_str \<Rightarrow> complex_value option) \<Rightarrow> pool \<Rightarrow> ngx_str list \<Rightarrow> loc_conf \<Rightarrow> conf_result \<times> loc_conf" where
  "proxy_cache_purge_conf compile pl val cplcf = protocol_conf_set compile pl val cplcf PROXY"

definition scgi_cache_purge_conf ::
  "(ngx_str \<Rightarrow> complex_value option) \<Rightarrow> pool \<Rightarrow> ngx_str list \<Rightarrow> loc_conf \<Rightarrow> conf_result \<times> loc_conf" where
  "scgi_cache_purge_conf compile pl val cplcf = protocol_conf_set compile pl val cplcf SCGI"

definition uwsgi_cache_purge_conf ::
  "(ngx_str \<Rightarrow> complex_value option) \<Rightarrow> pool \<Rightarrow> ngx_str list \<Rightarrow> loc_conf \<Rightarrow> conf_result \<times> loc_conf" where
  "uwsgi_cache_purge_conf compile pl val cplcf = protocol_conf_set compile pl val cplcf UWSGI"

section \<open>The other directives\<close>

definition mode_header_conf :: "bool \<Rightarrow> ngx_str list \<Rightarrow> loc_conf \<Rightarrow> conf_result \<times> loc_conf" where
  "mode_header_conf in_location val cplcf =
     (if lc_purge_mode_header cplcf \<noteq> None \<and> in_location then (CONF_MSG ''is duplicate'', cplcf)
      else (CONF_OK, cplcf\<lparr>lc_purge_mode_header := Some (val ! 1)\<rparr>))"

fun push_all :: "pool \<Rightarrow> 'a list \<Rightarrow> 'a list \<Rightarrow> bool \<times> 'a list" where
  "push_all pl arr [] = (True, arr)"
| "push_all pl arr (x # xs) =
     (case pool_alloc pl of (False, pl1) \<Rightarrow> (False, arr) | (True, pl1) \<Rightarrow> push_all pl1 (arr @ [x]) xs)"

definition headers_conf :: "bool \<Rightarrow> pool \<Rightarrow> ngx_str list \<Rightarrow> loc_conf \<Rightarrow> conf_result \<times> loc_conf" where
  "headers_conf in_location pl val cplcf =
     (if lc_cache_tag_headers cplcf \<noteq> None \<and> in_location then (CONF_MSG ''is duplicate'', cplcf)
      else (case pool_alloc pl of
          (False, pl1) \<Rightarrow> (CONF_ERROR, cplcf\<lparr>lc_cache_tag_headers := None\<rparr>)
        | (True, pl1) \<Rightarrow>
            (case push_all pl1 [] (drop 1 val) of
               (ok, hs) \<Rightarrow>
                 (if ok then CONF_OK else CONF_ERROR, cplcf\<lparr>lc_cache_tag_headers := Some hs\<rparr>))))"

text \<open>The zones a statistics location reports: every cache of the four modules once, or only those
  named.  A cache that is not there (\<open>None\<close>) is passed over.\<close>

definition stats_filter :: "ngx_str list \<Rightarrow> ngx_str \<Rightarrow> bool" where
  "stats_filter filters name \<longleftrightarrow>
     list_ex (\<lambda>f. length f = length name \<and> c_strncmp_eq f name (length f)) filters"

fun stats_add_caches ::
  "pool \<Rightarrow> ngx_str list \<Rightarrow> (ngx_str \<times> addr) option list \<Rightarrow> stat_zone list \<Rightarrow>
     ngx_rc \<times> pool \<times> stat_zone list" where
  "stats_add_caches pl filters [] szs = (NGX_OK, pl, szs)"
| "stats_add_caches pl filters (None # cs) szs = stats_add_caches pl filters cs szs"
| "stats_add_caches pl filters (Some (name, cache) # cs) szs =
     (if list_ex (\<lambda>sz. sz_cache sz = cache) szs then stats_add_caches pl filters cs szs
      else if length filters > 0 \<and> \<not> stats_filter filters name then stats_add_caches pl filters cs szs
      else (case pool_alloc pl of
          (False, pl1) \<Rightarrow> (NGX_ERROR, pl1, szs)
        | (True, pl1) \<Rightarrow>
            stats_add_caches pl1 filters cs (szs @ [\<lparr>sz_name = name, sz_cache = cache\<rparr>])))"

fun stats_add_all ::
  "pool \<Rightarrow> ngx_str list \<Rightarrow> (ngx_str \<times> addr) option list option list \<Rightarrow> stat_zone list \<Rightarrow>
     ngx_rc \<times> stat_zone list" where
  "stats_add_all pl filters [] szs = (NGX_OK, szs)"
| "stats_add_all pl filters (None # ms) szs = stats_add_all pl filters ms szs"
| "stats_add_all pl filters (Some caches # ms) szs =
     (case stats_add_caches pl filters caches szs of
        (rc, pl1, szs1) \<Rightarrow>
          if rc \<noteq> NGX_OK then (NGX_ERROR, szs1) else stats_add_all pl1 filters ms szs1)"

text \<open>\<open>mains\<close>: the caches of the main configurations of FastCGI, proxy, SCGI and uwsgi, in this
  order; \<open>None\<close> for a module that has no main configuration.\<close>

definition stats_conf ::
  "pool \<Rightarrow> (ngx_str \<times> addr) option list option list \<Rightarrow> ngx_str list \<Rightarrow> core_loc \<Rightarrow> loc_conf \<Rightarrow>
     conf_result \<times> core_loc \<times> loc_conf" where
  "stats_conf pl mains args clcf cplcf =
     (if lc_stat_zones cplcf \<noteq> None then (CONF_MSG ''is duplicate'', clcf, cplcf)
      else (case pool_alloc pl of
          (False, pl1) \<Rightarrow> (CONF_ERROR, clcf, cplcf)
        | (True, pl1) \<Rightarrow>
            (case stats_add_all pl1 (drop 1 args) mains [] of
               (rc, szs) \<Rightarrow>
                 if rc \<noteq> NGX_OK then (CONF_ERROR, clcf, cplcf\<lparr>lc_stat_zones := Some szs\<rparr>)
                 else (CONF_OK, clcf\<lparr>cl_handler := Some Metrics_handler\<rparr>,
                       cplcf\<lparr>lc_stat_zones := Some szs\<rparr>))))"

section \<open>Creation\<close>

definition index_shm_size_default :: nat where
  "index_shm_size_default = 32 * 1024 * 1024"

definition create_main_conf :: "pool \<Rightarrow> main_conf option" where
  "create_main_conf pl =
     (case pool_alloc pl of
        (False, pl1) \<Rightarrow> None
      | (True, pl1) \<Rightarrow>
          (case pool_alloc pl1 of
             (False, pl2) \<Rightarrow> None
           | (True, pl2) \<Rightarrow>
               Some \<lparr>mc_index_shm_size = None, mc_index_zone = False, mc_zones = [],
                     mc_metrics_zone = False\<rparr>))"

text \<open>\<open>add_ok\<close>: whether \<^verbatim>\<open>ngx_shared_memory_add\<close> registers a zone of this name.\<close>

definition store_init_conf :: "(ngx_str \<Rightarrow> bool) \<Rightarrow> pool \<Rightarrow> main_conf option \<Rightarrow> ngx_rc \<times> main_conf option" where
  "store_init_conf add_ok pl pmcf =
     (case pmcf of
        None \<Rightarrow> (NGX_OK, None)
      | Some m \<Rightarrow>
          (case pool_alloc pl of
             (False, _) \<Rightarrow> (NGX_ERROR, pmcf)
           | (True, _) \<Rightarrow>
               if \<not> add_ok ''cache_pilot_index'' then (NGX_ERROR, Some (m\<lparr>mc_index_zone := False\<rparr>))
               else (NGX_OK, Some (m\<lparr>mc_index_zone := True\<rparr>))))"

definition metrics_init_conf :: "(ngx_str \<Rightarrow> bool) \<Rightarrow> main_conf \<Rightarrow> ngx_rc \<times> main_conf" where
  "metrics_init_conf add_ok m =
     (if mc_metrics_zone m then (NGX_OK, m)
      else if \<not> add_ok ''ngx_cache_pilot_metrics'' then (NGX_ERROR, m)
      else (NGX_OK, m\<lparr>mc_metrics_zone := True\<rparr>))"

definition init_main_conf :: "(ngx_str \<Rightarrow> bool) \<Rightarrow> pool \<Rightarrow> main_conf \<Rightarrow> conf_result \<times> main_conf" where
  "init_main_conf add_ok pl m =
     (let m1 = m\<lparr>mc_index_shm_size :=
            Some (case mc_index_shm_size m of None \<Rightarrow> index_shm_size_default | Some n \<Rightarrow> n)\<rparr>
      in case store_init_conf add_ok pl (Some m1) of
           (rc, pmcf) \<Rightarrow>
             let m2 = the pmcf in
             if rc \<noteq> NGX_OK then (CONF_ERROR, m2)
             else (case metrics_init_conf add_ok m2 of
                 (rc2, m3) \<Rightarrow> if rc2 \<noteq> NGX_OK then (CONF_ERROR, m3) else (CONF_OK, m3)))"

definition store_configured :: "main_conf option \<Rightarrow> bool" where
  "store_configured pmcf = (case pmcf of None \<Rightarrow> False | Some m \<Rightarrow> mc_index_zone m)"

definition pilot_conf_unset :: pilot_conf where
  "pilot_conf_unset = \<lparr>pc_enable = Unset, pc_configured = Unset, pc_enable_values = None,
     pc_soft = False, pc_purge_all = False\<rparr>"

definition create_loc_conf :: "pool \<Rightarrow> loc_conf option" where
  "create_loc_conf pl =
     (case pool_alloc pl of
        (False, _) \<Rightarrow> None
      | (True, _) \<Rightarrow> Some
          \<lparr>lc_slot = (\<lambda>_. pilot_conf_unset), lc_conf = Ptr_unset, lc_handler = None,
           lc_original_handler = None, lc_protocol = None, lc_resptype = None,
           lc_resptype_configured = False, lc_cache_index = Unset, lc_cache_tag_headers = None,
           lc_purge_mode_header = None, lc_stat_zones = None\<rparr>)"

section \<open>Protocols\<close>

text \<open>One entry of the table of upstream protocols: what the purge code has to know of an upstream
  module's location configuration.\<close>

record protocol =
  pr_id :: protocol_id
  pr_directive :: string
  pr_cache_key_error :: string
  pr_cache_error :: string
  pr_cache_key :: "proto_loc \<Rightarrow> complex_value"
  pr_has_pass :: "proto_loc \<Rightarrow> bool"
  pr_has_cache :: "proto_loc \<Rightarrow> bool"
  pr_cache :: "proto_loc \<Rightarrow> addr option"

definition fastcgi_ops :: "string \<Rightarrow> string \<Rightarrow> string \<Rightarrow> protocol" where
  "fastcgi_ops dir key_err cache_err =
     \<lparr>pr_id = FASTCGI, pr_directive = dir, pr_cache_key_error = key_err, pr_cache_error = cache_err,
      pr_cache_key = pl_cache_key,
      pr_has_pass = (\<lambda>l. pl_upstream l \<or> pl_lengths l),
      pr_has_cache = (\<lambda>l. pl_cache l > 0 \<or> pl_cache_zone l \<noteq> None \<or> pl_cache_value l \<noteq> None),
      pr_cache = (\<lambda>l. case pl_cache_zone l of None \<Rightarrow> None | Some c \<Rightarrow> Some c)\<rparr>"

definition proxy_ops :: "string \<Rightarrow> string \<Rightarrow> string \<Rightarrow> protocol" where
  "proxy_ops dir key_err cache_err =
     \<lparr>pr_id = PROXY, pr_directive = dir, pr_cache_key_error = key_err, pr_cache_error = cache_err,
      pr_cache_key = pl_cache_key,
      pr_has_pass = (\<lambda>l. pl_upstream l \<or> pl_lengths l),
      pr_has_cache = (\<lambda>l. pl_cache l > 0 \<or> pl_cache_zone l \<noteq> None \<or> pl_cache_value l \<noteq> None),
      pr_cache = (\<lambda>l. case pl_cache_zone l of None \<Rightarrow> None | Some c \<Rightarrow> Some c)\<rparr>"

definition scgi_ops :: "string \<Rightarrow> string \<Rightarrow> string \<Rightarrow> protocol" where
  "scgi_ops dir key_err cache_err =
     \<lparr>pr_id = SCGI, pr_directive = dir, pr_cache_key_error = key_err, pr_cache_error = cache_err,
      pr_cache_key = pl_cache_key,
      pr_has_pass = (\<lambda>l. pl_upstream l \<or> pl_lengths l),
      pr_has_cache = (\<lambda>l. pl_cache l > 0 \<or> pl_cache_zone l \<noteq> None \<or> pl_cache_value l \<noteq> None),
      pr_cache = (\<lambda>l. case pl_cache_zone l of None \<Rightarrow> None | Some c \<Rightarrow> Some c)\<rparr>"

definition uwsgi_ops :: "string \<Rightarrow> string \<Rightarrow> string \<Rightarrow> protocol" where
  "uwsgi_ops dir key_err cache_err =
     \<lparr>pr_id = UWSGI, pr_directive = dir, pr_cache_key_error = key_err, pr_cache_error = cache_err,
      pr_cache_key = pl_cache_key,
      pr_has_pass = (\<lambda>l. pl_upstream l \<or> pl_lengths l),
      pr_has_cache = (\<lambda>l. pl_cache l > 0 \<or> pl_cache_zone l \<noteq> None \<or> pl_cache_value l \<noteq> None),
      pr_cache = (\<lambda>l. case pl_cache_zone l of None \<Rightarrow> None | Some c \<Rightarrow> Some c)\<rparr>"

definition quoted :: "string \<Rightarrow> string" where
  "quoted s = [CHR 0x22] @ s @ [CHR 0x22]"

definition requires_error :: "string \<Rightarrow> string \<Rightarrow> string" where
  "requires_error directive needed =
     quoted directive @ '' requires '' @ quoted needed @ '' on this location''"

definition protocols :: "protocol list" where
  "protocols =
     [fastcgi_ops ''fastcgi_cache_purge''
        (requires_error ''fastcgi_cache_purge'' ''fastcgi_cache_key'')
        (requires_error ''fastcgi_cache_purge'' ''fastcgi_cache''),
      proxy_ops ''proxy_cache_purge''
        (requires_error ''proxy_cache_purge'' ''proxy_cache_key'')
        (requires_error ''proxy_cache_purge'' ''proxy_cache''),
      scgi_ops ''scgi_cache_purge''
        (requires_error ''scgi_cache_purge'' ''scgi_cache_key'')
        (requires_error ''scgi_cache_purge'' ''scgi_cache''),
      uwsgi_ops ''uwsgi_cache_purge''
        (requires_error ''uwsgi_cache_purge'' ''uwsgi_cache_key'')
        (requires_error ''uwsgi_cache_purge'' ''uwsgi_cache'')]"

fun protocol_by_id_loop :: "protocol list \<Rightarrow> protocol_id option \<Rightarrow> protocol option" where
  "protocol_by_id_loop [] i = None"
| "protocol_by_id_loop (p # ps) i = (if Some (pr_id p) = i then Some p else protocol_by_id_loop ps i)"

definition protocol_by_id :: "protocol_id option \<Rightarrow> protocol option" where
  "protocol_by_id i = protocol_by_id_loop protocols i"

definition protocol_conf_slot :: "loc_conf \<Rightarrow> protocol \<Rightarrow> pilot_conf" where
  "protocol_conf_slot conf protocol = lc_slot conf (pr_id protocol)"

section \<open>Registering a cache for the index\<close>

definition header_in :: "ngx_core \<Rightarrow> ngx_str \<Rightarrow> ngx_str list \<Rightarrow> bool" where
  "header_in N l right \<longleftrightarrow>
     list_ex (\<lambda>r. length l = length r \<and> strncasecmp N l r (length l) = 0) right"

definition headers_equal :: "ngx_core \<Rightarrow> ngx_str list option \<Rightarrow> ngx_str list option \<Rightarrow> bool" where
  "headers_equal N left right =
     (if left = right then True
      else (case (left, right) of
          (Some l, Some r) \<Rightarrow> length l = length r \<and> list_all (\<lambda>h. header_in N h r) l
        | _ \<Rightarrow> False))"

fun find_zone :: "index_zone list \<Rightarrow> addr \<Rightarrow> index_zone option" where
  "find_zone [] cache = None"
| "find_zone (z # zs) cache = (if iz_cache z = cache then Some z else find_zone zs cache)"

text \<open>\<open>cache_name\<close>: the name of the shared zone of a cache.\<close>

definition register_cache ::
  "ngx_core \<Rightarrow> (addr \<Rightarrow> ngx_str) \<Rightarrow> pool \<Rightarrow> main_conf option \<Rightarrow> addr option \<Rightarrow> ngx_str list option \<Rightarrow>
     ngx_rc \<times> pool \<times> main_conf option" where
  "register_cache N cache_name pl pmcf cache headers =
     (case cache of
        None \<Rightarrow> (NGX_OK, pl, pmcf)
      | Some c \<Rightarrow>
          if \<not> store_configured pmcf then (NGX_OK, pl, pmcf)
          else
            let m = the pmcf in
            (case find_zone (mc_zones m) c of
               Some z \<Rightarrow>
                 if \<not> headers_equal N (iz_headers z) headers then (NGX_ERROR, pl, pmcf)
                 else (NGX_OK, pl, pmcf)
             | None \<Rightarrow>
                 (case pool_alloc pl of
                    (False, pl1) \<Rightarrow> (NGX_ERROR, pl1, pmcf)
                  | (True, pl1) \<Rightarrow>
                      (NGX_OK, pl1, Some (m\<lparr>mc_zones := mc_zones m @
                         [\<lparr>iz_zone_name = cache_name c, iz_cache = c, iz_headers = headers\<rparr>]\<rparr>)))))"

section \<open>Merging location configurations\<close>

definition complex_value_set :: "complex_value \<Rightarrow> bool" where
  "complex_value_set cv \<longleftrightarrow> cv_lengths cv \<or> length (cv_value cv) \<noteq> 0"

definition merge_conf :: "pilot_conf \<Rightarrow> pilot_conf \<Rightarrow> pilot_conf" where
  "merge_conf conf prev =
     (if pc_enable conf = Unset then
        (if pc_enable prev = Set True then
           conf\<lparr>pc_enable := pc_enable prev, pc_configured := Set False,
             pc_enable_values := pc_enable_values prev, pc_soft := pc_soft prev,
             pc_purge_all := pc_purge_all prev\<rparr>
         else conf\<lparr>pc_enable := Set False, pc_configured := Set False\<rparr>)
      else conf)"

fun is_set :: "flag \<Rightarrow> bool" where
  "is_set Unset = True"
| "is_set (Set b) = b"

text \<open>In C an unset flag is -1, which is true; \<open>is_set\<close> is the C truth of a flag.\<close>

definition location_enabled :: "loc_conf \<Rightarrow> bool" where
  "location_enabled cplcf \<longleftrightarrow> is_set (lc_cache_index cplcf) \<and> lc_cache_tag_headers cplcf \<noteq> None"

record conf_state =
  cs_conf :: loc_conf
  cs_clcf :: core_loc
  cs_main :: "main_conf option"
  cs_pool :: pool

definition register_if_indexed ::
  "ngx_core \<Rightarrow> (addr \<Rightarrow> ngx_str) \<Rightarrow> protocol \<Rightarrow> proto_loc \<Rightarrow> conf_state \<Rightarrow> conf_result \<times> conf_state" where
  "register_if_indexed N cache_name protocol pl s =
     (case register_cache N cache_name (cs_pool s) (cs_main s) (pr_cache protocol pl)
             (lc_cache_tag_headers (cs_conf s)) of
        (rc, pool1, m1) \<Rightarrow>
          (if rc \<noteq> NGX_OK then CONF_ERROR else CONF_OK, s\<lparr>cs_pool := pool1, cs_main := m1\<rparr>))"

definition protocol_attach ::
  "ngx_core \<Rightarrow> (addr \<Rightarrow> ngx_str) \<Rightarrow> proto_loc \<Rightarrow> protocol \<Rightarrow> handler option \<Rightarrow> conf_state \<Rightarrow>
     conf_result \<times> conf_state" where
  "protocol_attach N cache_name pl protocol prev_original_handler s =
     (let conf = cs_conf s; clcf = cs_clcf s;
          protocol_conf = protocol_conf_slot conf protocol;
          has_cache_key = complex_value_set (pr_cache_key protocol pl);
          has_cache = pr_has_cache protocol pl;
          has_pass = pr_has_pass protocol pl
      in if \<not> has_pass \<and> \<not> has_cache \<and> \<not> has_cache_key \<and>
            (\<not> is_set (pc_configured protocol_conf) \<or> length (cl_name clcf) = 0)
         then (CONF_OK, s)
         else if \<not> is_set (pc_configured protocol_conf) \<and> \<not> has_pass then (CONF_OK, s)
         else
           let original =
                 (if \<not> is_set (pc_configured protocol_conf) \<and> prev_original_handler \<noteq> None
                  then prev_original_handler
                  else if cl_handler clcf = Some Access_handler \<and> prev_original_handler \<noteq> None
                  then prev_original_handler
                  else cl_handler clcf);
               conf1 = conf\<lparr>lc_conf := Ptr protocol_conf, lc_protocol := Some (Some (pr_id protocol)),
                          lc_original_handler := original\<rparr>;
               clcf1 = clcf\<lparr>cl_handler := Some Access_handler\<rparr>;
               s1 = s\<lparr>cs_conf := conf1, cs_clcf := clcf1\<rparr>
           in if has_pass then
                let conf2 = conf1\<lparr>lc_handler :=
                      if has_cache \<and> has_cache_key then Some Protocol_handler else None\<rparr>;
                    s2 = s1\<lparr>cs_conf := conf2\<rparr>
                in if is_set (lc_cache_index conf2) \<and> lc_handler conf2 \<noteq> None
                   then register_if_indexed N cache_name protocol pl s2
                   else (CONF_OK, s2)
              else if \<not> has_cache_key then (CONF_MSG (pr_cache_key_error protocol), s1)
              else if \<not> has_cache then (CONF_MSG (pr_cache_error protocol), s1)
              else
                let s2 = s1\<lparr>cs_conf := conf1\<lparr>lc_handler := Some Protocol_handler\<rparr>\<rparr>
                in if is_set (lc_cache_index conf1)
                   then register_if_indexed N cache_name protocol pl s2
                   else (CONF_OK, s2))"

fun merge_protocols ::
  "ngx_core \<Rightarrow> (addr \<Rightarrow> ngx_str) \<Rightarrow> (protocol_id \<Rightarrow> proto_loc) \<Rightarrow> protocol list \<Rightarrow> loc_conf \<Rightarrow> conf_state \<Rightarrow>
     (conf_result \<times> conf_state) option \<times> conf_state" where
  "merge_protocols N cache_name plocs [] prev s = (None, s)"
| "merge_protocols N cache_name plocs (p # ps) prev s =
     (let merged = merge_conf (protocol_conf_slot (cs_conf s) p) (protocol_conf_slot prev p);
          s1 = s\<lparr>cs_conf := (cs_conf s)\<lparr>lc_slot := (lc_slot (cs_conf s))(pr_id p := merged)\<rparr>\<rparr>
      in if is_set (pc_enable merged)
         then (Some (protocol_attach N cache_name (plocs (pr_id p)) p (lc_original_handler prev) s1), s1)
         else merge_protocols N cache_name plocs ps prev s1)"

definition location_uses_cache :: "(protocol_id \<Rightarrow> proto_loc) \<Rightarrow> bool" where
  "location_uses_cache plocs \<longleftrightarrow> list_ex (\<lambda>p. pr_has_cache p (plocs (pr_id p))) protocols"

definition default_tag_headers :: "ngx_str list" where
  "default_tag_headers = [''Surrogate-Key'', ''Cache-Tag'']"

definition merge_flag :: "flag \<Rightarrow> flag \<Rightarrow> flag" where
  "merge_flag conf prev =
     (if conf = Unset then (if prev = Unset then Set False else prev) else conf)"

definition merge_ptr :: "conf_ptr \<Rightarrow> conf_ptr \<Rightarrow> conf_ptr" where
  "merge_ptr conf prev =
     (if conf = Ptr_unset then (if prev = Ptr_unset then Ptr_null else prev) else conf)"

definition merge_settings ::
  "main_conf option \<Rightarrow> (protocol_id \<Rightarrow> proto_loc) \<Rightarrow> loc_conf \<Rightarrow> loc_conf \<Rightarrow> loc_conf" where
  "merge_settings pmcf plocs prev conf =
     (let index1 = (if lc_cache_index conf = Unset \<and> lc_cache_index prev = Unset \<and>
                       store_configured pmcf \<and> location_uses_cache plocs
                    then Set True else lc_cache_index conf)
      in conf\<lparr>
        lc_resptype := Some (case lc_resptype conf of Some t \<Rightarrow> t
          | None \<Rightarrow> (case lc_resptype prev of Some t \<Rightarrow> t | None \<Rightarrow> RESPONSE_TYPE_JSON)),
        lc_resptype_configured := lc_resptype conf \<noteq> None,
        lc_cache_index := merge_flag index1 (lc_cache_index prev),
        lc_purge_mode_header := (case lc_purge_mode_header conf of Some h \<Rightarrow> Some h
          | None \<Rightarrow> (case lc_purge_mode_header prev of Some h \<Rightarrow> Some h | None \<Rightarrow> Some [])),
        lc_cache_tag_headers := (if lc_cache_tag_headers conf = None
          then lc_cache_tag_headers prev else lc_cache_tag_headers conf)\<rparr>)"

definition merge_loc_conf ::
  "ngx_core \<Rightarrow> (addr \<Rightarrow> ngx_str) \<Rightarrow> (protocol_id \<Rightarrow> proto_loc) \<Rightarrow> loc_conf \<Rightarrow> conf_state \<Rightarrow>
     conf_result \<times> conf_state" where
  "merge_loc_conf N cache_name plocs prev s =
     (let conf1 = merge_settings (cs_main s) plocs prev (cs_conf s);
          (ok, pool1, conf2) =
            (if lc_cache_tag_headers conf1 \<noteq> None then (True, cs_pool s, conf1)
             else (case pool_alloc (cs_pool s) of
                 (False, p1) \<Rightarrow> (False, p1, conf1)
               | (True, p1) \<Rightarrow>
                   (case push_all p1 [] default_tag_headers of
                      (done, hs) \<Rightarrow> (done, drop 2 p1, conf1\<lparr>lc_cache_tag_headers := Some hs\<rparr>))));
          s2 = s\<lparr>cs_conf := conf2, cs_pool := pool1\<rparr>
      in if \<not> ok then (CONF_ERROR, s2)
         else (case merge_protocols N cache_name plocs protocols prev s2 of
             (Some result, s3) \<Rightarrow> result
           | (None, s3) \<Rightarrow>
               let c = cs_conf s3 in
               (CONF_OK, s3\<lparr>cs_conf := c\<lparr>
                  lc_conf := merge_ptr (lc_conf c) (lc_conf prev),
                  lc_protocol := (if lc_protocol c = None
                    then (if lc_protocol prev = None then Some None else lc_protocol prev)
                    else lc_protocol c),
                  lc_handler := (if lc_handler c = None then lc_handler prev else lc_handler c),
                  lc_original_handler := (if lc_original_handler c = None
                    then lc_original_handler prev else lc_original_handler c)\<rparr>\<rparr>)))"

end
