(* ===== verification/Runtime.thy ===== *)
theory Runtime
  imports Conf Tokens
begin

text \<open>
  The runtime of a worker process: opening the shared-memory store
  (\<^verbatim>\<open>src/src/ngx_cache_pilot_index_store.c\<close>), the tree that finds the index zone of a cache, the
  copy of the zone states, and the cold-start scan of the cache directories
  (\<^verbatim>\<open>src/src/ngx_cache_pilot_index_runtime.c\<close>).  The model is for Linux.
\<close>

section \<open>The shared zone and the store of a worker\<close>

text \<open>\<open>store_init_zone\<close> is the callback that prepares the shared zone: \<open>octx\<close> is what the context of
  the previous configuration points to, \<open>segment\<close> what the shared memory holds when it \<open>exists\<close>.
  The result is what the new context points to.\<close>

definition store_init_zone :: "ngx_core \<Rightarrow> shm option \<Rightarrow> bool \<Rightarrow> shm \<Rightarrow> ngx_rc \<times> shm option" where
  "store_init_zone N octx exists segment =
     (case octx of
        Some s \<Rightarrow> (NGX_OK, Some s)
      | None \<Rightarrow>
          if exists then (NGX_OK, Some segment)
          else (case slab_alloc N (slab (sh_pool segment)) (sizeof_store_shctx N) of
              None \<Rightarrow> (NGX_ERROR, None)
            | Some a \<Rightarrow>
                (NGX_OK, Some
                  \<lparr>sh_pool = \<lparr>slab = SlabAlloc (sizeof_store_shctx N) a # slab (sh_pool segment),
                              alloc_failures = 0\<rparr>,
                   sh_zones = []\<rparr>)))"

text \<open>An opened store is a pointer to the shared memory; there is one shared memory, so only whether
  reader and writer are open is recorded.  \<open>ready\<close>: the context of the zone has been initialised.\<close>

record store_runtime =
  sr_writer :: bool
  sr_reader :: bool
  sr_owner :: bool

definition shm_open :: "main_conf option \<Rightarrow> bool \<Rightarrow> pool \<Rightarrow> bool \<times> pool" where
  "shm_open pmcf ready pl =
     (if \<not> store_configured pmcf then (False, pl)
      else if \<not> ready then (False, pl)
      else pool_alloc pl)"

definition open_reader :: "main_conf option \<Rightarrow> bool \<Rightarrow> pool \<Rightarrow> bool \<times> pool" where
  "open_reader pmcf ready pl = (if \<not> store_configured pmcf then (False, pl) else shm_open pmcf ready pl)"

definition store_runtime_init ::
  "main_conf option \<Rightarrow> bool \<Rightarrow> bool \<Rightarrow> pool \<Rightarrow> ngx_rc \<times> pool \<times> store_runtime" where
  "store_runtime_init pmcf ready owner pl =
     (let sr = \<lparr>sr_writer = False, sr_reader = False, sr_owner = owner\<rparr>
      in if \<not> store_configured pmcf then (NGX_OK, pl, sr)
         else (case open_reader pmcf ready pl of
             (opened, pl1) \<Rightarrow>
               if \<not> opened then (NGX_ERROR, pl1, sr)
               else (NGX_OK, pl1, sr\<lparr>sr_reader := True, sr_writer := owner\<rparr>)))"

definition store_runtime_shutdown :: store_runtime where
  "store_runtime_shutdown = \<lparr>sr_writer = False, sr_reader = False, sr_owner = False\<rparr>"

definition store_writer :: "store_runtime \<Rightarrow> bool" where
  "store_writer sr = sr_writer sr"

definition store_reader ::
  "main_conf option \<Rightarrow> bool \<Rightarrow> pool \<Rightarrow> store_runtime \<Rightarrow> bool \<times> pool \<times> store_runtime" where
  "store_reader pmcf ready pl sr =
     (if sr_reader sr then (True, pl, sr)
      else (case open_reader pmcf ready pl of
          (opened, pl1) \<Rightarrow> (opened, pl1, sr\<lparr>sr_reader := opened\<rparr>)))"

section \<open>The zones of a worker\<close>

text \<open>Index nodes are allocated from the pool of the cycle, one for each configured zone in order; a
  node is known by its position.  The key of a node is the address of the cache.\<close>

record zone_node =
  zi_zone :: index_zone
  zi_state :: zone_state

record watch_runtime =
  wr_index :: rbtree
  wr_nodes :: "zone_node list"
  wr_timer :: bool
  wr_initialized :: bool

definition zi_cache :: "zone_node list \<Rightarrow> addr \<Rightarrow> addr" where
  "zi_cache nodes a = iz_cache (zi_zone (nodes ! a))"

fun zone_insert :: "zone_node list \<Rightarrow> rbtree \<Rightarrow> nat \<Rightarrow> addr \<Rightarrow> rbtree" where
  "zone_insert nodes Sentinel key node = RbNode True Sentinel key node Sentinel"
| "zone_insert nodes (RbNode c l k a r) key node =
     (if key < k then RbNode c (zone_insert nodes l key node) k a r
      else if k < key then RbNode c l k a (zone_insert nodes r key node)
      else if zi_cache nodes node < zi_cache nodes a then RbNode c (zone_insert nodes l key node) k a r
      else RbNode c l k a (zone_insert nodes r key node))"

fun lookup_zone_index_loop :: "zone_node list \<Rightarrow> rbtree \<Rightarrow> addr \<Rightarrow> addr option" where
  "lookup_zone_index_loop nodes Sentinel cache = None"
| "lookup_zone_index_loop nodes (RbNode c l k a r) cache =
     (if cache < k then lookup_zone_index_loop nodes l cache
      else if k < cache then lookup_zone_index_loop nodes r cache
      else if zi_cache nodes a = cache then Some a
      else if cache < zi_cache nodes a then lookup_zone_index_loop nodes l cache
      else lookup_zone_index_loop nodes r cache)"

definition lookup_zone_index :: "watch_runtime \<Rightarrow> addr \<Rightarrow> addr option" where
  "lookup_zone_index wr cache = lookup_zone_index_loop (wr_nodes wr) (wr_index wr) cache"

definition runtime_lookup_zone :: "watch_runtime \<Rightarrow> addr \<Rightarrow> index_zone option" where
  "runtime_lookup_zone wr cache =
     (case lookup_zone_index wr cache of None \<Rightarrow> None | Some a \<Rightarrow> Some (zi_zone (wr_nodes wr ! a)))"

definition zone_bootstrap_complete :: "watch_runtime \<Rightarrow> addr \<Rightarrow> bool" where
  "zone_bootstrap_complete wr cache =
     (case lookup_zone_index wr cache of
        None \<Rightarrow> False
      | Some a \<Rightarrow> st_bootstrap_complete (zi_state (wr_nodes wr ! a)))"

definition zero_state :: zone_state where
  "zero_state = \<lparr>st_bootstrap_complete = False, st_last_bootstrap_at = 0, st_last_updated_at = 0\<rparr>"

definition zone_state_cache_set :: "watch_runtime \<Rightarrow> addr \<Rightarrow> zone_state \<Rightarrow> watch_runtime" where
  "zone_state_cache_set wr cache st =
     (case lookup_zone_index wr cache of
        None \<Rightarrow> wr
      | Some a \<Rightarrow> wr\<lparr>wr_nodes := (wr_nodes wr)[a := (wr_nodes wr ! a)\<lparr>zi_state := st\<rparr>]\<rparr>)"

fun init_zones_loop ::
  "ngx_core \<Rightarrow> pool \<Rightarrow> index_zone list \<Rightarrow> watch_runtime \<Rightarrow> ngx_rc \<times> pool \<times> watch_runtime" where
  "init_zones_loop N pl [] wr = (NGX_OK, pl, wr)"
| "init_zones_loop N pl (z # zs) wr =
     (case pool_alloc pl of
        (False, pl1) \<Rightarrow> (NGX_ERROR, pl1, wr)
      | (True, pl1) \<Rightarrow>
          let a = length (wr_nodes wr);
              nodes = wr_nodes wr @ [\<lparr>zi_zone = z, zi_state = zero_state\<rparr>]
          in init_zones_loop N pl1 zs
               (wr\<lparr>wr_nodes := nodes,
                 wr_index := rbtree_insert N (zone_insert nodes) (wr_index wr) (iz_cache z) a\<rparr>))"

definition runtime_init_zones ::
  "ngx_core \<Rightarrow> pool \<Rightarrow> main_conf option \<Rightarrow> watch_runtime \<Rightarrow> ngx_rc \<times> pool \<times> watch_runtime" where
  "runtime_init_zones N pl pmcf wr =
     (case pmcf of None \<Rightarrow> (NGX_OK, pl, wr) | Some m \<Rightarrow> init_zones_loop N pl (mc_zones m) wr)"

text \<open>The local copy of the zone states; a zone that was registered has a cache.\<close>

definition zone_state_cache_sync ::
  "int \<Rightarrow> shm \<Rightarrow> main_conf option \<Rightarrow> bool \<Rightarrow> pool \<Rightarrow> store_runtime \<Rightarrow> watch_runtime \<Rightarrow>
     ngx_rc \<times> pool \<times> store_runtime \<times> watch_runtime" where
  "zone_state_cache_sync now s pmcf ready pl sr wr =
     (case pmcf of
        None \<Rightarrow> (NGX_OK, pl, sr, wr)
      | Some m \<Rightarrow>
          if mc_zones m = [] then (NGX_OK, pl, sr, wr)
          else (case store_reader pmcf ready pl sr of
              (False, pl1, sr1) \<Rightarrow>
                (NGX_OK, pl1, sr1, foldl (\<lambda>w z. zone_state_cache_set w (iz_cache z) zero_state) wr (mc_zones m))
            | (True, pl1, sr1) \<Rightarrow>
                (NGX_OK, pl1, sr1, foldl (\<lambda>w z. zone_state_cache_set w (iz_cache z)
                   (case get_zone_state now s (iz_zone_name z) of
                      (rc, st) \<Rightarrow> if rc \<noteq> NGX_OK then zero_state else st)) wr (mc_zones m))))"

definition bootstrap_complete_sync ::
  "int \<Rightarrow> shm \<Rightarrow> main_conf option \<Rightarrow> bool \<Rightarrow> pool \<Rightarrow> addr option \<Rightarrow> store_runtime \<Rightarrow> watch_runtime \<Rightarrow>
     bool \<times> pool \<times> store_runtime \<times> watch_runtime" where
  "bootstrap_complete_sync now s pmcf ready pl cache sr wr =
     (case cache of
        None \<Rightarrow> (False, pl, sr, wr)
      | Some c \<Rightarrow>
          if zone_bootstrap_complete wr c then (True, pl, sr, wr)
          else if pmcf = None then (False, pl, sr, wr)
          else (case runtime_lookup_zone wr c of
              None \<Rightarrow> (False, pl, sr, wr)
            | Some z \<Rightarrow>
                (case store_reader pmcf ready pl sr of
                   (False, pl1, sr1) \<Rightarrow> (False, pl1, sr1, wr)
                 | (True, pl1, sr1) \<Rightarrow>
                     (case get_zone_state now s (iz_zone_name z) of
                        (rc, st) \<Rightarrow>
                          if rc \<noteq> NGX_OK then (False, pl1, sr1, wr)
                          else (st_bootstrap_complete st, pl1, sr1, zone_state_cache_set wr c st)))))"

section \<open>The cold-start scan\<close>

definition join_path :: "ngx_str \<Rightarrow> string \<Rightarrow> ngx_str" where
  "join_path base name = base @ ''/'' @ name"

text \<open>\<open>file_pool path\<close>: whether the temporary pool for the file can be created, and its allocations;
  \<open>al\<close>: the allocations of the path strings.\<close>

record scan_env =
  se_now :: int
  se_os :: os
  se_file_pool :: "ngx_str \<Rightarrow> bool \<times> pool"
  se_zone :: index_zone
  se_min_mtime :: int

definition scan_skips :: "scan_env \<Rightarrow> ngx_str \<Rightarrow> bool" where
  "scan_skips E child \<longleftrightarrow> se_min_mtime E > 0 \<and>
     (case file_info (se_os E) child of SysOk (_, mtime) \<Rightarrow> mtime \<le> se_min_mtime E | _ \<Rightarrow> True)"

fun scan_entries ::
  "ngx_core \<Rightarrow> scan_env \<Rightarrow> ngx_str \<Rightarrow> (string \<times> dirent) list \<Rightarrow> shm \<Rightarrow> pool \<Rightarrow> ngx_rc \<times> shm \<times> pool" where
  "scan_entries N E path [] s al = (NGX_OK, s, al)"
| "scan_entries N E path ((name, entry) # es) s al =
     (if name = ''.'' \<or> name = ''..'' then scan_entries N E path es s al
      else (case pool_alloc al of
          (False, al1) \<Rightarrow> (NGX_ERROR, s, al1)
        | (True, al1) \<Rightarrow>
            let child = join_path path name in
            (case entry of
               DtDir Unreadable \<Rightarrow> scan_entries N E path es s al1
             | DtDir (Dir sub) \<Rightarrow>
                 (case scan_entries N E child sub s al1 of
                    (rc, s1, al2) \<Rightarrow>
                      if rc = NGX_ERROR then (NGX_ERROR, s1, al2) else scan_entries N E path es s1 al2)
             | DtOther \<Rightarrow> scan_entries N E path es s al1
             | _ \<Rightarrow>
                 if scan_skips E child then scan_entries N E path es s al1
                 else (case process_file N (se_now E) (se_os E) (fst (se_file_pool E child))
                          (snd (se_file_pool E child)) s (iz_zone_name (se_zone E)) child
                          (iz_headers (se_zone E)) of
                     (rc, s1) \<Rightarrow>
                       if rc = NGX_ERROR then (NGX_ERROR, s1, al1) else scan_entries N E path es s1 al1))))"

definition scan_recursive ::
  "ngx_core \<Rightarrow> scan_env \<Rightarrow> ngx_str \<Rightarrow> shm \<Rightarrow> pool \<Rightarrow> ngx_rc \<times> shm \<times> pool" where
  "scan_recursive N E path s al =
     (case os_tree (se_os E) path of
        Unreadable \<Rightarrow> (NGX_DECLINED, s, al)
      | Dir es \<Rightarrow> scan_entries N E path es s al)"

text \<open>\<open>cache_path\<close>: the directory of a cache.\<close>

definition scan_zone ::
  "ngx_core \<Rightarrow> scan_env \<Rightarrow> ngx_str option \<Rightarrow> shm \<Rightarrow> pool \<Rightarrow> ngx_rc \<times> shm \<times> pool" where
  "scan_zone N E cache_path s al =
     (case cache_path of
        None \<Rightarrow> (NGX_DECLINED, s, al)
      | Some path \<Rightarrow>
          (case scan_recursive N (E\<lparr>se_min_mtime := 0\<rparr>) path s al of
             (rc, s1, al1) \<Rightarrow> if rc \<noteq> NGX_OK then (NGX_ERROR, s1, al1) else (NGX_OK, s1, al1)))"

definition bootstrap_zone ::
  "ngx_core \<Rightarrow> scan_env \<Rightarrow> ngx_str option \<Rightarrow> shm \<Rightarrow> pool \<Rightarrow> ngx_rc \<times> shm \<times> pool" where
  "bootstrap_zone N E cache_path s al =
     (case scan_zone N E cache_path s al of
        (rc, s1, al1) \<Rightarrow>
          if rc \<noteq> NGX_OK then (NGX_ERROR, s1, al1)
          else (case set_zone_state N (se_now E) s1 (iz_zone_name (se_zone E))
                   \<lparr>st_bootstrap_complete = True, st_last_bootstrap_at = se_now E,
                    st_last_updated_at = se_now E\<rparr> of
              (rc2, s2, _) \<Rightarrow> if rc2 \<noteq> NGX_OK then (NGX_ERROR, s2, al1) else (NGX_OK, s2, al1)))"

text \<open>\<open>cold\<close>: the cache loader of a cache has not finished; \<open>single\<close>: nginx runs as one process.\<close>

record boot_env =
  be_os :: os
  be_file_pool :: "ngx_str \<Rightarrow> bool \<times> pool"
  be_path :: "addr \<Rightarrow> ngx_str option"
  be_cold :: "addr \<Rightarrow> bool"
  be_single :: bool

definition scan_env_of :: "boot_env \<Rightarrow> int \<Rightarrow> index_zone \<Rightarrow> scan_env" where
  "scan_env_of B now z =
     \<lparr>se_now = now, se_os = be_os B, se_file_pool = be_file_pool B, se_zone = z, se_min_mtime = 0\<rparr>"

fun try_bootstrap_loop ::
  "ngx_core \<Rightarrow> boot_env \<Rightarrow> int \<Rightarrow> index_zone list \<Rightarrow> bool \<Rightarrow> shm \<Rightarrow> pool \<Rightarrow> watch_runtime \<Rightarrow>
     ngx_rc \<times> shm \<times> pool \<times> watch_runtime" where
  "try_bootstrap_loop N B now [] deferred s al wr =
     (if deferred then NGX_AGAIN else NGX_OK, s, al, wr)"
| "try_bootstrap_loop N B now (z # zs) deferred s al wr =
     (if be_path B (iz_cache z) = None then try_bootstrap_loop N B now zs deferred s al wr
      else if be_cold B (iz_cache z) \<and> \<not> be_single B then try_bootstrap_loop N B now zs True s al wr
      else (case get_zone_state now s (iz_zone_name z) of
          (rc, st) \<Rightarrow>
            if rc \<noteq> NGX_OK then (NGX_ERROR, s, al, wr)
            else if st_bootstrap_complete st
            then try_bootstrap_loop N B now zs deferred s al (zone_state_cache_set wr (iz_cache z) st)
            else (case bootstrap_zone N (scan_env_of B now z) (be_path B (iz_cache z)) s al of
                (rc2, s2, al2) \<Rightarrow>
                  if rc2 \<noteq> NGX_OK then (NGX_ERROR, s2, al2, wr)
                  else (case get_zone_state now s2 (iz_zone_name z) of
                      (rc3, st3) \<Rightarrow>
                        if rc3 \<noteq> NGX_OK then (NGX_ERROR, s2, al2, wr)
                        else try_bootstrap_loop N B now zs deferred s2 al2
                               (zone_state_cache_set wr (iz_cache z) st3)))))"

definition try_bootstrap_zones ::
  "ngx_core \<Rightarrow> boot_env \<Rightarrow> int \<Rightarrow> main_conf option \<Rightarrow> store_runtime \<Rightarrow> shm \<Rightarrow> pool \<Rightarrow> watch_runtime \<Rightarrow>
     ngx_rc \<times> shm \<times> pool \<times> watch_runtime" where
  "try_bootstrap_zones N B now pmcf sr s al wr =
     (case pmcf of
        None \<Rightarrow> (NGX_OK, s, al, wr)
      | Some m \<Rightarrow>
          if mc_zones m = [] then (NGX_OK, s, al, wr)
          else if \<not> store_writer sr then (NGX_OK, s, al, wr)
          else try_bootstrap_loop N B now (mc_zones m) False s al wr)"

section \<open>Start, timer and end of a worker\<close>

record worker =
  wk_store :: store_runtime
  wk_watch :: watch_runtime
  wk_shm :: shm
  wk_pool :: pool
  wk_alloc :: pool

definition watch_zero :: watch_runtime where
  "watch_zero = \<lparr>wr_index = Sentinel, wr_nodes = [], wr_timer = False, wr_initialized = False\<rparr>"

definition init_runtime ::
  "ngx_core \<Rightarrow> boot_env \<Rightarrow> int \<Rightarrow> main_conf option \<Rightarrow> bool \<Rightarrow> worker \<Rightarrow> ngx_rc \<times> worker" where
  "init_runtime N B now pmcf ready w =
     (case runtime_init_zones N (wk_pool w) pmcf watch_zero of
        (rc, pl1, wr1) \<Rightarrow>
          let w1 = w\<lparr>wk_pool := pl1, wk_watch := wr1\<rparr> in
          if rc \<noteq> NGX_OK then (NGX_ERROR, w1)
          else (case store_runtime_init pmcf ready True pl1 of
              (rc2, pl2, sr2) \<Rightarrow>
                let w2 = w1\<lparr>wk_pool := pl2, wk_store := sr2\<rparr> in
                if rc2 \<noteq> NGX_OK then (NGX_ERROR, w2)
                else (case zone_state_cache_sync now (wk_shm w) pmcf ready pl2 sr2 wr1 of
                    (rc3, pl3, sr3, wr3) \<Rightarrow>
                      let w3 = w2\<lparr>wk_pool := pl3, wk_store := sr3, wk_watch := wr3\<rparr> in
                      if rc3 \<noteq> NGX_OK then (NGX_ERROR, w3)
                      else (case try_bootstrap_zones N B now pmcf sr3 (wk_shm w) (wk_alloc w) wr3 of
                          (rc4, s4, al4, wr4) \<Rightarrow>
                            let w4 = w3\<lparr>wk_shm := s4, wk_alloc := al4, wk_watch := wr4\<rparr> in
                            if rc4 = NGX_ERROR then (NGX_ERROR, w4)
                            else (NGX_OK, w4\<lparr>wk_watch := wr4\<lparr>wr_timer := rc4 = NGX_AGAIN,
                                    wr_initialized := True\<rparr>\<rparr>)))))"

text \<open>The timer has expired, so it is no longer set; the handler sets it again when a zone is still
  deferred.\<close>

definition bootstrap_timer_handler ::
  "ngx_core \<Rightarrow> boot_env \<Rightarrow> int \<Rightarrow> main_conf option \<Rightarrow> worker \<Rightarrow> worker" where
  "bootstrap_timer_handler N B now pmcf w =
     (case try_bootstrap_zones N B now pmcf (wk_store w) (wk_shm w) (wk_alloc w)
             ((wk_watch w)\<lparr>wr_timer := False\<rparr>) of
        (rc, s1, al1, wr1) \<Rightarrow>
          w\<lparr>wk_shm := s1, wk_alloc := al1, wk_watch := wr1\<lparr>wr_timer := rc = NGX_AGAIN\<rparr>\<rparr>)"

definition flush_pending :: ngx_rc where
  "flush_pending = NGX_OK"

definition shutdown_runtime :: "worker \<Rightarrow> worker" where
  "shutdown_runtime w = w\<lparr>wk_store := store_runtime_shutdown, wk_watch := watch_zero\<rparr>"

definition process_init ::
  "ngx_core \<Rightarrow> boot_env \<Rightarrow> int \<Rightarrow> main_conf option \<Rightarrow> bool \<Rightarrow> worker \<Rightarrow> ngx_rc \<times> worker" where
  "process_init N B now pmcf ready w = init_runtime N B now pmcf ready w"

definition init_process ::
  "ngx_core \<Rightarrow> boot_env \<Rightarrow> int \<Rightarrow> main_conf option \<Rightarrow> bool \<Rightarrow> worker \<Rightarrow> ngx_rc \<times> worker" where
  "init_process N B now pmcf ready w =
     (if pmcf = None then (NGX_OK, w)
      else if \<not> store_configured pmcf then (NGX_OK, w)
      else process_init N B now pmcf ready w)"

definition exit_process :: "worker \<Rightarrow> worker" where
  "exit_process w = shutdown_runtime w"

end
