(* ===== verification/Runtime_Spec.thy ===== *)
theory Runtime_Spec
  imports Runtime Token_Theorems
begin

text \<open>
  What the runtime of a worker promises: the tree of zones finds exactly the zone that was registered
  for a cache, and the cold-start scan makes the index of a zone agree with the files on disk.
\<close>

section \<open>The tree of zones\<close>

definition keys_sorted :: "rbtree \<Rightarrow> bool" where
  "keys_sorted t \<longleftrightarrow> sorted_wrt (<) (map fst (inorder t))"

lemma keys_sorted_node [simp]:
  "keys_sorted (RbNode c l k a r) \<longleftrightarrow> keys_sorted l \<and> keys_sorted r \<and>
     (\<forall>x \<in> fst ` set (inorder l). x < k) \<and> (\<forall>x \<in> fst ` set (inorder r). k < x)"
  by (auto simp: keys_sorted_def sorted_wrt_append) (use order.strict_trans in fastforce)

lemma keys_sorted_leaf [simp]: "keys_sorted Sentinel"
  by (simp add: keys_sorted_def)

lemma zone_insert_sorted:
  "keys_sorted t \<Longrightarrow> key \<notin> fst ` set (inorder t) \<Longrightarrow>
     keys_sorted (zone_insert nodes t key a) \<and>
     set (inorder (zone_insert nodes t key a)) = insert (key, a) (set (inorder t))"
  by (induction nodes t key a rule: zone_insert.induct) (auto simp: image_Un)

lemma lookup_loop_sorted:
  "keys_sorted t \<Longrightarrow> \<forall>(k, a) \<in> set (inorder t). zi_cache nodes a = k \<Longrightarrow>
     lookup_zone_index_loop nodes t cache = Some a \<longleftrightarrow> (cache, a) \<in> set (inorder t)"
proof (induction t)
  case (RbNode c l k b r)
  have l: "cache < k" if "(cache, a) \<in> set (inorder l)" using RbNode.prems(1) that by force
  have r: "k < cache" if "(cache, a) \<in> set (inorder r)" using RbNode.prems(1) that by force
  consider "cache < k" | "k < cache" | "cache = k" by linarith
  then show ?case
  proof cases
    case 3
    moreover have "zi_cache nodes b = k" using RbNode.prems(2) by simp
    ultimately show ?thesis using l r by auto
  qed (use RbNode l r in auto)
qed simp

definition watch_ok :: "watch_runtime \<Rightarrow> bool" where
  "watch_ok wr \<longleftrightarrow> keys_sorted (wr_index wr) \<and>
     set (inorder (wr_index wr)) = (\<lambda>i. (zi_cache (wr_nodes wr) i, i)) ` {..<length (wr_nodes wr)}"

definition watch_zones :: "watch_runtime \<Rightarrow> index_zone list" where
  "watch_zones wr = map zi_zone (wr_nodes wr)"

lemma watch_ok_zero [simp]: "watch_ok watch_zero" "watch_zones watch_zero = []"
  by (simp_all add: watch_ok_def watch_zero_def watch_zones_def)

lemma lookup_index_watch:
  assumes "watch_ok wr"
  shows "lookup_zone_index wr cache = Some a \<longleftrightarrow>
    a < length (wr_nodes wr) \<and> zi_cache (wr_nodes wr) a = cache"
  unfolding lookup_zone_index_def
  using assms lookup_loop_sorted [of "wr_index wr" "wr_nodes wr" cache a]
  by (auto simp: watch_ok_def)

lemma watch_add:
  assumes ok: "ngx_core_ok N" and wr: "watch_ok wr" and new: "iz_cache z \<notin> iz_cache ` set (watch_zones wr)"
    and nodes: "nodes = wr_nodes wr @ [\<lparr>zi_zone = z, zi_state = st\<rparr>]"
  shows "watch_ok (wr\<lparr>wr_nodes := nodes,
     wr_index := rbtree_insert N (zone_insert nodes) (wr_index wr) (iz_cache z) (length (wr_nodes wr))\<rparr>)"
proof -
  let ?n = "length (wr_nodes wr)"
  have old: "zi_cache nodes i = zi_cache (wr_nodes wr) i" if "i < ?n" for i
    using that by (simp add: zi_cache_def nodes nth_append)
  have last: "zi_cache nodes ?n = iz_cache z" by (simp add: zi_cache_def nodes)
  have fresh: "iz_cache z \<notin> fst ` set (inorder (wr_index wr))"
  proof
    assume "iz_cache z \<in> fst ` set (inorder (wr_index wr))"
    then obtain i where i: "i < ?n" "iz_cache z = zi_cache (wr_nodes wr) i" using wr by (auto simp: watch_ok_def)
    then have "zi_zone (wr_nodes wr ! i) \<in> set (watch_zones wr)" by (simp add: watch_zones_def)
    with i(2) new show False by (auto simp: zi_cache_def)
  qed
  have set: "insert (iz_cache z, ?n) (set (inorder (wr_index wr))) =
      (\<lambda>i. (zi_cache nodes i, i)) ` {..<Suc ?n}"
    using wr old last by (auto simp: watch_ok_def lessThan_Suc)
  note ins = zone_insert_sorted [OF _ fresh, of nodes ?n]
  have "keys_sorted (rbtree_insert N (zone_insert nodes) (wr_index wr) (iz_cache z) ?n) \<and>
      set (inorder (rbtree_insert N (zone_insert nodes) (wr_index wr) (iz_cache z) ?n)) =
        insert (iz_cache z, ?n) (set (inorder (wr_index wr)))"
    using ins wr by (auto simp: core_okD(6) [OF ok] keys_sorted_def watch_ok_def)
  with set show ?thesis by (simp add: watch_ok_def nodes)
qed

lemma init_zones_loop_ok:
  "ngx_core_ok N \<Longrightarrow> watch_ok wr \<Longrightarrow> distinct (map iz_cache (watch_zones wr @ zs)) \<Longrightarrow>
    init_zones_loop N pl zs wr = (rc, pl', wr') \<Longrightarrow>
    watch_ok wr' \<and> (rc = NGX_OK \<or> rc = NGX_ERROR) \<and> (pl = [] \<longrightarrow> rc = NGX_OK) \<and>
    (rc = NGX_OK \<longrightarrow> watch_zones wr' = watch_zones wr @ zs)"
proof (induction N pl zs wr rule: init_zones_loop.induct)
  case (2 N pl z zs wr)
  show ?case
  proof (cases "pool_alloc pl")
    case (Pair b pl1)
    show ?thesis
    proof (cases b)
      case False
      with "2.prems" Pair show ?thesis by (cases pl) auto
    next
      case True
      let ?nodes = "wr_nodes wr @ [\<lparr>zi_zone = z, zi_state = zero_state\<rparr>]"
      let ?wr = "wr\<lparr>wr_nodes := ?nodes, wr_index := rbtree_insert N (zone_insert ?nodes) (wr_index wr)
         (iz_cache z) (length (wr_nodes wr))\<rparr>"
      have wr: "watch_ok ?wr" by (rule watch_add [OF "2.prems"(1,2) _ refl]) (use "2.prems"(3) in auto)
      have zs: "watch_zones ?wr = watch_zones wr @ [z]" by (simp add: watch_zones_def)
      have run: "init_zones_loop N pl1 zs ?wr = (rc, pl', wr')" using "2.prems"(4) Pair True by (simp add: Let_def)
      have dis: "distinct (map iz_cache (watch_zones ?wr @ zs))" using "2.prems"(3) by (simp add: zs)
      have pl: "pl = [] \<longrightarrow> pl1 = []" using Pair by auto
      show ?thesis using "2.IH" [OF Pair [symmetric] _ refl refl "2.prems"(1) wr dis run] True pl by (simp add: zs)
    qed
  qed
qed simp

lemma find_zone_iff:
  "distinct (map iz_cache zs) \<Longrightarrow> find_zone zs c = Some z \<longleftrightarrow> z \<in> set zs \<and> iz_cache z = c"
  by (induction zs) auto

lemma runtime_lookup_zone_ok:
  assumes wr: "watch_ok wr" and dis: "distinct (map iz_cache (watch_zones wr))"
  shows "runtime_lookup_zone wr cache = find_zone (watch_zones wr) cache"
proof -
  have "runtime_lookup_zone wr cache = Some z \<longleftrightarrow> find_zone (watch_zones wr) cache = Some z" for z
  proof -
    have "runtime_lookup_zone wr cache = Some z \<longleftrightarrow>
        (\<exists>a. lookup_zone_index wr cache = Some a \<and> zi_zone (wr_nodes wr ! a) = z)"
      by (auto simp: runtime_lookup_zone_def split: option.splits)
    also have "\<dots> \<longleftrightarrow>
        (\<exists>a. a < length (wr_nodes wr) \<and> zi_cache (wr_nodes wr) a = cache \<and> zi_zone (wr_nodes wr ! a) = z)"
      by (simp add: lookup_index_watch [OF wr])
    also have "\<dots> \<longleftrightarrow> z \<in> set (watch_zones wr) \<and> iz_cache z = cache"
      unfolding watch_zones_def set_map zi_cache_def by (auto simp: in_set_conv_nth) (metis nth_mem imageI)
    finally show ?thesis by (simp add: find_zone_iff [OF dis])
  qed
  then show ?thesis
    by (cases "find_zone (watch_zones wr) cache"; cases "runtime_lookup_zone wr cache") auto
qed

lemma cache_set_zones [simp]: "watch_zones (zone_state_cache_set wr c st) = watch_zones wr"
proof (cases "lookup_zone_index wr c")
  case (Some a)
  have "map zi_zone ((wr_nodes wr)[a := (wr_nodes wr ! a)\<lparr>zi_state := st\<rparr>]) = map zi_zone (wr_nodes wr)"
    by (cases "a < length (wr_nodes wr)") (simp_all add: list_eq_iff_nth_eq nth_list_update)
  with Some show ?thesis by (simp add: zone_state_cache_set_def watch_zones_def)
qed (simp add: zone_state_cache_set_def)

lemma cache_set_ok: "watch_ok wr \<Longrightarrow> watch_ok (zone_state_cache_set wr c st)"
proof -
  have "zi_cache ((wr_nodes wr)[a := (wr_nodes wr ! a)\<lparr>zi_state := st\<rparr>]) i = zi_cache (wr_nodes wr) i" for a i
    by (cases "a < length (wr_nodes wr)") (auto simp: zi_cache_def nth_list_update list_update_beyond)
  then show "watch_ok wr \<Longrightarrow> watch_ok (zone_state_cache_set wr c st)"
    by (auto simp: zone_state_cache_set_def watch_ok_def split: option.splits)
qed

section \<open>Indexing one file\<close>

text \<open>What the index should hold for a file: what its bytes on disk say, or nothing.\<close>

definition indexed_meta :: "ngx_core \<Rightarrow> os \<Rightarrow> pool \<Rightarrow> ngx_str list option \<Rightarrow> ngx_str \<Rightarrow> file_meta option" where
  "indexed_meta N o0 pl headers path =
     (let hs = (if headers = Some [] then None else headers) in
      case parse_file N o0 pl path hs of
        (NGX_OK, Some pf) \<Rightarrow> Some (pf_key pf, pf_mtime pf, pf_size pf, if hs = None then [] else pf_tags pf)
      | _ \<Rightarrow> None)"

lemma process_file_meta:
  assumes ok: "ngx_core_ok N" and s: "store_ok N s" and nul: "c_nul \<notin> set zn" "c_nul \<notin> set path"
    and run: "process_file N now o0 pool_ok pl s zn path headers = (rc, s')"
  shows "store_ok N s' \<and> stray s' = stray s \<and> (rc = NGX_OK \<or> rc = NGX_ERROR) \<and>
    boot_done s' = boot_done s \<and>
    (\<forall>z. z \<noteq> zn \<longrightarrow> view s' z = view s z) \<and> (\<forall>q. q \<noteq> path \<longrightarrow> view s' zn q = view s zn q) \<and>
    (rc = NGX_OK \<longrightarrow> view s' zn path = indexed_meta N o0 pl headers path)"
proof (cases pool_ok)
  case False
  with run s show ?thesis by (auto simp: process_file_def)
next
  case True
  define hs where "hs = (if headers = Some [] then None else headers)"
  obtain r pf where p: "parse_file N o0 pl path hs = (r, pf)" by fastforce
  show ?thesis
  proof (cases "\<exists>f. r = NGX_OK \<and> pf = Some f")
    case True
    then obtain f where f: "r = NGX_OK" "pf = Some f" by blast
    have u: "upsert_file_meta N now s zn path (pf_key f) (pf_mtime f) (pf_size f)
        (if hs = None then None else Some (pf_tags f)) = (rc, s')"
      using run p f \<open>pool_ok\<close> by (auto simp: process_file_def hs_def split: if_splits)
    have m: "indexed_meta N o0 pl headers path = Some (pf_key f, pf_mtime f, pf_size f, if hs = None then [] else pf_tags f)"
      using p f by (simp add: indexed_meta_def hs_def [symmetric])
    note c = upsert_file_meta_cases [OF ok s nul u]
    show ?thesis
    proof (cases "rc = NGX_OK")
      case True
      with c m show ?thesis by (auto simp: tags_elts_def)
    next
      case False
      with c show ?thesis by auto
    qed
  next
    case False
    then have m: "indexed_meta N o0 pl headers path = None"
      using p by (auto simp: indexed_meta_def hs_def [symmetric] split: ngx_rc.splits option.splits)
    have d: "delete_file N now s zn path = (rc, s')"
      using run p False \<open>pool_ok\<close> by (auto simp: process_file_def hs_def split: if_splits ngx_rc.splits option.splits)
    with delete_file_spec [OF ok s nul(1) d] m show ?thesis by auto
  qed
qed

section \<open>The scan\<close>

text \<open>The regular files, and entries of unknown type, below a directory.\<close>

fun scan_files :: "ngx_str \<Rightarrow> (string \<times> dirent) list \<Rightarrow> ngx_str list" where
  "scan_files path [] = []"
| "scan_files path ((name, entry) # es) =
     (if name = ''.'' \<or> name = ''..'' then scan_files path es
      else (case entry of
          DtDir Unreadable \<Rightarrow> scan_files path es
        | DtDir (Dir sub) \<Rightarrow> scan_files (join_path path name) sub @ scan_files path es
        | DtOther \<Rightarrow> scan_files path es
        | _ \<Rightarrow> join_path path name # scan_files path es))"

definition scan_meta :: "ngx_core \<Rightarrow> scan_env \<Rightarrow> ngx_str \<Rightarrow> file_meta option" where
  "scan_meta N E p = indexed_meta N (se_os E) (snd (se_file_pool E p)) (iz_headers (se_zone E)) p"

text \<open>The relation between the stores before and after scanning the files \<open>ps\<close>.\<close>

definition scanned :: "ngx_core \<Rightarrow> scan_env \<Rightarrow> ngx_str set \<Rightarrow> shm \<Rightarrow> ngx_rc \<Rightarrow> shm \<Rightarrow> bool" where
  "scanned N E ps s rc s' \<longleftrightarrow> store_ok N s' \<and> stray s' = stray s \<and> boot_done s' = boot_done s \<and> (rc = NGX_OK \<or> rc = NGX_ERROR) \<and>
     (\<forall>z. z \<noteq> iz_zone_name (se_zone E) \<longrightarrow> view s' z = view s z) \<and>
     (\<forall>q. q \<notin> ps \<longrightarrow> view s' (iz_zone_name (se_zone E)) q = view s (iz_zone_name (se_zone E)) q) \<and>
     (rc = NGX_OK \<longrightarrow> (\<forall>p \<in> ps. view s' (iz_zone_name (se_zone E)) p = scan_meta N E p))"

lemma scanned_refl: "store_ok N s \<Longrightarrow> scanned N E {} s NGX_OK s"
  by (simp add: scanned_def)

lemma scanned_trans:
  "scanned N E A s NGX_OK s1 \<Longrightarrow> scanned N E B s1 rc s2 \<Longrightarrow> scanned N E (A \<union> B) s rc s2"
  unfolding scanned_def by (metis UnE UnI1 UnI2)

lemma scanned_error: "scanned N E A s NGX_ERROR s1 \<Longrightarrow> A \<subseteq> B \<Longrightarrow> scanned N E B s NGX_ERROR s1"
  by (auto simp: scanned_def)

lemma scanned_file:
  assumes "ngx_core_ok N" and "store_ok N s" and "c_nul \<notin> set (iz_zone_name (se_zone E))" and "c_nul \<notin> set p"
    and "process_file N (se_now E) (se_os E) (fst (se_file_pool E p)) (snd (se_file_pool E p)) s
       (iz_zone_name (se_zone E)) p (iz_headers (se_zone E)) = (rc, s')"
  shows "scanned N E {p} s rc s'"
  using process_file_meta [OF assms] by (auto simp: scanned_def scan_meta_def)

text \<open>The entry that is scanned is \<open>entry\<close>; the rest of the directory follows.\<close>

lemma scan_entry_cases:
  assumes "scan_entries N E path ((name, entry) # es) s al = (rc, s', al')"
    and "name \<noteq> ''.'' \<and> name \<noteq> ''..''" and "se_min_mtime E = 0"
  obtains (fail) "rc = NGX_ERROR" "s' = s"
  | (skip) al1 where "entry = DtDir Unreadable \<or> entry = DtOther" "scan_entries N E path es s al1 = (rc, s', al')"
  | (sub_fail) ds al1 where "entry = DtDir (Dir ds)" "rc = NGX_ERROR"
      "scan_entries N E (join_path path name) ds s al1 = (NGX_ERROR, s', al')"
  | (sub) ds al1 r s1 al2 where "entry = DtDir (Dir ds)" "r \<noteq> NGX_ERROR"
      "scan_entries N E (join_path path name) ds s al1 = (r, s1, al2)" "scan_entries N E path es s1 al2 = (rc, s', al')"
  | (reg_fail) "entry = DtReg \<or> entry = DtUnknown" "rc = NGX_ERROR"
      "process_file N (se_now E) (se_os E) (fst (se_file_pool E (join_path path name)))
         (snd (se_file_pool E (join_path path name))) s (iz_zone_name (se_zone E)) (join_path path name)
         (iz_headers (se_zone E)) = (NGX_ERROR, s')"
  | (reg) r s1 al1 where "entry = DtReg \<or> entry = DtUnknown" "r \<noteq> NGX_ERROR"
      "process_file N (se_now E) (se_os E) (fst (se_file_pool E (join_path path name)))
         (snd (se_file_pool E (join_path path name))) s (iz_zone_name (se_zone E)) (join_path path name)
         (iz_headers (se_zone E)) = (r, s1)" "scan_entries N E path es s1 al1 = (rc, s', al')"
proof -
  obtain b al1 where a: "pool_alloc al = (b, al1)" by fastforce
  have skips: "\<not> scan_skips E child" for child using assms(3) by (simp add: scan_skips_def)
  show ?thesis
  proof (cases b)
    case False
    with assms a show ?thesis using fail by simp
  next
    case True
    note run = assms(1) [unfolded scan_entries.simps, simplified a True assms(2) skips, simplified]
    show ?thesis
    proof (cases entry)
      case (DtDir d)
      show ?thesis
      proof (cases d)
        case Unreadable
        with run DtDir assms(2) skip show ?thesis by simp
      next
        case (Dir ds)
        obtain r s1 al2 where d: "scan_entries N E (join_path path name) ds s al1 = (r, s1, al2)" by (metis prod_cases3)
        with run DtDir Dir assms(2) sub_fail sub show ?thesis by (cases "r = NGX_ERROR") auto
      qed
    next
      case DtOther
      with run assms(2) skip show ?thesis by simp
    next
      case DtReg
      with run assms(2) reg_fail reg show ?thesis by (auto simp: Let_def split: prod.splits if_splits)
    next
      case DtUnknown
      with run assms(2) reg_fail reg show ?thesis by (auto simp: Let_def split: prod.splits if_splits)
    qed
  qed
qed

lemma scan_entries_ok:
  assumes ok: "ngx_core_ok N" and zn: "c_nul \<notin> set (iz_zone_name (se_zone E))" and mt: "se_min_mtime E = 0"
  shows "store_ok N s \<Longrightarrow> \<forall>p \<in> set (scan_files path es). c_nul \<notin> set p \<Longrightarrow>
    scan_entries N E path es s al = (rc, s', al') \<Longrightarrow> scanned N E (set (scan_files path es)) s rc s'"
proof (induction path es arbitrary: s al rc s' al' rule: scan_files.induct)
  case (1 path)
  then show ?case by (simp add: scanned_refl)
next
  case (2 path name entry es)
  let ?child = "join_path path name" and ?A = "set (scan_files path es)"
  note s = "2.prems"(1)
  show ?case
  proof (cases "name = ''.'' \<or> name = ''..''")
    case True
    with "2.IH"(1) [OF True s] "2.prems" show ?thesis by auto
  next
    case dot: False
    then have dot': "name \<noteq> ''.'' \<and> name \<noteq> ''..''" by simp
    from "2.prems"(3) dot' mt show ?thesis
    proof (cases rule: scan_entry_cases)
      case fail
      with s show ?thesis by (simp add: scanned_def)
    next
      case (skip al1)
      have files: "scan_files path ((name, entry) # es) = scan_files path es" using skip(1) dot' by auto
      show ?thesis
        using skip(1) "2.IH"(2) [OF dot _ refl s _ skip(2)] "2.IH"(7) [OF dot _ s _ skip(2)] "2.prems"(2)
        unfolding files by blast
    next
      case (sub_fail ds al1)
      have "scanned N E (set (scan_files ?child ds)) s NGX_ERROR s'"
        using "2.IH"(3) [OF dot sub_fail(1) refl s _ sub_fail(3)] "2.prems"(2) dot' sub_fail(1) by simp
      then show ?thesis using scanned_error sub_fail(1,2) dot' by simp
    next
      case (sub ds al1 r s1 al2)
      have 1: "scanned N E (set (scan_files ?child ds)) s r s1"
        using "2.IH"(3) [OF dot sub(1) refl s _ sub(3)] "2.prems"(2) dot' sub(1) by simp
      then have r: "r = NGX_OK" "store_ok N s1" using sub(2) by (auto simp: scanned_def)
      have "scanned N E ?A s1 rc s'"
        using "2.IH"(4) [OF dot sub(1) refl r(2) _ sub(4)] "2.prems"(2) dot' sub(1) by simp
      from scanned_trans [OF 1 [unfolded r(1)] this] show ?thesis using sub(1) dot' by simp
    next
      case reg_fail
      have files: "scan_files path ((name, entry) # es) = ?child # scan_files path es" using reg_fail(1) dot' by auto
      have "scanned N E {?child} s NGX_ERROR s'"
        by (rule scanned_file [OF ok s zn _ reg_fail(3)]) (use "2.prems"(2) files in auto)
      then show ?thesis using scanned_error [of N E "{?child}" s s' "set (?child # scan_files path es)"]
        unfolding files reg_fail(2) by auto
    next
      case (reg r s1 al1)
      have files: "scan_files path ((name, entry) # es) = ?child # scan_files path es" using reg(1) dot' by auto
      have 1: "scanned N E {?child} s r s1"
        by (rule scanned_file [OF ok s zn _ reg(3)]) (use "2.prems"(2) files in auto)
      then have r: "r = NGX_OK" "store_ok N s1" using reg(2) by (auto simp: scanned_def)
      have "scanned N E ?A s1 rc s'"
        using reg(1) "2.IH"(5) [OF dot _ r(2) _ reg(4)] "2.IH"(6) [OF dot _ r(2) _ reg(4)] "2.prems"(2)
        unfolding files by (meson list.set_intros(2))
      from scanned_trans [OF 1 [unfolded r(1)] this] show ?thesis unfolding files by simp
    qed
  qed
qed

section \<open>Bootstrapping zones\<close>

lemma boot_done_state: "boot_done t z = (case state_view t z of None \<Rightarrow> False | Some (b, _) \<Rightarrow> b)"
  by (simp add: boot_done_def state_view_def split: option.splits)

definition zone_files :: "scan_env \<Rightarrow> ngx_str \<Rightarrow> ngx_str list" where
  "zone_files E path = (case os_tree (se_os E) path of Unreadable \<Rightarrow> [] | Dir es \<Rightarrow> scan_files path es)"

lemma bootstrap_zone_ok:
  assumes ok: "ngx_core_ok N" and s: "store_ok N s" and zn: "c_nul \<notin> set (iz_zone_name (se_zone E))"
    and now: "se_now E \<noteq> 0" and nul: "\<forall>p \<in> set (zone_files E path). c_nul \<notin> set p"
    and run: "bootstrap_zone N E (Some path) s al = (rc, s', al')"
  shows "store_ok N s' \<and> stray s' = stray s \<and> (rc = NGX_OK \<or> rc = NGX_ERROR) \<and>
    (\<forall>z. z \<noteq> iz_zone_name (se_zone E) \<longrightarrow> view s' z = view s z) \<and>
    (\<forall>q. q \<notin> set (zone_files E path) \<longrightarrow> view s' (iz_zone_name (se_zone E)) q = view s (iz_zone_name (se_zone E)) q) \<and>
    (rc = NGX_ERROR \<longrightarrow> boot_done s' = boot_done s) \<and>
    (rc = NGX_OK \<longrightarrow> os_tree (se_os E) path \<noteq> Unreadable \<and>
       boot_done s' = (boot_done s)(iz_zone_name (se_zone E) := True) \<and>
       (\<forall>p \<in> set (zone_files E path). view s' (iz_zone_name (se_zone E)) p = scan_meta N E p))"
proof -
  let ?E = "E\<lparr>se_min_mtime := 0\<rparr>" and ?zn = "iz_zone_name (se_zone E)"
  let ?st = "\<lparr>st_bootstrap_complete = True, st_last_bootstrap_at = se_now E, st_last_updated_at = se_now E\<rparr>"
  have meta: "scan_meta N ?E = scan_meta N E" by (simp add: scan_meta_def fun_eq_iff)
  show ?thesis
  proof (cases "os_tree (se_os E) path")
    case Unreadable
    with run s show ?thesis by (simp add: bootstrap_zone_def scan_zone_def scan_recursive_def)
  next
    case (Dir es)
    obtain r1 s1 al1 where sc: "scan_entries N ?E path es s al = (r1, s1, al1)" by (metis prod_cases3)
    have files: "zone_files E path = scan_files path es" by (simp add: zone_files_def Dir)
    have 1: "scanned N ?E (set (scan_files path es)) s r1 s1"
      by (rule scan_entries_ok [OF ok _ _ s _ sc]) (use zn nul files in simp_all)
    note sc1 = 1 [unfolded scanned_def meta, simplified]
    show ?thesis
    proof (cases "r1 = NGX_OK")
      case False
      with run Dir sc have "rc = NGX_ERROR" "s' = s1"
        by (auto simp: bootstrap_zone_def scan_zone_def scan_recursive_def)
      with sc1 show ?thesis unfolding files by blast
    next
      case True
      obtain r2 s2 st2 where st: "set_zone_state N (se_now E) s1 ?zn ?st = (r2, s2, st2)" by (metis prod_cases3)
      have res: "rc = (if r2 = NGX_OK then NGX_OK else NGX_ERROR)" "s' = s2"
        using run Dir sc True st by (auto simp: bootstrap_zone_def scan_zone_def scan_recursive_def split: if_splits)
      have s1: "store_ok N s1" using sc1 by blast
      note z = set_zone_state_spec [OF ok s1 zn st]
      have "st2 = ?st" unfolding z(4) using now by (intro normalize_id) (simp add: state_consistent_def)
      moreover have "boot_done s2 = (boot_done s1)(?zn := st_bootstrap_complete st2)" if "r2 = NGX_OK"
        using set_zone_state_boot [OF ok s1 zn] st that by blast
      moreover have "boot_done s2 = boot_done s1" if "r2 \<noteq> NGX_OK"
        using z(6) [OF that] by (simp add: fun_eq_iff boot_done_state)
      ultimately show ?thesis using sc1 z(1-3) res True Dir unfolding files by auto
    qed
  qed
qed

definition deferred_zone :: "boot_env \<Rightarrow> index_zone \<Rightarrow> bool" where
  "deferred_zone B z \<longleftrightarrow> be_path B (iz_cache z) \<noteq> None \<and> be_cold B (iz_cache z) \<and> \<not> be_single B"

definition boot_names_ok :: "boot_env \<Rightarrow> int \<Rightarrow> index_zone list \<Rightarrow> bool" where
  "boot_names_ok B now zs \<longleftrightarrow> (\<forall>z \<in> set zs. c_nul \<notin> set (iz_zone_name z) \<and>
     (\<forall>path. be_path B (iz_cache z) = Some path \<longrightarrow>
        (\<forall>p \<in> set (zone_files (scan_env_of B now z) path). c_nul \<notin> set p)))"

lemma try_bootstrap_loop_ok:
  "ngx_core_ok N \<Longrightarrow> store_ok N s \<Longrightarrow> now \<noteq> 0 \<Longrightarrow> boot_names_ok B now zs \<Longrightarrow>
   try_bootstrap_loop N B now zs deferred s al wr = (rc, s', al', wr') \<Longrightarrow>
   store_ok N s' \<and> stray s' = stray s \<and> watch_zones wr' = watch_zones wr \<and> (watch_ok wr \<longrightarrow> watch_ok wr') \<and>
   (\<forall>z. boot_done s z \<longrightarrow> boot_done s' z) \<and>
   (rc = NGX_OK \<or> rc = NGX_AGAIN \<or> rc = NGX_ERROR) \<and>
   (rc \<noteq> NGX_ERROR \<longrightarrow> (rc = NGX_AGAIN \<longleftrightarrow> deferred \<or> (\<exists>z \<in> set zs. deferred_zone B z)) \<and>
      (\<forall>z \<in> set zs. be_path B (iz_cache z) \<noteq> None \<and> \<not> deferred_zone B z \<longrightarrow> boot_done s' (iz_zone_name z)))"
proof (induction zs arbitrary: deferred s al wr)
  case (Cons z zs)
  note ok = Cons.prems(1) and s = Cons.prems(2) and now = Cons.prems(3)
  have names: "boot_names_ok B now zs" "c_nul \<notin> set (iz_zone_name z)"
    using Cons.prems(4) by (auto simp: boot_names_ok_def)
  note IH = Cons.IH [OF ok _ now names(1)]
  show ?case
  proof (cases "be_path B (iz_cache z)")
    case None
    with Cons.prems(5) IH [OF s] show ?thesis by (simp add: deferred_zone_def)
  next
    case (Some path)
    show ?thesis
    proof (cases "deferred_zone B z")
      case True
      with Cons.prems(5) Some have "try_bootstrap_loop N B now zs True s al wr = (rc, s', al', wr')"
        by (simp add: deferred_zone_def)
      from IH [OF s this] True show ?thesis by auto
    next
      case warm: False
      obtain st where get: "get_zone_state now s (iz_zone_name z) = (NGX_OK, st)"
        by (simp add: get_zone_state_def Let_def)
      have st: "st_bootstrap_complete st = boot_done s (iz_zone_name z)"
        using get_zone_state_boot [OF s names(2), of now] get by simp
      show ?thesis
      proof (cases "st_bootstrap_complete st")
        case True
        with Cons.prems(5) Some warm get
        have "try_bootstrap_loop N B now zs deferred s al (zone_state_cache_set wr (iz_cache z) st) = (rc, s', al', wr')"
          by (auto simp: deferred_zone_def split: if_splits)
        from IH [OF s this] True warm st show ?thesis by (auto simp: cache_set_ok)
      next
        case False
        obtain r2 s2 al2 where b: "bootstrap_zone N (scan_env_of B now z) (Some path) s al = (r2, s2, al2)"
          by (metis prod_cases3)
        have bz: "store_ok N s2 \<and> stray s2 = stray s \<and> (r2 = NGX_OK \<or> r2 = NGX_ERROR) \<and>
            (r2 = NGX_ERROR \<longrightarrow> boot_done s2 = boot_done s) \<and>
            (r2 = NGX_OK \<longrightarrow> boot_done s2 = (boot_done s)(iz_zone_name z := True))"
          using bootstrap_zone_ok [OF ok s _ _ _ b] names(2) now Cons.prems(4) Some
          by (auto simp: scan_env_of_def boot_names_ok_def)
        show ?thesis
        proof (cases "r2 = NGX_OK")
          case r2: False
          with Cons.prems(5) Some warm get False b have "rc = NGX_ERROR" "s' = s2" "wr' = wr"
            by (auto simp: deferred_zone_def split: if_splits)
          with bz r2 show ?thesis by auto
        next
          case True
          obtain st3 where get3: "get_zone_state now s2 (iz_zone_name z) = (NGX_OK, st3)"
            by (simp add: get_zone_state_def Let_def)
          have "try_bootstrap_loop N B now zs deferred s2 al2 (zone_state_cache_set wr (iz_cache z) st3) = (rc, s', al', wr')"
            using Cons.prems(5) Some warm get False b True get3 by (auto simp: deferred_zone_def split: if_splits)
          from IH [OF _ this] bz True warm show ?thesis by (auto simp: cache_set_ok)
        qed
      qed
    qed
  qed
qed (simp, force split: if_splits)

lemma try_bootstrap_zones_ok:
  assumes "ngx_core_ok N" and "store_ok N s" and "now \<noteq> 0" and "boot_names_ok B now (mc_zones m)" and "store_writer sr"
    and "try_bootstrap_zones N B now (Some m) sr s al wr = (rc, s', al', wr')"
  shows "store_ok N s' \<and> stray s' = stray s \<and> (\<forall>z. boot_done s z \<longrightarrow> boot_done s' z) \<and>
    (rc = NGX_OK \<or> rc = NGX_AGAIN \<or> rc = NGX_ERROR) \<and>
    (rc \<noteq> NGX_ERROR \<longrightarrow> (rc = NGX_AGAIN \<longleftrightarrow> (\<exists>z \<in> set (mc_zones m). deferred_zone B z)) \<and>
      (\<forall>z \<in> set (mc_zones m). be_path B (iz_cache z) \<noteq> None \<and> \<not> deferred_zone B z \<longrightarrow>
         boot_done s' (iz_zone_name z)))"
proof (cases "mc_zones m = []")
  case True
  with assms(2,6) show ?thesis by (simp add: try_bootstrap_zones_def)
next
  case False
  with assms(5,6) have "try_bootstrap_loop N B now (mc_zones m) False s al wr = (rc, s', al', wr')"
    by (simp add: try_bootstrap_zones_def)
  from try_bootstrap_loop_ok [OF assms(1-4) this] show ?thesis by blast
qed

end
