(* ===== verification/Runtime_Theorems.thy ===== *)
theory Runtime_Theorems
  imports Runtime_Spec
begin

text \<open>The correctness theorems of the worker's runtime, each with an instance.\<close>

section \<open>A concrete worker\<close>

definition demo_zone :: index_zone where
  "demo_zone = \<lparr>iz_zone_name = ''z'', iz_cache = 7, iz_headers = Some [''T'']\<rparr>"

definition demo_main :: main_conf where
  "demo_main = \<lparr>mc_index_shm_size = Some 100, mc_index_zone = True, mc_zones = [demo_zone], mc_metrics_zone = True\<rparr>"

definition demo_boot :: boot_env where
  "demo_boot = \<lparr>be_os = tag_os\<lparr>os_tree := (\<lambda>_. Dir [(''0123456789abcdef0123456789abcdef'', DtReg)])\<rparr>,
     be_file_pool = (\<lambda>_. (True, [])), be_path = (\<lambda>_. Some ''/c''), be_cold = (\<lambda>_. False), be_single = False\<rparr>"

definition demo_worker :: worker where
  "demo_worker = \<lparr>wk_store = \<lparr>sr_writer = False, sr_reader = False, sr_owner = False\<rparr>, wk_watch = watch_zero,
     wk_shm = empty_shm, wk_pool = [], wk_alloc = []\<rparr>"

lemma demo_names [simp]: "boot_names_ok demo_boot now [demo_zone]"
  by (simp add: boot_names_ok_def demo_zone_def demo_boot_def zone_files_def scan_env_of_def join_path_def)

section \<open>Finding the zone of a cache\<close>

text \<open>C36: The tree of zones a worker builds at start finds, for every cache address, exactly the
  zone that the configuration registered for that cache, and nothing for any other cache; caching
  zone states, however often and for whatever cache, does not change what is found.\<close>

theorem zone_tree_exact:
  assumes "ngx_core_ok N" and "distinct (map iz_cache (mc_zones m))"
    and "runtime_init_zones N pl (Some m) watch_zero = (NGX_OK, pl', wr)"
  shows "runtime_lookup_zone (foldl (\<lambda>w (c, st). zone_state_cache_set w c st) wr sts) cache =
    find_zone (mc_zones m) cache"
proof -
  have wr: "watch_ok wr" "watch_zones wr = mc_zones m"
    using init_zones_loop_ok [OF assms(1), of watch_zero "mc_zones m" pl NGX_OK pl' wr] assms(2,3)
    by (simp_all add: runtime_init_zones_def)
  have "watch_ok (foldl (\<lambda>w (c, st). zone_state_cache_set w c st) wr sts) \<and>
      watch_zones (foldl (\<lambda>w (c, st). zone_state_cache_set w c st) wr sts) = mc_zones m"
    using wr by (induction sts arbitrary: wr) (auto simp: cache_set_ok)
  then show ?thesis using runtime_lookup_zone_ok assms(2) by metis
qed

theorem zone_tree_exact_witness:
  "let (rc, pl, wr) = runtime_init_zones core_total [] (Some demo_main) watch_zero
   in runtime_lookup_zone wr 7 = Some demo_zone \<and> runtime_lookup_zone wr 8 = None"
proof -
  obtain pl wr where r: "runtime_init_zones core_total [] (Some demo_main) watch_zero = (NGX_OK, pl, wr)"
    by (simp add: runtime_init_zones_def demo_main_def Let_def)
  from zone_tree_exact [OF core_total_ok(1) _ r, of "[]"] r show ?thesis
    by (simp add: demo_main_def) (simp add: demo_zone_def)
qed

section \<open>Bootstrapping\<close>

text \<open>C13: The cold-start scan of a zone makes the index agree with the disk: when it returns
  \<open>NGX_OK\<close> every file below the cache directory that the scan reaches is indexed by exactly what its
  bytes say (or not indexed when they cannot be parsed), every other path of the zone keeps its entry,
  and the zone, and no other, is marked complete; when it fails no zone becomes complete.  In both
  cases the store keeps its invariant, other zones their content, and no block leaks.\<close>

theorem bootstrap_zone_refines:
  assumes "ngx_core_ok N" and "store_ok N s" and "c_nul \<notin> set (iz_zone_name (se_zone E))"
    and "se_now E \<noteq> 0" and "\<forall>p \<in> set (zone_files E path). c_nul \<notin> set p"
    and "bootstrap_zone N E (Some path) s al = (rc, s', al')"
  shows "store_ok N s' \<and> stray s' = stray s \<and> (rc = NGX_OK \<or> rc = NGX_ERROR) \<and>
    (\<forall>z. z \<noteq> iz_zone_name (se_zone E) \<longrightarrow> view s' z = view s z) \<and>
    (if rc = NGX_OK
     then boot_done s' = (boot_done s)(iz_zone_name (se_zone E) := True) \<and>
       view s' (iz_zone_name (se_zone E)) = (\<lambda>p. if p \<in> set (zone_files E path) then scan_meta N E p
          else view s (iz_zone_name (se_zone E)) p)
     else boot_done s' = boot_done s)"
  using bootstrap_zone_ok [OF assms] by (auto simp: fun_eq_iff)

theorem bootstrap_zone_refines_witness:
  "let E = scan_env_of demo_boot 5 demo_zone;
       (rc, s', al') = bootstrap_zone core_total E (Some ''/c'') empty_shm []
   in store_ok core_total s' \<and> stray s' = {} \<and> (rc = NGX_OK \<longrightarrow> boot_done s' ''z'')"
proof -
  let ?E = "scan_env_of demo_boot 5 demo_zone"
  obtain rc s' al' where b: "bootstrap_zone core_total ?E (Some ''/c'') empty_shm [] = (rc, s', al')"
    by (metis prod_cases3)
  have "\<forall>p \<in> set (zone_files ?E ''/c''). c_nul \<notin> set p" "c_nul \<notin> set (iz_zone_name (se_zone ?E))" "se_now ?E \<noteq> 0"
    using demo_names [of 5] by (simp_all add: boot_names_ok_def scan_env_of_def) (simp_all add: demo_boot_def)
  from bootstrap_zone_refines [OF core_total_ok(1) store_ok_empty(1) this(2,3,1) b]
  show ?thesis by (simp add: b) (simp add: scan_env_of_def demo_zone_def)
qed

text \<open>C17: Bootstrapping all zones is eventually complete and never undoes anything: a zone once
  complete stays complete; \<open>NGX_OK\<close> means every zone with a directory is complete; \<open>NGX_AGAIN\<close> is
  returned exactly when the loader of some zone is still cold, and then every zone that is not
  deferred is complete.  The store keeps its invariant and leaks nothing.\<close>

theorem try_bootstrap_complete:
  assumes "ngx_core_ok N" and "store_ok N s" and "now \<noteq> 0" and "boot_names_ok B now (mc_zones m)" and "store_writer sr"
    and "try_bootstrap_zones N B now (Some m) sr s al wr = (rc, s', al', wr')"
  shows "store_ok N s' \<and> stray s' = stray s \<and> (\<forall>z. boot_done s z \<longrightarrow> boot_done s' z) \<and>
    (rc = NGX_OK \<or> rc = NGX_AGAIN \<or> rc = NGX_ERROR) \<and>
    (rc \<noteq> NGX_ERROR \<longrightarrow> (rc = NGX_AGAIN \<longleftrightarrow> (\<exists>z \<in> set (mc_zones m). deferred_zone B z)) \<and>
      (\<forall>z \<in> set (mc_zones m). be_path B (iz_cache z) \<noteq> None \<and> \<not> deferred_zone B z \<longrightarrow>
         boot_done s' (iz_zone_name z)))"
  by (rule try_bootstrap_zones_ok [OF assms])

theorem try_bootstrap_complete_witness:
  "let (rc, s', al', wr') = try_bootstrap_zones core_total demo_boot 5 (Some demo_main)
         \<lparr>sr_writer = True, sr_reader = True, sr_owner = True\<rparr> empty_shm [] watch_zero
   in rc \<noteq> NGX_AGAIN \<and> (rc = NGX_OK \<longrightarrow> boot_done s' ''z'')"
proof -
  let ?sr = "\<lparr>sr_writer = True, sr_reader = True, sr_owner = True\<rparr>"
  obtain rc s' al' wr' where t: "try_bootstrap_zones core_total demo_boot 5 (Some demo_main) ?sr empty_shm [] watch_zero =
      (rc, s', al', wr')" by (metis prod_cases4)
  have "boot_names_ok demo_boot 5 (mc_zones demo_main)" by (simp add: demo_main_def)
  from try_bootstrap_complete [OF core_total_ok(1) store_ok_empty(1) _ this _ t] show ?thesis
    by (simp add: t store_writer_def) (auto simp: demo_main_def demo_zone_def demo_boot_def deferred_zone_def)
qed

text \<open>One event of the retry timer: \<open>timer_rc\<close> is the code of its bootstrap.\<close>

definition timer_rc :: "ngx_core \<Rightarrow> boot_env \<Rightarrow> int \<Rightarrow> main_conf \<Rightarrow> worker \<Rightarrow> ngx_rc" where
  "timer_rc N B now m w = fst (try_bootstrap_zones N B now (Some m) (wk_store w) (wk_shm w) (wk_alloc w)
     ((wk_watch w)\<lparr>wr_timer := False\<rparr>))"

fun timer_events :: "ngx_core \<Rightarrow> main_conf \<Rightarrow> (boot_env \<times> int) list \<Rightarrow> worker \<Rightarrow> worker" where
  "timer_events N m [] w = w"
| "timer_events N m ((B, now) # es) w = timer_events N m es (bootstrap_timer_handler N B now (Some m) w)"

definition zones_done :: "boot_env \<Rightarrow> main_conf \<Rightarrow> worker \<Rightarrow> bool" where
  "zones_done B m w \<longleftrightarrow> (\<forall>z \<in> set (mc_zones m). be_path B (iz_cache z) \<noteq> None \<and> \<not> deferred_zone B z \<longrightarrow>
     boot_done (wk_shm w) (iz_zone_name z))"

lemma timer_event:
  assumes "ngx_core_ok N" and "store_ok N (wk_shm w)" and "now \<noteq> 0" and "boot_names_ok B now (mc_zones m)"
    and "store_writer (wk_store w)"
  defines "w2 \<equiv> bootstrap_timer_handler N B now (Some m) w"
  shows "store_ok N (wk_shm w2)" and "wk_store w2 = wk_store w"
    and "\<forall>z. boot_done (wk_shm w) z \<longrightarrow> boot_done (wk_shm w2) z"
    and "wr_timer (wk_watch w2) \<longleftrightarrow> timer_rc N B now m w \<noteq> NGX_ERROR \<and> (\<exists>z \<in> set (mc_zones m). deferred_zone B z)"
    and "timer_rc N B now m w \<noteq> NGX_ERROR \<Longrightarrow> zones_done B m w2"
proof -
  obtain rc s al wr where h: "try_bootstrap_zones N B now (Some m) (wk_store w) (wk_shm w) (wk_alloc w)
      ((wk_watch w)\<lparr>wr_timer := False\<rparr>) = (rc, s, al, wr)" by (metis prod_cases4)
  note t = try_bootstrap_zones_ok [OF assms(1-5) h]
  have rc: "timer_rc N B now m w = rc" by (simp add: timer_rc_def h)
  have w2: "w2 = w\<lparr>wk_shm := s, wk_alloc := al, wk_watch := wr\<lparr>wr_timer := rc = NGX_AGAIN\<rparr>\<rparr>"
    by (simp add: w2_def bootstrap_timer_handler_def h)
  show "store_ok N (wk_shm w2)" "wk_store w2 = wk_store w" "\<forall>z. boot_done (wk_shm w) z \<longrightarrow> boot_done (wk_shm w2) z"
    "wr_timer (wk_watch w2) \<longleftrightarrow> timer_rc N B now m w \<noteq> NGX_ERROR \<and> (\<exists>z \<in> set (mc_zones m). deferred_zone B z)"
    "timer_rc N B now m w \<noteq> NGX_ERROR \<Longrightarrow> zones_done B m w2"
    using t unfolding rc by (auto simp: w2 zones_done_def)
qed

lemma timer_events_keep:
  assumes "ngx_core_ok N" and "\<forall>(B, now) \<in> set es. now \<noteq> 0 \<and> boot_names_ok B now (mc_zones m)"
    and "store_ok N (wk_shm w)" and "store_writer (wk_store w)"
  shows "store_ok N (wk_shm (timer_events N m es w)) \<and> wk_store (timer_events N m es w) = wk_store w \<and>
    (\<forall>z. boot_done (wk_shm w) z \<longrightarrow> boot_done (wk_shm (timer_events N m es w)) z)"
  using assms(2-)
proof (induction es arbitrary: w)
  case (Cons x es)
  obtain B now where x: "x = (B, now)" by fastforce
  have p: "now \<noteq> 0" "boot_names_ok B now (mc_zones m)" using Cons.prems(1) by (auto simp: x)
  note e = timer_event [OF assms(1) Cons.prems(2) p Cons.prems(3)]
  have "store_writer (wk_store (bootstrap_timer_handler N B now (Some m) w))" using e(2) Cons.prems(3) by simp
  with Cons.IH [OF _ e(1)] Cons.prems(1) e(2,3) show ?case by (simp add: x)
qed simp

text \<open>C16: A worker keeps retrying exactly as long as it must.  After a successful start the retry
  timer is set if and only if the loader of some registered zone is still cold, the index is open for
  reading and writing, and every zone that is not deferred is complete.  The same holds after any
  number of timer events: the last one has set the timer again if and only if some zone was still
  deferred at it and its bootstrap did not fail, and when it did not fail every zone that is not
  deferred is complete; so when the timer is off after an event that did not fail, no zone is left to do.
  No zone that was complete ever becomes incomplete.\<close>

theorem worker_retries:
  assumes "ngx_core_ok N" and "store_ok N (wk_shm w)" and "mc_index_zone m"
    and "\<forall>(B, now) \<in> set ((B0, now0) # es @ [(B2, now2)]). now \<noteq> 0 \<and> boot_names_ok B now (mc_zones m)"
    and "init_process N B0 now0 (Some m) ready w = (NGX_OK, w1)"
  shows "(wr_timer (wk_watch w1) \<longleftrightarrow> (\<exists>z \<in> set (mc_zones m). deferred_zone B0 z)) \<and>
    store_writer (wk_store w1) \<and> sr_reader (wk_store w1) \<and> store_ok N (wk_shm w1) \<and> zones_done B0 m w1 \<and>
    (let w2 = timer_events N m es w1; w3 = timer_events N m (es @ [(B2, now2)]) w1
     in store_ok N (wk_shm w3) \<and> (\<forall>z. boot_done (wk_shm w1) z \<longrightarrow> boot_done (wk_shm w3) z) \<and>
        (wr_timer (wk_watch w3) \<longleftrightarrow>
           timer_rc N B2 now2 m w2 \<noteq> NGX_ERROR \<and> (\<exists>z \<in> set (mc_zones m). deferred_zone B2 z)) \<and>
        (timer_rc N B2 now2 m w2 \<noteq> NGX_ERROR \<longrightarrow> zones_done B2 m w3 \<and>
           (\<not> wr_timer (wk_watch w3) \<longrightarrow> (\<forall>z \<in> set (mc_zones m). be_path B2 (iz_cache z) \<noteq> None \<longrightarrow>
              boot_done (wk_shm w3) (iz_zone_name z)))))"
proof -
  have conf: "store_configured (Some m)" using assms(3) by (simp add: store_configured_def)
  have e0: "now0 \<noteq> 0" "boot_names_ok B0 now0 (mc_zones m)" and e2: "now2 \<noteq> 0" "boot_names_ok B2 now2 (mc_zones m)"
    and es: "\<forall>(B, now) \<in> set es. now \<noteq> 0 \<and> boot_names_ok B now (mc_zones m)" using assms(4) by auto
  obtain pl1 wr1 pl2 sr2 pl3 sr3 wr3 rc4 s4 al4 wr4 where
    c: "store_runtime_init (Some m) ready True pl1 = (NGX_OK, pl2, sr2)"
      "zone_state_cache_sync now0 (wk_shm w) (Some m) ready pl2 sr2 wr1 = (NGX_OK, pl3, sr3, wr3)"
      "try_bootstrap_zones N B0 now0 (Some m) sr3 (wk_shm w) (wk_alloc w) wr3 = (rc4, s4, al4, wr4)"
      "rc4 \<noteq> NGX_ERROR"
    and w1: "wk_store w1 = sr3" "wk_shm w1 = s4" "wr_timer (wk_watch w1) \<longleftrightarrow> rc4 = NGX_AGAIN"
    using assms(5) conf
    by (auto simp: init_process_def process_init_def init_runtime_def Let_def split: prod.splits if_splits)
  have sr2: "sr_reader sr2" "sr_writer sr2"
    using c(1) conf by (auto simp: store_runtime_init_def Let_def split: prod.splits if_splits)
  then have sr3: "sr3 = sr2"
    using c(2) by (auto simp: zone_state_cache_sync_def store_reader_def split: if_splits)
  have wr: "store_writer sr3" using sr2 by (simp add: sr3 store_writer_def)
  note t = try_bootstrap_zones_ok [OF assms(1,2) e0 wr c(3)]
  have s1: "store_ok N (wk_shm w1)" "store_writer (wk_store w1)" "zones_done B0 m w1"
    using t c(4) wr by (auto simp: w1 zones_done_def)
  let ?w2 = "timer_events N m es w1" and ?w3 = "timer_events N m (es @ [(B2, now2)]) w1"
  note k = timer_events_keep [OF assms(1) es s1(1,2)]
  have w3: "?w3 = bootstrap_timer_handler N B2 now2 (Some m) ?w2"
    by (induction es arbitrary: w1) auto
  have wr2: "store_ok N (wk_shm ?w2)" "store_writer (wk_store ?w2)" using k s1(2) by simp_all
  note e = timer_event [OF assms(1) wr2(1) e2 wr2(2), folded w3]
  have all: "\<forall>z \<in> set (mc_zones m). be_path B2 (iz_cache z) \<noteq> None \<longrightarrow> boot_done (wk_shm ?w3) (iz_zone_name z)"
    if "timer_rc N B2 now2 m ?w2 \<noteq> NGX_ERROR" "\<not> wr_timer (wk_watch ?w3)"
    using e(4,5) that by (auto simp: zones_done_def)
  have "wr_timer (wk_watch w1) \<longleftrightarrow> (\<exists>z \<in> set (mc_zones m). deferred_zone B0 z)" using t c(4) w1 by simp
  then show ?thesis using s1 wr sr2 k e all unfolding Let_def w1(1) sr3 by blast
qed

text \<open>A worker that starts while the loader is cold, and its first timer event, when it is done.\<close>

definition cold_boot :: boot_env where
  "cold_boot = demo_boot\<lparr>be_cold := \<lambda>_. True\<rparr>"

definition loaded_boot :: boot_env where
  "loaded_boot = demo_boot\<lparr>be_os := tag_os\<lparr>os_tree := (\<lambda>_. Dir [])\<rparr>\<rparr>"

lemma cold_names [simp]: "boot_names_ok cold_boot now [demo_zone]" "boot_names_ok loaded_boot now [demo_zone]"
  by (simp_all add: boot_names_ok_def demo_zone_def demo_boot_def cold_boot_def loaded_boot_def zone_files_def
      scan_env_of_def join_path_def)

lemma cold_zones: "mc_zones demo_main = [demo_zone]" "be_path loaded_boot (iz_cache demo_zone) \<noteq> None"
  "iz_zone_name demo_zone = ''z''" "deferred_zone cold_boot demo_zone" "\<not> deferred_zone loaded_boot demo_zone"
  by (simp_all add: demo_main_def demo_zone_def demo_boot_def cold_boot_def loaded_boot_def deferred_zone_def)

lemma cold_start_codes:
  "fst (init_process core_total cold_boot 5 (Some demo_main) True demo_worker) = NGX_OK"
  "timer_rc core_total cold_boot 6 demo_main
     (snd (init_process core_total cold_boot 5 (Some demo_main) True demo_worker)) = NGX_OK \<or>
   timer_rc core_total cold_boot 6 demo_main
     (snd (init_process core_total cold_boot 5 (Some demo_main) True demo_worker)) = NGX_AGAIN"
  "timer_rc core_total loaded_boot 7 demo_main (timer_events core_total demo_main [(cold_boot, 6)]
     (snd (init_process core_total cold_boot 5 (Some demo_main) True demo_worker))) = NGX_OK"
  by code_simp+

theorem worker_retries_witness:
  "let (rc, w1) = init_process core_total cold_boot 5 (Some demo_main) True demo_worker;
       w2 = timer_events core_total demo_main [(cold_boot, 6)] w1;
       w3 = timer_events core_total demo_main [(cold_boot, 6), (loaded_boot, 7)] w1
   in rc = NGX_OK \<and> wr_timer (wk_watch w1) \<and> wr_timer (wk_watch w2) \<and> \<not> wr_timer (wk_watch w3) \<and>
      boot_done (wk_shm w3) ''z''"
proof -
  obtain w1 where i: "init_process core_total cold_boot 5 (Some demo_main) True demo_worker = (NGX_OK, w1)"
    using cold_start_codes(1) by (metis prod.collapse)
  have n: "\<forall>(B, now) \<in> set ((cold_boot, 5) # [] @ [(cold_boot, 6)]). now \<noteq> 0 \<and> boot_names_ok B now (mc_zones demo_main)"
    "\<forall>(B, now) \<in> set ((cold_boot, 5) # [(cold_boot, 6)] @ [(loaded_boot, 7)]). now \<noteq> 0 \<and> boot_names_ok B now (mc_zones demo_main)"
    by (simp_all add: cold_zones(1))
  have m: "mc_index_zone demo_main" by (simp add: demo_main_def)
  have s: "store_ok core_total (wk_shm demo_worker)" by (simp add: demo_worker_def)
  note a = worker_retries [OF core_total_ok(1) s m n(1) i] and b = worker_retries [OF core_total_ok(1) s m n(2) i]
  show ?thesis using a b cold_start_codes cold_zones by (auto simp: i Let_def)
qed

end
