(* ===== verification/Format.thy ===== *)
theory Format
  imports Ngx
begin

text \<open>
  The text output of the module: decimal numbers, bounded printing (\<^verbatim>\<open>ngx_snprintf\<close>,
  \<^verbatim>\<open>ngx_slprintf\<close>) and JSON escaping (\<^verbatim>\<open>src/src/ngx_cache_pilot_module.c\<close>).
\<close>

section \<open>Templates and numbers\<close>

text \<open>In the templates of the model a backquote stands for a double quote and a tilde for a
  newline; the code's templates contain neither.\<close>

definition tq :: "string \<Rightarrow> string" where
  "tq s = map (\<lambda>c. if c = CHR 0x60 then CHR 0x22 else if c = CHR 0x7E then CHR 0x0A else c) s"

definition digit :: "nat \<Rightarrow> char" where
  "digit n = char_of (48 + n)"

fun decimal :: "nat \<Rightarrow> string" where
  "decimal n = (if n < 10 then [digit n] else decimal (n div 10) @ [digit (n mod 10)])"

declare decimal.simps [simp del]

definition decimal_int :: "int \<Rightarrow> string" where
  "decimal_int n = (if n < 0 then ''-'' @ decimal (nat (- n)) else decimal (nat n))"

text \<open>Printing stops at the end of the buffer: \<open>cap\<close> bytes in all.\<close>

definition slprintf :: "nat \<Rightarrow> string \<Rightarrow> string \<Rightarrow> string" where
  "slprintf cap buf s = buf @ take (cap - length buf) s"

definition push_char :: "nat \<Rightarrow> string \<Rightarrow> char \<Rightarrow> string" where
  "push_char cap buf c = (if length buf < cap then buf @ [c] else buf)"

text \<open>\<^verbatim>\<open>%s\<close> prints up to the first NUL.\<close>

definition c_string :: "string \<Rightarrow> string" where
  "c_string s = takeWhile (\<lambda>c. c \<noteq> c_nul) s"

text \<open>\<^verbatim>\<open>ngx_strnstr\<close> finds a string within the first \<open>n\<close> bytes of another, up to a NUL.\<close>

definition strnstr :: "string \<Rightarrow> string \<Rightarrow> nat \<Rightarrow> bool" where
  "strnstr s1 s2 n \<longleftrightarrow>
     (let h = c_prefix n s1 in list_ex (\<lambda>i. take (length s2) (drop i h) = s2) [0..<Suc (length h)])"

text \<open>A sequence of calls that print one after the other into a buffer of \<open>cap\<close> bytes.\<close>

definition print_all :: "nat \<Rightarrow> string list \<Rightarrow> string" where
  "print_all cap pieces = foldl (slprintf cap) [] pieces"

lemma length_tq [simp]: "length (tq s) = length s"
  by (simp add: tq_def)

lemma slprintf_fits: "length (buf @ s) \<le> cap \<Longrightarrow> slprintf cap buf s = buf @ s"
  by (simp add: slprintf_def)

lemma slprintf_take: "length buf \<le> cap \<Longrightarrow> slprintf cap buf s = take cap (buf @ s)"
  by (simp add: slprintf_def)

lemma slprintf_take2: "slprintf cap (take cap a) s = take cap (a @ s)"
  by (auto simp: slprintf_def min_def)

lemma print_all_take: "print_all cap pieces = take cap (concat pieces)"
proof -
  have "foldl (slprintf cap) (take cap a) ps = take cap (a @ concat ps)" for a ps
    by (induction ps arbitrary: a) (simp_all add: slprintf_take2 del: take_append)
  from this [of "[]"] show ?thesis by (simp add: print_all_def)
qed

lemma push_char_slprintf: "push_char cap buf c = slprintf cap buf [c]"
  by (auto simp: push_char_def slprintf_def take_Cons')

lemma length_decimal: "n < 10 ^ k \<Longrightarrow> 0 < k \<Longrightarrow> length (decimal n) \<le> k"
proof (induction n arbitrary: k rule: decimal.induct)
  case (1 n)
  show ?case
  proof (cases "n < 10")
    case True
    then show ?thesis using "1.prems" by (simp add: decimal.simps [of n])
  next
    case False
    obtain j where k: "k = Suc j" using "1.prems" by (cases k) auto
    have "0 < j" using "1.prems"(1) False k by (cases j) auto
    moreover have "n div 10 < 10 ^ j" using "1.prems"(1) by (simp add: k less_mult_imp_div_less mult.commute)
    ultimately have "length (decimal (n div 10)) \<le> j" using "1.IH" [OF False] by blast
    then show ?thesis using False by (simp add: decimal.simps [of n] k)
  qed
qed

lemma length_decimal_word: "length (decimal (unat (w :: 64 word))) \<le> 20"
proof (rule length_decimal)
  have "unat w < 2 ^ 64" using unsigned_less [of w] by simp
  also have "(2 :: nat) ^ 64 < 10 ^ 20" by simp
  finally show "unat w < 10 ^ 20" .
qed simp

section \<open>JSON strings\<close>

definition c_code :: "char \<Rightarrow> nat" where
  "c_code c = of_char c"

fun json_escaped_len :: "string \<Rightarrow> nat" where
  "json_escaped_len [] = 0"
| "json_escaped_len (c # cs) =
     (if c = CHR 0x22 \<or> c = CHR 0x5C then 2 + json_escaped_len cs
      else if c_code c < 0x20 then 6 + json_escaped_len cs
      else 1 + json_escaped_len cs)"

definition hex_char :: "nat \<Rightarrow> char" where
  "hex_char n = ''0123456789abcdef'' ! n"

fun json_escape :: "string \<Rightarrow> string" where
  "json_escape [] = []"
| "json_escape (c # cs) =
     (if c = CHR 0x22 \<or> c = CHR 0x5C then CHR 0x5C # c # json_escape cs
      else if c_code c < 0x20
      then [CHR 0x5C, CHR ''u'', CHR ''0'', CHR ''0'', hex_char (c_code c div 16), hex_char (c_code c mod 16)] @
           json_escape cs
      else c # json_escape cs)"

lemma json_escape_len: "length (json_escape s) = json_escaped_len s"
  by (induction s rule: json_escape.induct) auto

text \<open>Reading a JSON string back: the characters up to the closing quote.\<close>

fun json_unescape :: "string \<Rightarrow> (string \<times> string) option" where
  "json_unescape [] = None"
| "json_unescape (c # cs) =
     (if c = CHR 0x22 then Some ([], cs)
      else if c_code c < 0x20 then None
      else if c = CHR 0x5C then
        (case cs of
           d # ds \<Rightarrow>
             if d = CHR 0x22 \<or> d = CHR 0x5C then
               map_option (\<lambda>(s, r). (d # s, r)) (json_unescape ds)
             else if d = CHR ''u'' then
               (case ds of
                  a # b # h # l # rest \<Rightarrow>
                    if a = CHR ''0'' \<and> b = CHR ''0'' then
                      (case (hex_value h, hex_value l) of
                         (Some x, Some y) \<Rightarrow>
                           map_option (\<lambda>(s, r). (char_of (nat (x * 16 + y)) # s, r)) (json_unescape rest)
                       | _ \<Rightarrow> None)
                    else None
                | _ \<Rightarrow> None)
             else None
         | [] \<Rightarrow> None)
      else map_option (\<lambda>(s, r). (c # s, r)) (json_unescape cs))"

declare json_unescape.simps [simp del]
lemmas json_unescape_Cons = json_unescape.simps(2)

lemma hex_value_hex_char: "n < 16 \<Longrightarrow> hex_value (hex_char n) = Some (int n)"
proof -
  have "list_all (\<lambda>n. hex_value (hex_char n) = Some (int n)) [0..<16]" by code_simp
  then show "n < 16 \<Longrightarrow> hex_value (hex_char n) = Some (int n)" by (simp add: list_all_iff)
qed

text \<open>What was escaped reads back, and ends where the closing quote was put.\<close>

lemma json_unescape_escape: "json_unescape (json_escape s @ CHR 0x22 # rest) = Some (s, rest)"
proof (induction s rule: json_escape.induct)
  case 1
  then show ?case by (simp add: json_unescape_Cons)
next
  case (2 c cs)
  consider "c = CHR 0x22 \<or> c = CHR 0x5C" | (ctl) "c \<noteq> CHR 0x22" "c \<noteq> CHR 0x5C" "c_code c < 0x20"
    | (plain) "c \<noteq> CHR 0x22" "c \<noteq> CHR 0x5C" "\<not> c_code c < 0x20" by blast
  then show ?case
  proof cases
    case 1
    with 2(1) show ?thesis by (auto simp: json_unescape_Cons c_code_def)
  next
    case ctl
    have "hex_value (hex_char (c_code c div 16)) = Some (int (c_code c div 16))"
      "hex_value (hex_char (c_code c mod 16)) = Some (int (c_code c mod 16))"
      using ctl(3) by (simp_all add: hex_value_hex_char)
    moreover have "nat (int (c_code c div 16) * 16 + int (c_code c mod 16)) = c_code c"
      by (metis div_mult_mod_eq nat_int of_nat_add of_nat_mult of_nat_numeral)
    moreover have "char_of (c_code c) = c" by (simp add: c_code_def)
    ultimately show ?thesis using 2(2) ctl by (simp add: json_unescape_Cons [of "CHR 0x5C"] c_code_def)
  next
    case plain
    with 2(3) show ?thesis by (simp add: json_unescape_Cons [of c])
  qed
qed

lemma json_escape_no_nul: "c_nul \<notin> set (json_escape s)"
proof (induction s rule: json_escape.induct)
  case (2 c cs)
  have "c_nul \<noteq> hex_char n" if "n < 16" for n
  proof
    assume "c_nul = hex_char n"
    moreover have "hex_value c_nul = None" unfolding c_nul_def by code_simp
    ultimately show False using hex_value_hex_char [OF that] by simp
  qed
  moreover have "c_code c div 16 < 16" "c_code c mod 16 < 16"
    using nat_of_char_less_256 [of c] by (simp_all add: c_code_def less_mult_imp_div_less)
  moreover have "c_code c_nul = 0" by (simp add: c_code_def c_nul_def)
  ultimately show ?case using 2 by (auto simp del: c_nul_char split: if_splits) (simp_all add: c_nul_def)
qed simp

end
