(* ===== verification/Request.thy ===== *)
theory Request
  imports Runtime Cache_File Format
begin

text \<open>
  The state of a purge request and its small operations: the request context, the counters, the
  mode of a purge, the switch of the purge directive, and the responses
  (\<^verbatim>\<open>src/src/ngx_cache_pilot_module.c\<close>, \<^verbatim>\<open>src/src/ngx_cache_pilot_index.h\<close>,
  \<^verbatim>\<open>src/src/ngx_cache_pilot_metrics.h\<close>).
\<close>

section \<open>Enumerations and structures\<close>

datatype purge_path =
  PATH_UNSET | EXACT_KEY_FANOUT | WILDCARD_INDEX | FILESYSTEM_FALLBACK | REUSED_PERSISTED_INDEX

datatype purge_stats = STATS_EXACT | STATS_WILDCARD | STATS_TAG | STATS_ALL

datatype decline_reason =
    DECLINE_UNSET
  | INDEX_NOT_CONFIGURED
  | UNSUPPORTED_PLATFORM
  | FLUSH_PENDING_FAILED
  | ZONE_NOT_REGISTERED
  | READER_UNAVAILABLE
  | INDEX_NOT_READY
  | NOT_FOUND

record request_ctx =
  cx_purge_path :: purge_path
  cx_decline_reason :: decline_reason
  cx_purged_exact_hard :: "64 word"
  cx_purged_exact_soft :: "64 word"
  cx_purged_wildcard_hard :: "64 word"
  cx_purged_wildcard_soft :: "64 word"
  cx_purged_tag_hard :: "64 word"
  cx_purged_tag_soft :: "64 word"
  cx_purged_all_hard :: "64 word"
  cx_purged_all_soft :: "64 word"
  cx_index_tags :: "ngx_str list option"
  cx_index_zone_name :: ngx_str

text \<open>The shared counters: how many purges of each kind, and how many entries they purged.\<close>

record metrics =
  mt_purges_exact_hard :: "64 word"
  mt_purges_exact_soft :: "64 word"
  mt_purges_wildcard_hard :: "64 word"
  mt_purges_wildcard_soft :: "64 word"
  mt_purges_tag_hard :: "64 word"
  mt_purges_tag_soft :: "64 word"
  mt_purges_all_hard :: "64 word"
  mt_purges_all_soft :: "64 word"
  mt_key_index_exact_fanout :: "64 word"
  mt_key_index_wildcard_hits :: "64 word"
  mt_purged_exact_hard :: "64 word"
  mt_purged_exact_soft :: "64 word"
  mt_purged_wildcard_hard :: "64 word"
  mt_purged_wildcard_soft :: "64 word"
  mt_purged_tag_hard :: "64 word"
  mt_purged_tag_soft :: "64 word"
  mt_purged_all_hard :: "64 word"
  mt_purged_all_soft :: "64 word"

text \<open>A response as it is handed to nginx; a response to a \<^verbatim>\<open>HEAD\<close> request has no body.\<close>

record response =
  rs_status :: nat
  rs_content_type :: string
  rs_content_length :: nat
  rs_cache_control :: "string option"
  rs_body :: "string option"

text \<open>A partial purge given to a thread: the directory, the key, its mode, its result.\<close>

record partial_task =
  tk_root :: ngx_str
  tk_soft :: bool
  tk_partial :: partial_ctx
  tk_rc :: ngx_rc

datatype event_handler = Empty_handler | Purge_handler | Core_handler

text \<open>Everything a request can change: its own fields (with \<open>rq_final\<close> the codes it was finalized
  with and \<open>rq_count\<close>, \<open>rq_blocked\<close> nginx's reference counts), the shared counters, the cache and the
  disk, the index, and the process-wide variables of the worker.\<close>

record req =
  rq_ctx :: "request_ctx option"
  rq_pool :: pool
  rq_cache :: "http_cache option"
  rq_responses :: "response list"
  rq_final :: "ngx_rc list"
  rq_write_event :: event_handler
  rq_count :: nat
  rq_blocked :: nat
  rq_aio :: bool
  rq_task :: "partial_task option"
  rq_metrics :: "metrics option"
  rq_disk :: disk
  rq_shm :: shm
  rq_store :: store_runtime
  rq_watch :: watch_runtime
  rq_cycle_pool :: pool

text \<open>What a request only reads.  \<open>en_plocs\<close> and \<open>en_caches\<close> are the location configuration and
  the caches of each upstream module, \<open>en_upstream\<close> and \<open>en_discard\<close> the results of
  \<^verbatim>\<open>ngx_http_upstream_create\<close> and \<^verbatim>\<open>ngx_http_discard_request_body\<close>, \<open>en_value\<close> is \<^verbatim>\<open>ngx_http_complex_value\<close> (\<open>None\<close> when it fails),
  \<open>en_open\<close> is \<^verbatim>\<open>ngx_http_file_cache_open\<close>, \<open>en_send_header\<close> and \<open>en_output\<close> are the results of
  \<^verbatim>\<open>ngx_http_send_header\<close> and \<^verbatim>\<open>ngx_http_output_filter\<close>, \<open>en_thread_pool\<close> says whether the location has a
  thread pool and \<open>en_post\<close> whether it takes the task.\<close>

datatype open_status =
  Open_ok | Open_stale | Open_updating | Open_declined | Open_again | Open_other

record req_env =
  en_now :: int
  en_main :: "main_conf option"
  en_loc :: loc_conf
  en_ready :: bool
  en_headers_in :: "(ngx_str \<times> ngx_str) list"
  en_head :: bool
  en_value :: "complex_value \<Rightarrow> ngx_str option"
  en_open :: "http_cache \<Rightarrow> disk \<Rightarrow> open_status \<times> http_cache \<times> disk"
  en_plocs :: "protocol_id \<Rightarrow> proto_loc"
  en_caches :: "protocol_id \<Rightarrow> (ngx_str \<times> addr) list"
  en_upstream :: ngx_rc
  en_discard :: ngx_rc
  en_send_header :: ngx_rc
  en_output :: ngx_rc
  en_thread_pool :: bool
  en_post :: ngx_rc

section \<open>The request context\<close>

definition empty_ctx :: request_ctx where
  "empty_ctx =
     \<lparr>cx_purge_path = PATH_UNSET, cx_decline_reason = DECLINE_UNSET,
      cx_purged_exact_hard = 0, cx_purged_exact_soft = 0,
      cx_purged_wildcard_hard = 0, cx_purged_wildcard_soft = 0,
      cx_purged_tag_hard = 0, cx_purged_tag_soft = 0,
      cx_purged_all_hard = 0, cx_purged_all_soft = 0,
      cx_index_tags = None, cx_index_zone_name = []\<rparr>"

definition get_request_ctx :: "req \<Rightarrow> request_ctx option \<times> req" where
  "get_request_ctx r =
     (case rq_ctx r of
        Some ctx \<Rightarrow> (Some ctx, r)
      | None \<Rightarrow>
          (case pool_alloc (rq_pool r) of
             (False, pl) \<Rightarrow> (None, r\<lparr>rq_pool := pl\<rparr>)
           | (True, pl) \<Rightarrow> (Some empty_ctx, r\<lparr>rq_pool := pl, rq_ctx := Some empty_ctx\<rparr>)))"

definition set_response_path :: "purge_path \<Rightarrow> req \<Rightarrow> req" where
  "set_response_path path r =
     (case get_request_ctx r of
        (None, r1) \<Rightarrow> r1
      | (Some ctx, r1) \<Rightarrow> r1\<lparr>rq_ctx := Some (ctx\<lparr>cx_purge_path := path\<rparr>)\<rparr>)"

definition set_decline_reason :: "decline_reason \<Rightarrow> req \<Rightarrow> req" where
  "set_decline_reason reason r =
     (case get_request_ctx r of
        (None, r1) \<Rightarrow> r1
      | (Some ctx, r1) \<Rightarrow> r1\<lparr>rq_ctx := Some (ctx\<lparr>cx_decline_reason := reason\<rparr>)\<rparr>)"

definition response_path_value :: "req \<Rightarrow> ngx_str" where
  "response_path_value r =
     (case rq_ctx r of
        None \<Rightarrow> ''''
      | Some ctx \<Rightarrow>
          (case cx_purge_path ctx of
             PATH_UNSET \<Rightarrow> ''''
           | EXACT_KEY_FANOUT \<Rightarrow> ''exact-key-fanout''
           | WILDCARD_INDEX \<Rightarrow> ''key-prefix-index''
           | FILESYSTEM_FALLBACK \<Rightarrow> ''filesystem-fallback''
           | REUSED_PERSISTED_INDEX \<Rightarrow> ''reused-persisted-index''))"

definition decline_reason_value :: "req \<Rightarrow> ngx_str" where
  "decline_reason_value r =
     (case rq_ctx r of
        None \<Rightarrow> ''unknown''
      | Some ctx \<Rightarrow>
          (case cx_decline_reason ctx of
             DECLINE_UNSET \<Rightarrow> ''unknown''
           | INDEX_NOT_CONFIGURED \<Rightarrow> ''index_not_configured''
           | UNSUPPORTED_PLATFORM \<Rightarrow> ''unsupported_platform''
           | FLUSH_PENDING_FAILED \<Rightarrow> ''flush_pending_failed''
           | ZONE_NOT_REGISTERED \<Rightarrow> ''zone_not_registered''
           | READER_UNAVAILABLE \<Rightarrow> ''reader_unavailable''
           | INDEX_NOT_READY \<Rightarrow> ''index_not_ready''
           | NOT_FOUND \<Rightarrow> ''not_found''))"

definition declined_with :: "req \<Rightarrow> decline_reason" where
  "declined_with r = (case rq_ctx r of None \<Rightarrow> DECLINE_UNSET | Some ctx \<Rightarrow> cx_decline_reason ctx)"

section \<open>Counting\<close>

text \<open>\<open>metrics_ctx\<close>: the pointer is taken from the shared zone on first use and then kept; both are
  the counters of the zone.\<close>

definition metrics_ctx :: "req_env \<Rightarrow> req \<Rightarrow> metrics option" where
  "metrics_ctx E r =
     (case en_main E of None \<Rightarrow> None | Some m \<Rightarrow> if mc_metrics_zone m then rq_metrics r else None)"

definition upd_metrics :: "req_env \<Rightarrow> (metrics \<Rightarrow> metrics) \<Rightarrow> req \<Rightarrow> req" where
  "upd_metrics E g r =
     (case metrics_ctx E r of None \<Rightarrow> r | Some m \<Rightarrow> r\<lparr>rq_metrics := Some (g m)\<rparr>)"

definition count_purged :: "purge_stats \<Rightarrow> bool \<Rightarrow> 64 word \<Rightarrow> metrics \<Rightarrow> metrics" where
  "count_purged t soft n m =
     (case t of
        STATS_EXACT \<Rightarrow>
          if soft then m\<lparr>mt_purged_exact_soft := mt_purged_exact_soft m + n\<rparr>
          else m\<lparr>mt_purged_exact_hard := mt_purged_exact_hard m + n\<rparr>
      | STATS_WILDCARD \<Rightarrow>
          if soft then m\<lparr>mt_purged_wildcard_soft := mt_purged_wildcard_soft m + n\<rparr>
          else m\<lparr>mt_purged_wildcard_hard := mt_purged_wildcard_hard m + n\<rparr>
      | STATS_TAG \<Rightarrow>
          if soft then m\<lparr>mt_purged_tag_soft := mt_purged_tag_soft m + n\<rparr>
          else m\<lparr>mt_purged_tag_hard := mt_purged_tag_hard m + n\<rparr>
      | STATS_ALL \<Rightarrow>
          if soft then m\<lparr>mt_purged_all_soft := mt_purged_all_soft m + n\<rparr>
          else m\<lparr>mt_purged_all_hard := mt_purged_all_hard m + n\<rparr>)"

definition count_ctx :: "purge_stats \<Rightarrow> bool \<Rightarrow> 64 word \<Rightarrow> request_ctx \<Rightarrow> request_ctx" where
  "count_ctx t soft n c =
     (case t of
        STATS_EXACT \<Rightarrow>
          if soft then c\<lparr>cx_purged_exact_soft := cx_purged_exact_soft c + n\<rparr>
          else c\<lparr>cx_purged_exact_hard := cx_purged_exact_hard c + n\<rparr>
      | STATS_WILDCARD \<Rightarrow>
          if soft then c\<lparr>cx_purged_wildcard_soft := cx_purged_wildcard_soft c + n\<rparr>
          else c\<lparr>cx_purged_wildcard_hard := cx_purged_wildcard_hard c + n\<rparr>
      | STATS_TAG \<Rightarrow>
          if soft then c\<lparr>cx_purged_tag_soft := cx_purged_tag_soft c + n\<rparr>
          else c\<lparr>cx_purged_tag_hard := cx_purged_tag_hard c + n\<rparr>
      | STATS_ALL \<Rightarrow>
          if soft then c\<lparr>cx_purged_all_soft := cx_purged_all_soft c + n\<rparr>
          else c\<lparr>cx_purged_all_hard := cx_purged_all_hard c + n\<rparr>)"

definition record_purge :: "req_env \<Rightarrow> purge_stats \<Rightarrow> bool \<Rightarrow> 64 word \<Rightarrow> req \<Rightarrow> req" where
  "record_purge E t soft count r =
     (if count = 0 then r
      else (case get_request_ctx r of
          (None, r1) \<Rightarrow> r1
        | (Some ctx, r1) \<Rightarrow>
            (upd_metrics E (count_purged t soft count) r1)\<lparr>rq_ctx := Some (count_ctx t soft count ctx)\<rparr>))"

definition record_response_purge :: "req_env \<Rightarrow> purge_stats \<Rightarrow> bool \<Rightarrow> 64 word \<Rightarrow> req \<Rightarrow> req" where
  "record_response_purge E t soft count r = record_purge E t soft count r"

definition count_request :: "purge_stats \<Rightarrow> bool \<Rightarrow> metrics \<Rightarrow> metrics" where
  "count_request t soft m =
     (case t of
        STATS_EXACT \<Rightarrow>
          if soft then m\<lparr>mt_purges_exact_soft := mt_purges_exact_soft m + 1\<rparr>
          else m\<lparr>mt_purges_exact_hard := mt_purges_exact_hard m + 1\<rparr>
      | STATS_WILDCARD \<Rightarrow>
          if soft then m\<lparr>mt_purges_wildcard_soft := mt_purges_wildcard_soft m + 1\<rparr>
          else m\<lparr>mt_purges_wildcard_hard := mt_purges_wildcard_hard m + 1\<rparr>
      | STATS_TAG \<Rightarrow>
          if soft then m\<lparr>mt_purges_tag_soft := mt_purges_tag_soft m + 1\<rparr>
          else m\<lparr>mt_purges_tag_hard := mt_purges_tag_hard m + 1\<rparr>
      | STATS_ALL \<Rightarrow>
          if soft then m\<lparr>mt_purges_all_soft := mt_purges_all_soft m + 1\<rparr>
          else m\<lparr>mt_purges_all_hard := mt_purges_all_hard m + 1\<rparr>)"

definition record_purge_request :: "req_env \<Rightarrow> purge_stats \<Rightarrow> bool \<Rightarrow> req \<Rightarrow> req" where
  "record_purge_request E t soft r = upd_metrics E (count_request t soft) r"

definition record_key_index_exact_fanout :: "req_env \<Rightarrow> req \<Rightarrow> req" where
  "record_key_index_exact_fanout E r =
     upd_metrics E (\<lambda>m. m\<lparr>mt_key_index_exact_fanout := mt_key_index_exact_fanout m + 1\<rparr>) r"

definition record_key_index_wildcard_hit :: "req_env \<Rightarrow> req \<Rightarrow> req" where
  "record_key_index_wildcard_hit E r =
     upd_metrics E (\<lambda>m. m\<lparr>mt_key_index_wildcard_hits := mt_key_index_wildcard_hits m + 1\<rparr>) r"

section \<open>Is the request a purge, and of which mode\<close>

definition value_enabled :: "ngx_core \<Rightarrow> ngx_str \<Rightarrow> ngx_rc" where
  "value_enabled N val =
     (if length val = 0 then NGX_DECLINED
      else if length val = 1 \<and> val ! 0 = CHR ''0'' then NGX_DECLINED
      else if length val = 3 \<and> strncasecmp N val ''off'' 3 = 0 then NGX_DECLINED
      else NGX_OK)"

fun enabled_loop :: "ngx_core \<Rightarrow> req_env \<Rightarrow> complex_value list \<Rightarrow> ngx_rc" where
  "enabled_loop N E [] = NGX_DECLINED"
| "enabled_loop N E (cv # cvs) =
     (case en_value E cv of
        None \<Rightarrow> NGX_DECLINED
      | Some val \<Rightarrow> if value_enabled N val = NGX_OK then NGX_OK else enabled_loop N E cvs)"

definition enabled :: "ngx_core \<Rightarrow> req_env \<Rightarrow> pilot_conf \<Rightarrow> ngx_rc" where
  "enabled N E cpcf =
     (case pc_enable_values cpcf of None \<Rightarrow> NGX_DECLINED | Some cvs \<Rightarrow> enabled_loop N E cvs)"

text \<open>The handler a location calls next, or the code it answers with at once.\<close>

datatype next_step = Call handler | Answer ngx_rc

definition original_step :: "loc_conf \<Rightarrow> next_step" where
  "original_step cplcf =
     (case lc_original_handler cplcf of Some h \<Rightarrow> Call h | None \<Rightarrow> Answer NGX_DECLINED)"

definition access_handler :: "ngx_core \<Rightarrow> req_env \<Rightarrow> next_step" where
  "access_handler N E =
     (let cplcf = en_loc E in
      case lc_conf cplcf of
        Ptr_null \<Rightarrow> original_step cplcf
      | Ptr_unset \<Rightarrow> original_step cplcf
      | Ptr cpcf \<Rightarrow>
          if enabled N E cpcf \<noteq> NGX_OK then original_step cplcf
          else (case lc_handler cplcf of None \<Rightarrow> Answer (NGX_HTTP 404) | Some h \<Rightarrow> Call h))"

definition mode_is_soft :: "ngx_core \<Rightarrow> ngx_str \<Rightarrow> bool" where
  "mode_is_soft N val \<longleftrightarrow>
     (length val = 1 \<and> val ! 0 = CHR ''1'') \<or>
     (length val = 4 \<and> strncasecmp N val ''soft'' 4 = 0) \<or>
     (length val = 4 \<and> strncasecmp N val ''true'' 4 = 0)"

fun mode_loop :: "ngx_core \<Rightarrow> ngx_str \<Rightarrow> (ngx_str \<times> ngx_str) list \<Rightarrow> bool \<Rightarrow> bool" where
  "mode_loop N wanted [] default_soft = default_soft"
| "mode_loop N wanted ((key, val) # hs) default_soft =
     (if length key \<noteq> length wanted then mode_loop N wanted hs default_soft
      else if strncasecmp N key wanted (length wanted) \<noteq> 0 then mode_loop N wanted hs default_soft
      else mode_is_soft N val)"

definition request_mode :: "ngx_core \<Rightarrow> req_env \<Rightarrow> bool \<Rightarrow> bool" where
  "request_mode N E default_soft =
     (case lc_purge_mode_header (en_loc E) of
        None \<Rightarrow> default_soft
      | Some wanted \<Rightarrow>
          if length wanted = 0 then default_soft else mode_loop N wanted (en_headers_in E) default_soft)"

section \<open>Keys and the index\<close>

definition is_partial :: "http_cache \<Rightarrow> bool" where
  "is_partial c \<longleftrightarrow>
     hc_keys c \<noteq> [] \<and> length (hc_keys c ! 0) > 0 \<and>
     hc_keys c ! 0 ! (length (hc_keys c ! 0) - 1) = CHR ''*''"

definition cache_key_text :: "http_cache \<Rightarrow> pool \<Rightarrow> ngx_rc \<times> ngx_str \<times> pool" where
  "cache_key_text c pl =
     (if hc_keys c = [] then (NGX_DECLINED, [], pl)
      else (case pool_alloc pl of
          (False, pl1) \<Rightarrow> (NGX_ERROR, [], pl1)
        | (True, pl1) \<Rightarrow> (NGX_OK, concat (hc_keys c), pl1)))"

text \<open>\<open>cache\<close> is the address of the cache; the result has the zone and whether there is a store to
  read from.\<close>

definition key_index_ready :: "req_env \<Rightarrow> addr \<Rightarrow> req \<Rightarrow> ngx_rc \<times> index_zone option \<times> bool \<times> req" where
  "key_index_ready E cache r =
     (if \<not> store_configured (en_main E)
      then (NGX_DECLINED, None, False, set_decline_reason INDEX_NOT_CONFIGURED r)
      else if flush_pending \<noteq> NGX_OK
      then (NGX_DECLINED, None, False, set_decline_reason FLUSH_PENDING_FAILED r)
      else (case runtime_lookup_zone (rq_watch r) cache of
          None \<Rightarrow> (NGX_DECLINED, None, False, set_decline_reason ZONE_NOT_REGISTERED r)
        | Some zone \<Rightarrow>
            (case store_reader (en_main E) (en_ready E) (rq_cycle_pool r) (rq_store r) of
               (found, pl, sr) \<Rightarrow>
                 let r1 = r\<lparr>rq_cycle_pool := pl, rq_store := sr\<rparr> in
                 if found then (NGX_OK, Some zone, True, r1)
                 else if store_writer sr then (NGX_OK, Some zone, True, r1)
                 else (NGX_DECLINED, Some zone, False, set_decline_reason READER_UNAVAILABLE r1))))"

section \<open>Responses\<close>

definition content_type_json :: string where
  "content_type_json = ''application/json''"

definition content_type_text :: string where
  "content_type_text = ''text/plain''"

definition body_text :: "string \<Rightarrow> string" where
  "body_text keydata = ''Key:'' @ c_string keydata @ tq ''~''"

text \<open>The size of the text template: its characters with the conversion, and the final NUL.\<close>

definition body_templ_text_size :: nat where
  "body_templ_text_size = 8"

definition ui :: "64 word \<Rightarrow> string" where
  "ui w = decimal (unat w)"

definition purged_json :: "request_ctx \<Rightarrow> string" where
  "purged_json c =
     tq ''`purged`: {`exact`: {`hard`: '' @ ui (cx_purged_exact_hard c) @
     tq '', `soft`: '' @ ui (cx_purged_exact_soft c) @
     tq ''}, `wildcard`: {`hard`: '' @ ui (cx_purged_wildcard_hard c) @
     tq '', `soft`: '' @ ui (cx_purged_wildcard_soft c) @
     tq ''}, `tag`: {`hard`: '' @ ui (cx_purged_tag_hard c) @
     tq '', `soft`: '' @ ui (cx_purged_tag_soft c) @
     tq ''}, `all`: {`hard`: '' @ ui (cx_purged_all_hard c) @
     tq '', `soft`: '' @ ui (cx_purged_all_soft c) @ ''}}}}''"

definition body_json :: "string \<Rightarrow> ngx_str \<Rightarrow> request_ctx option \<Rightarrow> string" where
  "body_json keydata path ctx =
     (let c = (case ctx of Some c \<Rightarrow> c | None \<Rightarrow> empty_ctx) in
      tq ''{`key`: `'' @ c_string keydata @ tq ''`, `cache_pilot`: {'' @
      (if length path > 0 then tq ''`purge_path`: `'' @ path @ tq ''`, '' else '''') @ purged_json c)"

definition rc_stops :: "ngx_rc \<Rightarrow> bool \<Rightarrow> bool" where
  "rc_stops rc header_only \<longleftrightarrow>
     rc = NGX_ERROR \<or> (case rc of NGX_HTTP n \<Rightarrow> n > 0 | _ \<Rightarrow> False) \<or> header_only"

text \<open>nginx sets \<^verbatim>\<open>header_only\<close> when it sends the header of a response to a \<^verbatim>\<open>HEAD\<close> request.  A
  response is sent only for a request whose cache key was made before.  \<open>send_body\<close> is the part both responses end with: a header, and a body unless nginx stops.\<close>

definition send_body :: "req_env \<Rightarrow> nat \<Rightarrow> string \<Rightarrow> string \<Rightarrow> req \<Rightarrow> ngx_rc \<times> req" where
  "send_body E status ctype body r =
     (let head = \<lparr>rs_status = status, rs_content_type = ctype, rs_content_length = length body,
            rs_cache_control = None, rs_body = None\<rparr>
      in if rc_stops (en_send_header E) (en_head E)
         then (en_send_header E, r\<lparr>rq_responses := rq_responses r @ [head]\<rparr>)
         else (en_output E, r\<lparr>rq_responses := rq_responses r @ [head\<lparr>rs_body := Some body\<rparr>]\<rparr>))"

definition send_response :: "req_env \<Rightarrow> req \<Rightarrow> ngx_rc \<times> req" where
  "send_response E r =
     (let c = the (rq_cache r) in
      if hc_keys c = [] then (NGX_HTTP 500, r)
      else
            let key = hc_keys c ! 0;
                (ctx, r1) = get_request_ctx r;
                path = response_path_value r1;
                is_text = (lc_resptype (en_loc E) = Some RESPONSE_TYPE_TEXT);
                ctype = (if is_text then content_type_text else content_type_json)
            in (case pool_alloc (rq_pool r1) of
                (False, pl2) \<Rightarrow> (NGX_HTTP 500, r1\<lparr>rq_pool := pl2\<rparr>)
              | (True, pl2) \<Rightarrow>
                  let keydata = (if is_text then key else json_escape key);
                      len = body_templ_text_size + length keydata + length path + 256
                  in (case pool_alloc pl2 of
                      (False, pl3) \<Rightarrow> (NGX_HTTP 500, r1\<lparr>rq_pool := pl3\<rparr>)
                    | (True, pl3) \<Rightarrow>
                        let body = slprintf (len + 1) []
                              (if is_text then body_text keydata else body_json keydata path ctx)
                        in if en_head E
                           then (en_send_header E, r1\<lparr>rq_pool := pl3, rq_responses := rq_responses r1 @
                             [\<lparr>rs_status = 200, rs_content_type = ctype, rs_content_length = length body,
                               rs_cache_control = None, rs_body = None\<rparr>]\<rparr>)
                           else (case pool_alloc pl3 of
                               (False, pl4) \<Rightarrow> (NGX_HTTP 500, r1\<lparr>rq_pool := pl4\<rparr>)
                             | (True, pl4) \<Rightarrow> send_body E 200 ctype body (r1\<lparr>rq_pool := pl4\<rparr>)))))"

definition decline_template :: string where
  "decline_template = tq ''{`cache_pilot`:{`declined`:true,`reason`:``}}''"

definition decline_body :: "ngx_str \<Rightarrow> string" where
  "decline_body reason = tq ''{`cache_pilot`:{`declined`:true,`reason`:`'' @ reason @ tq ''`}}''"

definition send_decline_response :: "req_env \<Rightarrow> req \<Rightarrow> ngx_rc \<times> req" where
  "send_decline_response E r =
     (let reason = decline_reason_value r;
          len = length decline_template + length reason
      in case pool_alloc (rq_pool r) of
           (False, pl) \<Rightarrow> (NGX_HTTP 500, r\<lparr>rq_pool := pl\<rparr>)
         | (True, pl) \<Rightarrow>
             send_body E 412 content_type_json (slprintf len [] (decline_body reason)) (r\<lparr>rq_pool := pl\<rparr>))"

end
