(* ===== verification/Purge.thy ===== *)
theory Purge
  imports Request
begin

text \<open>
  The purges of a request: by tags (\<^verbatim>\<open>src/src/ngx_cache_pilot_index.c\<close>), of one key with its
  variants, of all keys with a prefix, and of a whole zone; and the request handler that chooses
  between them (\<^verbatim>\<open>src/src/ngx_cache_pilot_module.c\<close>).

  The field \<open>dk_cache\<close> of the disk is the cache the request works on; \<open>cache\<close> is its address.
\<close>

section \<open>Purging indexed paths\<close>

definition with_disk :: "(disk \<Rightarrow> 'a \<times> disk) \<Rightarrow> req \<Rightarrow> 'a \<times> req" where
  "with_disk f r = (case f (rq_disk r) of (x, d) \<Rightarrow> (x, r\<lparr>rq_disk := d\<rparr>))"

definition drop_from_index :: "ngx_core \<Rightarrow> req_env \<Rightarrow> index_zone \<Rightarrow> ngx_str \<Rightarrow> req \<Rightarrow> req" where
  "drop_from_index N E zone path r =
     (case delete_file N (en_now E) (rq_shm r) (iz_zone_name zone) path of (rc, s) \<Rightarrow> r\<lparr>rq_shm := s\<rparr>)"

text \<open>Without a zone or a reader the index is left alone; an error of the index is only logged.\<close>

definition delete_index_path ::
  "ngx_core \<Rightarrow> req_env \<Rightarrow> index_zone option \<Rightarrow> bool \<Rightarrow> ngx_str \<Rightarrow> req \<Rightarrow> req" where
  "delete_index_path N E zone reader path r =
     (case zone of
        None \<Rightarrow> r
      | Some z \<Rightarrow> if \<not> reader then r else drop_from_index N E z path r)"

definition by_indexed_path ::
  "ngx_core \<Rightarrow> http_core \<Rightarrow> req_env \<Rightarrow> index_zone option \<Rightarrow> bool \<Rightarrow> ngx_str \<Rightarrow> bool \<Rightarrow> req \<Rightarrow> ngx_rc \<times> req" where
  "by_indexed_path N H E zone reader path soft r =
     (case with_disk (\<lambda>d. by_path N H d path soft) r of
        (rc, r1) \<Rightarrow>
          if \<not> soft \<and> (rc = NGX_OK \<or> rc = NGX_DECLINED)
          then (rc, delete_index_path N E zone reader path r1)
          else (rc, r1))"

text \<open>The loops over the paths of the index: \<open>used\<close> says that one was purged, \<open>count\<close> how many.\<close>

fun indexed_loop ::
  "ngx_core \<Rightarrow> http_core \<Rightarrow> req_env \<Rightarrow> index_zone option \<Rightarrow> bool \<Rightarrow> bool \<Rightarrow> ngx_str list \<Rightarrow> bool \<Rightarrow> nat \<Rightarrow> req \<Rightarrow>
     ngx_rc \<times> bool \<times> nat \<times> req" where
  "indexed_loop N H E zone reader soft [] used count r = (NGX_OK, used, count, r)"
| "indexed_loop N H E zone reader soft (p # ps) used count r =
     (case by_indexed_path N H E zone reader p soft r of
        (rc, r1) \<Rightarrow>
          if rc = NGX_OK then indexed_loop N H E zone reader soft ps True (count + 1) r1
          else if rc \<noteq> NGX_DECLINED then (NGX_ERROR, used, count, r1)
          else indexed_loop N H E zone reader soft ps used count r1)"

fun soft_fanout_loop ::
  "ngx_core \<Rightarrow> http_core \<Rightarrow> ngx_str list \<Rightarrow> bool \<Rightarrow> nat \<Rightarrow> req \<Rightarrow> ngx_rc \<times> bool \<times> nat \<times> req" where
  "soft_fanout_loop N H [] used count r = (NGX_OK, used, count, r)"
| "soft_fanout_loop N H (p # ps) used count r =
     (case with_disk (\<lambda>d. by_path N H d p True) r of
        (rc, r1) \<Rightarrow>
          if rc = NGX_OK then soft_fanout_loop N H ps True (count + 1) r1
          else if rc \<noteq> NGX_DECLINED then (NGX_ERROR, used, count, r1)
          else soft_fanout_loop N H ps used count r1)"

section \<open>Purge by tags\<close>

fun tag_loop ::
  "ngx_core \<Rightarrow> http_core \<Rightarrow> req_env \<Rightarrow> index_zone \<Rightarrow> bool \<Rightarrow> ngx_str list \<Rightarrow> nat \<Rightarrow> req \<Rightarrow> ngx_rc \<times> nat \<times> req" where
  "tag_loop N H E zone soft [] purged r = (NGX_OK, purged, r)"
| "tag_loop N H E zone soft (p # ps) purged r =
     (case with_disk (\<lambda>d. by_path N H d p soft) r of
        (rc, r1) \<Rightarrow>
          if rc \<noteq> NGX_OK \<and> rc \<noteq> NGX_DECLINED then (NGX_ERROR, purged, r1)
          else
            let n = (if rc = NGX_OK then purged + 1 else purged)
            in if rc = NGX_OK \<and> soft then tag_loop N H E zone soft ps n r1
               else tag_loop N H E zone soft ps n (drop_from_index N E zone p r1))"

definition purge_conf :: "req_env \<Rightarrow> pilot_conf" where
  "purge_conf E = (case lc_conf (en_loc E) of Ptr c \<Rightarrow> c | _ \<Rightarrow> pilot_conf_unset)"

definition index_purge ::
  "ngx_core \<Rightarrow> http_core \<Rightarrow> req_env \<Rightarrow> addr \<Rightarrow> ngx_str list \<Rightarrow> req \<Rightarrow> ngx_rc \<times> req" where
  "index_purge N H E cache tags r =
     (if \<not> store_configured (en_main E) then (NGX_DECLINED, set_decline_reason INDEX_NOT_CONFIGURED r)
      else
        let soft = request_mode N E (pc_soft (purge_conf E)) in
        (case runtime_lookup_zone (rq_watch r) cache of
           None \<Rightarrow> (NGX_DECLINED, set_decline_reason ZONE_NOT_REGISTERED r)
         | Some zone \<Rightarrow>
             (case store_reader (en_main E) (en_ready E) (rq_cycle_pool r) (rq_store r) of
                (found, pl, sr) \<Rightarrow>
                  let r1 = r\<lparr>rq_cycle_pool := pl, rq_store := sr\<rparr> in
                  if \<not> found then (NGX_DECLINED, set_decline_reason READER_UNAVAILABLE r1)
                  else (case get_zone_state (en_now E) (rq_shm r1) (iz_zone_name zone) of
                      (rc, st) \<Rightarrow>
                        if rc \<noteq> NGX_OK then (NGX_ERROR, r1)
                        else if \<not> st_bootstrap_complete st
                        then (NGX_DECLINED, set_decline_reason INDEX_NOT_READY r1)
                        else (case collect_paths_by_tags N (rq_shm r1) (rq_pool r1) (iz_zone_name zone) (Some tags) of
                            (rc2, pl2, paths) \<Rightarrow>
                              let r2 = r1\<lparr>rq_pool := pl2\<rparr> in
                              if rc2 \<noteq> NGX_OK then (NGX_ERROR, r2)
                              else (case tag_loop N H E zone soft paths 0 r2 of
                                  (rc3, purged, r3) \<Rightarrow>
                                    if rc3 \<noteq> NGX_OK then (NGX_ERROR, r3)
                                    else if purged = 0 then (NGX_DECLINED, set_decline_reason NOT_FOUND r3)
                                    else (NGX_OK, set_response_path REUSED_PERSISTED_INDEX
                                           (record_response_purge E STATS_TAG soft (of_nat purged) r3))))))))"

section \<open>Purge of one key\<close>

definition open_cache :: "req_env \<Rightarrow> req \<Rightarrow> open_status \<times> req" where
  "open_cache E r =
     (case en_open E (the (rq_cache r)) (rq_disk r) of
        (st, c, d) \<Rightarrow> (st, r\<lparr>rq_cache := Some c, rq_disk := d\<rparr>))"

definition release :: "req \<Rightarrow> req" where
  "release r =
     (case release_updating (rq_disk r) (the (rq_cache r)) of
        (d, c) \<Rightarrow> r\<lparr>rq_disk := d, rq_cache := Some c\<rparr>)"

text \<open>The paths indexed under the key of the request: \<open>hard_fanout\<close> first drops the path of the
  purged file from the index.\<close>

definition hard_fanout ::
  "ngx_core \<Rightarrow> http_core \<Rightarrow> req_env \<Rightarrow> addr \<Rightarrow> http_cache \<Rightarrow> req \<Rightarrow> ngx_rc \<times> bool \<times> nat \<times> req" where
  "hard_fanout N H E cache c r =
     (case key_index_ready E cache r of
        (rc, zone, reader, r1) \<Rightarrow>
          if rc \<noteq> NGX_OK then (NGX_OK, False, 1, r1)
          else (case cache_key_text c (rq_pool r1) of
              (rc2, text, pl2) \<Rightarrow>
                let r2 = r1\<lparr>rq_pool := pl2\<rparr> in
                if rc2 \<noteq> NGX_OK then (NGX_OK, False, 1, r2)
                else
                  let r3 = delete_index_path N E zone reader (hc_file_name c) r2 in
                  (case collect_paths_by_exact_key N (rq_shm r3) (rq_pool r3) (iz_zone_name (the zone)) text of
                     (rc4, pl4, paths) \<Rightarrow>
                       let r4 = r3\<lparr>rq_pool := pl4\<rparr> in
                       if rc4 = NGX_OK \<and> paths \<noteq> []
                       then indexed_loop N H E zone reader False paths False 1 r4
                       else (NGX_OK, False, 1, r4))))"

definition soft_fanout ::
  "ngx_core \<Rightarrow> http_core \<Rightarrow> req_env \<Rightarrow> addr \<Rightarrow> http_cache \<Rightarrow> req \<Rightarrow> ngx_rc \<times> bool \<times> nat \<times> req" where
  "soft_fanout N H E cache c r =
     (case key_index_ready E cache r of
        (rc, zone, reader, r1) \<Rightarrow>
          if rc \<noteq> NGX_OK then (NGX_OK, False, 1, r1)
          else (case cache_key_text c (rq_pool r1) of
              (rc2, text, pl2) \<Rightarrow>
                let r2 = r1\<lparr>rq_pool := pl2\<rparr> in
                if rc2 \<noteq> NGX_OK then (NGX_OK, False, 1, r2)
                else (case collect_paths_by_exact_key N (rq_shm r2) (rq_pool r2) (iz_zone_name (the zone)) text of
                    (rc3, pl3, paths) \<Rightarrow>
                      let r3 = r2\<lparr>rq_pool := pl3\<rparr> in
                      if rc3 = NGX_OK \<and> paths \<noteq> []
                      then soft_fanout_loop N H paths False 1 r3
                      else (NGX_OK, False, 1, r3))))"

definition record_fanout :: "req_env \<Rightarrow> bool \<Rightarrow> req \<Rightarrow> req" where
  "record_fanout E used r =
     (if used then record_key_index_exact_fanout E (set_response_path EXACT_KEY_FANOUT r) else r)"

definition exact_purge :: "ngx_core \<Rightarrow> http_core \<Rightarrow> req_env \<Rightarrow> req \<Rightarrow> ngx_rc \<times> req" where
  "exact_purge N H E r =
     (case open_cache E r of
        (st, r1) \<Rightarrow>
          if st = Open_declined then (NGX_DECLINED, set_decline_reason NOT_FOUND r1)
          else if st = Open_again then (NGX_AGAIN, r1)
          else if st = Open_other then (NGX_ERROR, r1)
          else
            let c = the (rq_cache r1) in
            (case with_disk (\<lambda>d. delete_opened_file d c) r1 of
               (rc2, r2) \<Rightarrow>
                 if rc2 = NGX_DECLINED then (NGX_DECLINED, set_decline_reason NOT_FOUND r2)
                 else (case hard_fanout N H E (hc_file_cache c) c (record_purge_request E STATS_EXACT False r2) of
                     (rc3, used, count, r3) \<Rightarrow>
                       if rc3 \<noteq> NGX_OK then (NGX_ERROR, release r3)
                       else (NGX_OK, release
                              (record_purge E STATS_EXACT False (of_nat count) (record_fanout E used r3))))))"

definition exact_purge_soft :: "ngx_core \<Rightarrow> http_core \<Rightarrow> req_env \<Rightarrow> req \<Rightarrow> ngx_rc \<times> req" where
  "exact_purge_soft N H E r =
     (case open_cache E r of
        (st, r1) \<Rightarrow>
          if st = Open_declined then (NGX_DECLINED, set_decline_reason NOT_FOUND r1)
          else if st = Open_again then (NGX_AGAIN, r1)
          else if st = Open_other then (NGX_ERROR, r1)
          else
            let c = the (rq_cache r1); a = the (hc_node c) in
            if \<not> cn_exists (the (fc_nodes (dk_cache (rq_disk r1)) a))
            then (NGX_DECLINED, set_decline_reason NOT_FOUND r1)
            else (case soft_header H (dk_os (rq_disk r1)) (hc_file_name c) of
                (rc2, o2) \<Rightarrow>
                  let r2 = r1\<lparr>rq_disk := (rq_disk r1)\<lparr>dk_os := o2\<rparr>\<rparr> in
                  if rc2 = NGX_DECLINED then (rc2, set_decline_reason NOT_FOUND r2)
                  else if rc2 \<noteq> NGX_OK then (rc2, r2)
                  else
                    let c3 = c\<lparr>hc_valid_sec := 0\<rparr>;
                        r3 = r2\<lparr>rq_cache := Some c3, rq_disk := (rq_disk r2)\<lparr>dk_cache :=
                               upd_node (\<lambda>n. n\<lparr>cn_valid_sec := 0\<rparr>) a (dk_cache (rq_disk r2))\<rparr>\<rparr>
                    in (case soft_fanout N H E (hc_file_cache c3) c3 r3 of
                        (rc4, used, count, r4) \<Rightarrow>
                          if rc4 \<noteq> NGX_OK then (NGX_ERROR, release r4)
                          else (NGX_OK, release
                                 (record_purge E STATS_EXACT True (of_nat count)
                                   (record_fanout E used (record_purge_request E STATS_EXACT True r4)))))))"

section \<open>Purge of a whole zone\<close>

definition purge_all :: "ngx_core \<Rightarrow> http_core \<Rightarrow> req_env \<Rightarrow> req \<Rightarrow> ngx_rc \<times> req" where
  "purge_all N H E r =
     (let soft = pc_soft (purge_conf E); d = rq_disk r;
          (paths, ok) = walk_tree H (dk_os d) (fc_path (dk_cache d));
          (ctx, d1) = foldl (if soft then soft_file_handler N H else delete_file_handler N H)
                        (\<lparr>pc_key_partial = [], pc_purged = 0\<rparr>, d) paths;
          r1 = r\<lparr>rq_disk := d1\<rparr>
      in if \<not> ok then (NGX_ERROR, r1)
         else (NGX_OK, record_purge_request E STATS_ALL soft
                (record_purge E STATS_ALL soft (of_nat (pc_purged ctx)) r1)))"

section \<open>Purge by key prefix\<close>

definition strip_star :: "ngx_str \<Rightarrow> ngx_str" where
  "strip_star key =
     (if length key > 0 \<and> key ! (length key - 1) = CHR ''*'' then take (length key - 1) key else key)"

fun key_prefix :: "ngx_str list \<Rightarrow> ngx_str" where
  "key_prefix [] = []"
| "key_prefix (k # ks) = strip_star k @ concat ks"

text \<open>The walk of the directory, on the disk it starts from.\<close>

definition partial_walk ::
  "ngx_core \<Rightarrow> http_core \<Rightarrow> ngx_str \<Rightarrow> bool \<Rightarrow> partial_ctx \<Rightarrow> disk \<Rightarrow> bool \<times> partial_ctx \<times> disk" where
  "partial_walk N H root soft ctx d =
     (let (paths, ok) = walk_tree H (dk_os d) root;
          (ctx1, d1) = foldl (if soft then soft_partial_file_handler N H else delete_partial_file_handler N H)
                         (ctx, d) paths
      in (ok, ctx1, d1))"

definition partial_index ::
  "ngx_core \<Rightarrow> http_core \<Rightarrow> req_env \<Rightarrow> addr \<Rightarrow> bool \<Rightarrow> ngx_str \<Rightarrow> req \<Rightarrow> ngx_rc \<times> bool \<times> nat \<times> req" where
  "partial_index N H E cache soft prefix r =
     (case key_index_ready E cache r of
        (rc, zone, reader, r1) \<Rightarrow>
          if rc \<noteq> NGX_OK then (NGX_OK, False, 0, r1)
          else (case collect_paths_by_key_prefix N (rq_shm r1) (rq_pool r1) (iz_zone_name (the zone)) prefix of
              (rc2, pl2, paths) \<Rightarrow>
                let r2 = r1\<lparr>rq_pool := pl2\<rparr> in
                if rc2 = NGX_OK \<and> paths \<noteq> []
                then indexed_loop N H E zone reader soft paths False 0 r2
                else (NGX_OK, False, 0, r2)))"

text \<open>\<open>partial_offload\<close> gives the walk to a thread, \<open>partial_sync\<close> walks at once.\<close>

definition partial_offload :: "req_env \<Rightarrow> bool \<Rightarrow> ngx_str \<Rightarrow> req \<Rightarrow> ngx_rc \<times> req" where
  "partial_offload E soft key r =
     (case pool_alloc (rq_pool r) of
        (False, pl1) \<Rightarrow> (NGX_ERROR, r\<lparr>rq_pool := pl1\<rparr>)
      | (True, pl1) \<Rightarrow>
          (case (if length key > 0 then pool_alloc pl1 else (True, pl1)) of
             (False, pl2) \<Rightarrow> (NGX_ERROR, r\<lparr>rq_pool := pl2\<rparr>)
           | (True, pl2) \<Rightarrow>
               if en_post E \<noteq> NGX_OK then (NGX_ERROR, r\<lparr>rq_pool := pl2\<rparr>)
               else (NGX_DONE, set_response_path FILESYSTEM_FALLBACK
                      (r\<lparr>rq_pool := pl2, rq_blocked := rq_blocked r + 1, rq_aio := True,
                         rq_task := Some \<lparr>tk_root = fc_path (dk_cache (rq_disk r)), tk_soft = soft,
                            tk_partial = \<lparr>pc_key_partial = key, pc_purged = 0\<rparr>, tk_rc = NGX_ERROR\<rparr>\<rparr>))))"

definition partial_sync :: "ngx_core \<Rightarrow> http_core \<Rightarrow> req_env \<Rightarrow> bool \<Rightarrow> ngx_str \<Rightarrow> req \<Rightarrow> ngx_rc \<times> req" where
  "partial_sync N H E soft key r =
     (case pool_alloc (rq_pool r) of
        (False, pl1) \<Rightarrow> (NGX_ERROR, r\<lparr>rq_pool := pl1\<rparr>)
      | (True, pl1) \<Rightarrow>
          (case (if length key > 0 then pool_alloc pl1 else (True, pl1)) of
             (False, pl2) \<Rightarrow> (NGX_ERROR, r\<lparr>rq_pool := pl2\<rparr>)
           | (True, pl2) \<Rightarrow>
               let r2 = set_response_path FILESYSTEM_FALLBACK (r\<lparr>rq_pool := pl2\<rparr>);
                   (ok, ctx, d1) = partial_walk N H (fc_path (dk_cache (rq_disk r2))) soft
                                     \<lparr>pc_key_partial = key, pc_purged = 0\<rparr> (rq_disk r2);
                   r3 = r2\<lparr>rq_disk := d1\<rparr>
               in if \<not> ok then (NGX_ERROR, r3)
                  else (NGX_OK, record_purge_request E STATS_WILDCARD soft
                         (record_purge E STATS_WILDCARD soft (of_nat (pc_purged ctx)) r3))))"

definition partial_purge :: "ngx_core \<Rightarrow> http_core \<Rightarrow> req_env \<Rightarrow> addr \<Rightarrow> req \<Rightarrow> ngx_rc \<times> req" where
  "partial_purge N H E cache r =
     (let keys = hc_keys (the (rq_cache r)) in
      if keys = [] then (NGX_ERROR, r)
      else if length (keys ! 0) = 0 then (NGX_ERROR, r)
      else
        let key = take (length (keys ! 0) - 1) (keys ! 0); prefix = key_prefix keys in
        if length prefix = 0 then (NGX_ERROR, r)
        else (case pool_alloc (rq_pool r) of
            (False, pl1) \<Rightarrow> (NGX_ERROR, r\<lparr>rq_pool := pl1\<rparr>)
          | (True, pl1) \<Rightarrow>
              let soft = request_mode N E (pc_soft (purge_conf E)) in
              (case partial_index N H E cache soft prefix (r\<lparr>rq_pool := pl1\<rparr>) of
                 (rc, used, count, r2) \<Rightarrow>
                   if rc \<noteq> NGX_OK then (NGX_ERROR, r2)
                   else if used then
                     (NGX_OK, record_purge_request E STATS_WILDCARD soft
                       (record_key_index_wildcard_hit E
                         (record_purge E STATS_WILDCARD soft (of_nat count)
                           (set_response_path WILDCARD_INDEX r2))))
                   else if en_thread_pool E then partial_offload E soft key r2
                   else partial_sync N H E soft key r2)))"

definition partial_thread :: "ngx_core \<Rightarrow> http_core \<Rightarrow> partial_task \<Rightarrow> disk \<Rightarrow> partial_task \<times> disk" where
  "partial_thread N H t d =
     (case partial_walk N H (tk_root t) (tk_soft t) (tk_partial t) d of
        (ok, ctx, d1) \<Rightarrow> (t\<lparr>tk_partial := ctx, tk_rc := (if ok then NGX_OK else NGX_ERROR)\<rparr>, d1))"

section \<open>The handler\<close>

definition finalize :: "ngx_rc \<Rightarrow> req \<Rightarrow> req" where
  "finalize rc r = r\<lparr>rq_final := rq_final r @ [rc]\<rparr>"

definition respond :: "req_env \<Rightarrow> req \<Rightarrow> req" where
  "respond E r = (case send_response E r of (rc, r1) \<Rightarrow> finalize rc r1)"

text \<open>The tags of the request; \<open>None\<close> when there are none.\<close>

definition request_tags :: "ngx_core \<Rightarrow> req_env \<Rightarrow> req \<Rightarrow> ngx_rc \<times> ngx_str list option \<times> req" where
  "request_tags N E r =
     (case request_headers N (rq_pool r) (location_enabled (en_loc E))
             (case lc_cache_tag_headers (en_loc E) of Some hs \<Rightarrow> hs | None \<Rightarrow> []) (en_headers_in E) of
        (rc, pl, tags) \<Rightarrow> (rc, tags, r\<lparr>rq_pool := pl\<rparr>))"

definition has_tags :: "ngx_rc \<Rightarrow> ngx_str list option \<Rightarrow> bool" where
  "has_tags rc tags \<longleftrightarrow> rc = NGX_OK \<and> tags \<noteq> None \<and> length (the tags) > 0"

definition purge_handler :: "ngx_core \<Rightarrow> http_core \<Rightarrow> req_env \<Rightarrow> req \<Rightarrow> req" where
  "purge_handler N H E r =
     (if rq_aio r then r
      else
        let mode = request_mode N E (pc_soft (purge_conf E));
            (rc0, tags, r0) = request_tags N E r;
            (rc, r1) =
              (if has_tags rc0 tags then (NGX_OK, r0)
               else if \<not> pc_purge_all (purge_conf E) \<and> \<not> is_partial (the (rq_cache r0))
               then (if mode then exact_purge_soft N H E r0 else exact_purge N H E r0)
               else (NGX_OK, r0))
        in (case rc of
              NGX_OK \<Rightarrow> respond E (r1\<lparr>rq_write_event := Empty_handler\<rparr>)
            | NGX_DECLINED \<Rightarrow>
                if declined_with r1 = NOT_FOUND
                then respond E (record_purge_request E STATS_EXACT mode r1)
                else if lc_resptype_configured (en_loc E) \<and> lc_resptype (en_loc E) = Some RESPONSE_TYPE_JSON
                then (case send_decline_response E r1 of (rc2, r2) \<Rightarrow> finalize rc2 r2)
                else finalize (NGX_HTTP 412) r1
            | NGX_AGAIN \<Rightarrow> r1\<lparr>rq_write_event := Purge_handler\<rparr>
            | _ \<Rightarrow> finalize (NGX_HTTP 500) r1))"

text \<open>\<open>dispatch_special\<close> also says whether the request was handled.\<close>

definition dispatch_special ::
  "ngx_core \<Rightarrow> http_core \<Rightarrow> req_env \<Rightarrow> addr \<Rightarrow> req \<Rightarrow> ngx_rc \<times> bool \<times> req" where
  "dispatch_special N H E cache r =
     (let (rc0, tags, r0) = request_tags N E r in
      if location_enabled (en_loc E) \<and> rc0 = NGX_ERROR then (NGX_ERROR, False, r0)
      else if location_enabled (en_loc E) \<and> has_tags rc0 tags then
        (case index_purge N H E cache (the tags) r0 of
           (rc, r1) \<Rightarrow>
             let r2 = (if rc = NGX_OK \<or> (rc = NGX_DECLINED \<and> declined_with r1 = NOT_FOUND)
                       then record_purge_request E STATS_TAG (request_mode N E (pc_soft (purge_conf E))) r1
                       else r1)
             in if rc = NGX_DECLINED \<and> declined_with r2 = NOT_FOUND then (NGX_OK, True, r2)
                else (rc, True, r2))
      else if pc_purge_all (purge_conf E) then (case purge_all N H E r0 of (rc, r1) \<Rightarrow> (rc, True, r1))
      else if is_partial (the (rq_cache r0)) then (case partial_purge N H E cache r0 of (rc, r1) \<Rightarrow> (rc, True, r1))
      else (NGX_OK, False, r0))"

section \<open>From a request to its cache and key\<close>

fun find_cache :: "(ngx_str \<times> addr) list \<Rightarrow> ngx_str \<Rightarrow> addr option" where
  "find_cache [] val = None"
| "find_cache ((name, a) # cs) val =
     (if length name = length val \<and> c_strncmp_eq name val (length val) then Some a else find_cache cs val)"

definition cache_get :: "req_env \<Rightarrow> proto_loc \<Rightarrow> (ngx_str \<times> addr) list \<Rightarrow> ngx_rc \<times> addr option" where
  "cache_get E u caches =
     (case pl_cache_zone u of
        Some cache \<Rightarrow> (NGX_OK, Some cache)
      | None \<Rightarrow>
          (case en_value E (the (pl_cache_value u)) of
             None \<Rightarrow> (NGX_ERROR, None)
           | Some val \<Rightarrow>
               if length val = 0 \<or> (length val = 3 \<and> c_strncmp_eq val ''off'' 3) then (NGX_DECLINED, None)
               else (case find_cache caches val of
                   Some a \<Rightarrow> (NGX_OK, Some a)
                 | None \<Rightarrow> (NGX_ERROR, None))))"

definition fastcgi_cache_get_request :: "req_env \<Rightarrow> ngx_rc \<times> addr option" where
  "fastcgi_cache_get_request E = cache_get E (en_plocs E FASTCGI) (en_caches E FASTCGI)"

definition proxy_cache_get_request :: "req_env \<Rightarrow> ngx_rc \<times> addr option" where
  "proxy_cache_get_request E = cache_get E (en_plocs E PROXY) (en_caches E PROXY)"

definition scgi_cache_get_request :: "req_env \<Rightarrow> ngx_rc \<times> addr option" where
  "scgi_cache_get_request E = cache_get E (en_plocs E SCGI) (en_caches E SCGI)"

definition uwsgi_cache_get_request :: "req_env \<Rightarrow> ngx_rc \<times> addr option" where
  "uwsgi_cache_get_request E = cache_get E (en_plocs E UWSGI) (en_caches E UWSGI)"

fun protocol_cache_get :: "protocol_id \<Rightarrow> req_env \<Rightarrow> ngx_rc \<times> addr option" where
  "protocol_cache_get FASTCGI E = fastcgi_cache_get_request E"
| "protocol_cache_get PROXY E = proxy_cache_get_request E"
| "protocol_cache_get SCGI E = scgi_cache_get_request E"
| "protocol_cache_get UWSGI E = uwsgi_cache_get_request E"

text \<open>The array of keys is created with room for the one key pushed to it.\<close>

definition pilot_init :: "req_env \<Rightarrow> addr \<Rightarrow> complex_value \<Rightarrow> req \<Rightarrow> ngx_rc \<times> req" where
  "pilot_init E cache cache_key r =
     (if en_discard E \<noteq> NGX_OK then (NGX_ERROR, r)
      else (case pool_alloc (rq_pool r) of
          (False, pl1) \<Rightarrow> (NGX_ERROR, r\<lparr>rq_pool := pl1\<rparr>)
        | (True, pl1) \<Rightarrow>
            (case pool_alloc pl1 of
               (False, pl2) \<Rightarrow> (NGX_ERROR, r\<lparr>rq_pool := pl2\<rparr>)
             | (True, pl2) \<Rightarrow>
                 (case en_value E cache_key of
                    None \<Rightarrow> (NGX_ERROR, r\<lparr>rq_pool := pl2\<rparr>)
                  | Some key \<Rightarrow> (NGX_OK, r\<lparr>rq_pool := pl2, rq_cache := Some
                      \<lparr>hc_file_cache = cache, hc_keys = [key], hc_file_name = [], hc_node = None,
                       hc_updating = False, hc_lock_time = 0, hc_valid_sec = 0\<rparr>\<rparr>)))))"

definition protocol_handler :: "ngx_core \<Rightarrow> http_core \<Rightarrow> req_env \<Rightarrow> req \<Rightarrow> ngx_rc \<times> req" where
  "protocol_handler N H E r =
     (case protocol_by_id (case lc_protocol (en_loc E) of Some p \<Rightarrow> p | None \<Rightarrow> None) of
        None \<Rightarrow> (NGX_HTTP 500, r)
      | Some protocol \<Rightarrow>
          if en_upstream E \<noteq> NGX_OK then (NGX_HTTP 500, r)
          else (case protocol_cache_get (pr_id protocol) E of
              (rc0, cache0) \<Rightarrow>
                if rc0 \<noteq> NGX_OK then (rc0, r)
                else
                  let cache = the cache0 in
                  (case pilot_init E cache (pr_cache_key protocol (en_plocs E (pr_id protocol))) r of
                     (rc1, r1) \<Rightarrow>
                       if rc1 \<noteq> NGX_OK then (NGX_HTTP 500, r1)
                       else (case dispatch_special N H E cache r1 of
                           (rc, handled, r2) \<Rightarrow>
                             if handled \<and> rc = NGX_DONE then (NGX_DONE, r2\<lparr>rq_count := rq_count r2 + 1\<rparr>)
                             else if handled \<and> rc = NGX_DECLINED then
                               (if declined_with r2 = NOT_FOUND then send_response E r2 else (NGX_HTTP 412, r2))
                             else if handled \<and> rc \<noteq> NGX_OK then (NGX_HTTP 500, r2)
                             else (NGX_DONE, purge_handler N H E (r2\<lparr>rq_count := rq_count r2 + 1\<rparr>))))))"

definition fastcgi_cache_purge_handler :: "ngx_core \<Rightarrow> http_core \<Rightarrow> req_env \<Rightarrow> req \<Rightarrow> ngx_rc \<times> req" where
  "fastcgi_cache_purge_handler N H E r = protocol_handler N H E r"

definition proxy_cache_purge_handler :: "ngx_core \<Rightarrow> http_core \<Rightarrow> req_env \<Rightarrow> req \<Rightarrow> ngx_rc \<times> req" where
  "proxy_cache_purge_handler N H E r = protocol_handler N H E r"

definition scgi_cache_purge_handler :: "ngx_core \<Rightarrow> http_core \<Rightarrow> req_env \<Rightarrow> req \<Rightarrow> ngx_rc \<times> req" where
  "scgi_cache_purge_handler N H E r = protocol_handler N H E r"

definition uwsgi_cache_purge_handler :: "ngx_core \<Rightarrow> http_core \<Rightarrow> req_env \<Rightarrow> req \<Rightarrow> ngx_rc \<times> req" where
  "uwsgi_cache_purge_handler N H E r = protocol_handler N H E r"

section \<open>The end of an offloaded walk\<close>

text \<open>\<open>partial_completion\<close> runs in the worker when the thread is done, or when the task's timer
  fires first (\<open>timedout\<close>); \<open>gone\<close>: the request is done or terminated.\<close>

definition partial_completion :: "req_env \<Rightarrow> bool \<Rightarrow> bool \<Rightarrow> partial_task \<Rightarrow> req \<Rightarrow> req" where
  "partial_completion E timedout gone t r =
     (if timedout then r
      else
        let r1 = r\<lparr>rq_blocked := rq_blocked r - 1, rq_aio := False\<rparr> in
        if gone then r1
        else if tk_rc t = NGX_OK then
          respond E ((record_purge_request E STATS_WILDCARD (tk_soft t)
            (record_purge E STATS_WILDCARD (tk_soft t) (of_nat (pc_purged (tk_partial t))) r1))
              \<lparr>rq_write_event := Empty_handler\<rparr>)
        else finalize (NGX_HTTP 500) r1)"

end
