(* ===== verification/Purge_Spec.thy ===== *)
theory Purge_Spec
  imports Purge Store_Collect Cache_File_Spec Runtime_Spec
begin

text \<open>
  The purges of a request against the abstract index and the disk: one contract for the loops over
  indexed paths, the directory walks, and what each purge leaves behind.
\<close>

section \<open>The bookkeeping operations leave the world alone\<close>

text \<open>\<open>same_world r r'\<close>: only the context, the pool, the counters and the store handles may differ.\<close>

definition same_world :: "req \<Rightarrow> req \<Rightarrow> bool" where
  "same_world r r' \<longleftrightarrow> rq_disk r' = rq_disk r \<and> rq_shm r' = rq_shm r \<and> rq_watch r' = rq_watch r \<and>
     rq_cache r' = rq_cache r \<and> rq_final r' = rq_final r \<and> rq_count r' = rq_count r \<and>
     rq_aio r' = rq_aio r \<and> rq_blocked r' = rq_blocked r \<and> rq_write_event r' = rq_write_event r \<and>
     rq_task r' = rq_task r \<and> rq_responses r' = rq_responses r"

lemma same_world_refl [simp]: "same_world r r"
  by (simp add: same_world_def)

lemma same_world_trans: "same_world r r1 \<Longrightarrow> same_world r1 r2 \<Longrightarrow> same_world r r2"
  by (simp add: same_world_def)

lemma same_world_pool [simp]: "same_world r (r1\<lparr>rq_pool := pl\<rparr>) = same_world r r1"
  "same_world r (r1\<lparr>rq_cycle_pool := cp, rq_store := sr\<rparr>) = same_world r r1"
  "same_world r (r1\<lparr>rq_ctx := c\<rparr>) = same_world r r1"
  "same_world r (r1\<lparr>rq_metrics := m\<rparr>) = same_world r r1"
  by (simp_all add: same_world_def)

lemma get_request_ctx_world: "get_request_ctx r = (c, r1) \<Longrightarrow> same_world r0 r1 = same_world r0 r"
  by (auto simp: get_request_ctx_def split: option.splits prod.splits bool.splits)

lemma upd_metrics_world [simp]: "same_world r0 (upd_metrics E g r) = same_world r0 r"
  by (simp add: upd_metrics_def split: option.splits)

lemma bookkeeping_world [simp]:
  "same_world r0 (set_response_path path r) = same_world r0 r"
  "same_world r0 (set_decline_reason reason r) = same_world r0 r"
  "same_world r0 (record_purge E t soft n r) = same_world r0 r"
  "same_world r0 (record_response_purge E t soft n r) = same_world r0 r"
  "same_world r0 (record_purge_request E t soft r) = same_world r0 r"
  "same_world r0 (record_key_index_exact_fanout E r) = same_world r0 r"
  "same_world r0 (record_key_index_wildcard_hit E r) = same_world r0 r"
  "same_world r0 (record_fanout E used r) = same_world r0 r"
  by (auto simp: set_response_path_def set_decline_reason_def record_purge_def record_response_purge_def
      record_purge_request_def record_key_index_exact_fanout_def record_key_index_wildcard_hit_def
      record_fanout_def get_request_ctx_world split: prod.splits option.splits)

lemma same_worldD:
  assumes "same_world r r'"
  shows "rq_disk r' = rq_disk r" "rq_shm r' = rq_shm r" "rq_watch r' = rq_watch r" "rq_cache r' = rq_cache r"
  using assms by (simp_all add: same_world_def)

lemma key_index_ready_cases:
  assumes "key_index_ready E cache r = (rc, zone, reader, r1)"
  shows "same_world r r1"
    and "rc = NGX_OK \<Longrightarrow> reader \<and> (\<exists>z. zone = Some z \<and> runtime_lookup_zone (rq_watch r) cache = Some z)"
    and "rc = NGX_OK \<or> rc = NGX_DECLINED"
    and "rc = NGX_OK \<Longrightarrow> rq_pool r1 = rq_pool r"
  using assms
  by (auto simp: key_index_ready_def Let_def split: if_splits option.splits prod.splits)+

section \<open>The contract of the loops over paths\<close>

fun path_loop :: "(ngx_str \<Rightarrow> 's \<Rightarrow> ngx_rc \<times> 's) \<Rightarrow> ngx_str list \<Rightarrow> bool \<Rightarrow> nat \<Rightarrow> 's \<Rightarrow> ngx_rc \<times> bool \<times> nat \<times> 's" where
  "path_loop step [] used count r = (NGX_OK, used, count, r)"
| "path_loop step (p # ps) used count r =
     (case step p r of
        (rc, r1) \<Rightarrow>
          if rc = NGX_OK then path_loop step ps True (count + 1) r1
          else if rc \<noteq> NGX_DECLINED then (NGX_ERROR, used, count, r1)
          else path_loop step ps used count r1)"

text \<open>What one step promises: it keeps the invariant, changes only its path, succeeds exactly when
  the path was there, and after any code but an error its path is purged; purged paths stay purged.\<close>

locale path_purge =
  fixes step :: "ngx_str \<Rightarrow> 's \<Rightarrow> ngx_rc \<times> 's"
    and inv :: "'s \<Rightarrow> bool"
    and frame :: "ngx_str set \<Rightarrow> 's \<Rightarrow> 's \<Rightarrow> bool"
    and there :: "'s \<Rightarrow> ngx_str \<Rightarrow> bool"
    and purged :: "'s \<Rightarrow> ngx_str \<Rightarrow> bool"
  assumes frame_refl: "frame P r r"
    and frame_trans: "frame P r r1 \<Longrightarrow> frame Q r1 r2 \<Longrightarrow> frame (P \<union> Q) r r2"
    and frame_there: "frame P r r1 \<Longrightarrow> p \<notin> P \<Longrightarrow> there r1 p = there r p"
    and step_inv: "inv r \<Longrightarrow> step p r = (rc, r1) \<Longrightarrow> inv r1"
    and step_frame: "inv r \<Longrightarrow> step p r = (rc, r1) \<Longrightarrow> frame {p} r r1"
    and step_code: "inv r \<Longrightarrow> step p r = (rc, r1) \<Longrightarrow>
      (rc = NGX_OK \<and> there r p \<or> rc = NGX_DECLINED \<and> \<not> there r p \<or> rc = NGX_ERROR)"
    and step_purges: "inv r \<Longrightarrow> step p r = (rc, r1) \<Longrightarrow> rc \<noteq> NGX_ERROR \<Longrightarrow> purged r1 p"
    and step_keeps: "inv r \<Longrightarrow> step p r = (rc, r1) \<Longrightarrow> purged r q \<Longrightarrow> purged r1 q"
begin

lemma path_loop_spec:
  assumes "inv r" and "path_loop step ps used count r = (rc, used', count', r')"
  shows "inv r' \<and> frame (set ps) r r' \<and> (rc = NGX_OK \<or> rc = NGX_ERROR) \<and>
    (\<forall>q. purged r q \<longrightarrow> purged r' q) \<and> (rc = NGX_OK \<longrightarrow> (\<forall>p \<in> set ps. purged r' p))"
  using assms
proof (induction ps arbitrary: used count r)
  case (Cons p ps)
  obtain rc1 r1 where s: "step p r = (rc1, r1)" by fastforce
  note st = step_inv [OF Cons.prems(1) s] step_frame [OF Cons.prems(1) s] step_code [OF Cons.prems(1) s]
    step_purges [OF Cons.prems(1) s] step_keeps [OF Cons.prems(1) s]
  consider (err) "rc1 = NGX_ERROR" | (go) u c where "rc1 = NGX_OK \<or> rc1 = NGX_DECLINED"
      "path_loop step ps u c r1 = (rc, used', count', r')"
    using st(3) s Cons.prems(2) by fastforce
  then show ?case
  proof cases
    case err
    with Cons.prems(2) s have "rc = NGX_ERROR" "r' = r1" by auto
    moreover have "frame (set (p # ps)) r r1" using frame_trans [OF st(2) frame_refl, of "set ps"] by simp
    ultimately show ?thesis using st(1,5) by simp
  next
    case go
    note ih = Cons.IH [OF st(1) go(2)]
    have "frame (set (p # ps)) r r'" using frame_trans [OF st(2)] ih by (metis insert_is_Un list.simps(15))
    moreover have "purged r1 p" using st(4) go(1) by auto
    ultimately show ?thesis using ih st(5) by simp
  qed
qed (simp add: frame_refl)

text \<open>The count is the number of paths that were there.\<close>

lemma path_loop_count:
  assumes "inv r" and "path_loop step ps used count r = (NGX_OK, used', count', r')" and "distinct ps"
  shows "count' = count + length (filter (there r) ps) \<and> used' = (used \<or> (\<exists>p \<in> set ps. there r p))"
  using assms
proof (induction ps arbitrary: used count r)
  case (Cons p ps)
  obtain rc1 r1 where s: "step p r = (rc1, r1)" by fastforce
  note st = step_inv [OF Cons.prems(1) s] step_frame [OF Cons.prems(1) s] step_code [OF Cons.prems(1) s]
  have eq: "there r1 q = there r q" if "q \<in> set ps" for q
    using frame_there [OF st(2), of q] that Cons.prems(3) by auto
  then have f: "filter (there r1) ps = filter (there r) ps" by (auto intro: filter_cong)
  from st(3) consider "rc1 = NGX_OK" "there r p" | "rc1 = NGX_DECLINED" "\<not> there r p" | "rc1 = NGX_ERROR" by blast
  then show ?case
  proof cases
    case 1
    with Cons.prems(2) s have "path_loop step ps True (count + 1) r1 = (NGX_OK, used', count', r')" by simp
    from Cons.IH [OF st(1) this] Cons.prems(3) 1 f show ?thesis by simp
  next
    case 2
    with Cons.prems(2) s have "path_loop step ps used count r1 = (NGX_OK, used', count', r')" by simp
    from Cons.IH [OF st(1) this] Cons.prems(3) 2 f eq show ?thesis by auto
  next
    case 3
    with Cons.prems(2) s show ?thesis by simp
  qed
qed simp

end

section \<open>The loops of the code\<close>

lemma indexed_loop_eq:
  "indexed_loop N H E zone reader soft ps used count r =
     path_loop (\<lambda>p. by_indexed_path N H E zone reader p soft) ps used count r"
  by (induction ps arbitrary: used count r) (auto split: prod.splits)

lemma soft_fanout_loop_eq:
  "soft_fanout_loop N H ps used count r = path_loop (\<lambda>p. with_disk (\<lambda>d. by_path N H d p True)) ps used count r"
  by (induction ps arbitrary: used count r) (auto split: prod.splits)

definition tag_step ::
  "ngx_core \<Rightarrow> http_core \<Rightarrow> req_env \<Rightarrow> index_zone \<Rightarrow> bool \<Rightarrow> ngx_str \<Rightarrow> req \<Rightarrow> ngx_rc \<times> req" where
  "tag_step N H E zone soft p r =
     (case with_disk (\<lambda>d. by_path N H d p soft) r of
        (rc, r1) \<Rightarrow>
          if rc = NGX_DECLINED \<or> (rc = NGX_OK \<and> \<not> soft) then (rc, drop_from_index N E zone p r1) else (rc, r1))"

lemma tag_loop_eq:
  "tag_loop N H E zone soft ps count r =
     (case path_loop (tag_step N H E zone soft) ps used count r of (rc, u, n, r') \<Rightarrow> (rc, n, r'))"
proof (induction ps arbitrary: used count r)
  case (Cons p ps)
  obtain rc r1 where s: "with_disk (\<lambda>d. by_path N H d p soft) r = (rc, r1)" by fastforce
  show ?case
  proof (cases "rc = NGX_OK \<or> rc = NGX_DECLINED")
    case True
    then show ?thesis
      using s Cons [of "count + 1" r1 True] Cons [of "count + 1" "drop_from_index N E zone p r1" True]
        Cons [of count "drop_from_index N E zone p r1" used]
      by (auto simp: tag_step_def Let_def)
  next
    case False
    then show ?thesis using s by (auto simp: tag_step_def)
  qed
qed simp

section \<open>The world a purge changes\<close>

definition world_ok :: "ngx_core \<Rightarrow> req \<Rightarrow> bool" where
  "world_ok N r \<longleftrightarrow> store_ok N (rq_shm r) \<and> cache_ok (dk_cache (rq_disk r))"

definition file_there :: "req \<Rightarrow> ngx_str \<Rightarrow> bool" where
  "file_there r p \<longleftrightarrow> os_files (dk_os (rq_disk r)) p \<noteq> None"

definition indexed :: "req \<Rightarrow> ngx_str \<Rightarrow> ngx_str \<rightharpoonup> file_meta" where
  "indexed r zone_name = view (rq_shm r) zone_name"

text \<open>Only the paths in \<open>P\<close> change: their files may go or be rewritten, their index entries in the
  zone may go; nothing leaks, no zone changes its state, the bytes of the cache stay accounted for.\<close>

definition world_frame :: "ngx_str \<Rightarrow> ngx_str set \<Rightarrow> req \<Rightarrow> req \<Rightarrow> bool" where
  "world_frame zn P r r' \<longleftrightarrow>
     stray (rq_shm r') = stray (rq_shm r) \<and> boot_done (rq_shm r') = boot_done (rq_shm r) \<and>
     (\<forall>z p. z \<noteq> zn \<or> p \<notin> P \<longrightarrow> indexed r' z p = indexed r z p) \<and>
     (\<forall>p. indexed r' zn p = indexed r zn p \<or> indexed r' zn p = None) \<and>
     (\<forall>p. p \<notin> P \<longrightarrow> os_files (dk_os (rq_disk r')) p = os_files (dk_os (rq_disk r)) p) \<and>
     (\<forall>p. file_there r' p \<longrightarrow> file_there r p) \<and>
     cache_slack (dk_cache (rq_disk r')) = cache_slack (dk_cache (rq_disk r)) \<and>
     rq_watch r' = rq_watch r"

definition only_world :: "req \<Rightarrow> req \<Rightarrow> bool" where
  "only_world r r' \<longleftrightarrow> r' = r\<lparr>rq_disk := rq_disk r', rq_shm := rq_shm r'\<rparr>"

definition purge_frame :: "ngx_str \<Rightarrow> ngx_str set \<Rightarrow> req \<Rightarrow> req \<Rightarrow> bool" where
  "purge_frame zn P r r' \<longleftrightarrow> world_frame zn P r r' \<and> only_world r r'"

lemma world_frame_refl: "world_frame zn P r r"
  by (simp add: world_frame_def)

lemma world_frame_trans: "world_frame zn P r r1 \<Longrightarrow> world_frame zn Q r1 r2 \<Longrightarrow> world_frame zn (P \<union> Q) r r2"
  unfolding world_frame_def by (intro conjI allI impI) (metis UnCI)+

lemma only_world_refl: "only_world r r"
  by (simp add: only_world_def)

lemma only_world_trans: "only_world r r1 \<Longrightarrow> only_world r1 r2 \<Longrightarrow> only_world r r2"
proof -
  assume a: "only_world r r1" "only_world r1 r2"
  have "r2 = r1\<lparr>rq_disk := rq_disk r2, rq_shm := rq_shm r2\<rparr>" using a(2) by (simp only: only_world_def)
  also have "\<dots> = (r\<lparr>rq_disk := rq_disk r1, rq_shm := rq_shm r1\<rparr>)\<lparr>rq_disk := rq_disk r2, rq_shm := rq_shm r2\<rparr>"
    using a(1) by (simp only: only_world_def)
  finally show ?thesis by (simp add: only_world_def)
qed

lemma world_frame_mono: "world_frame zn P r r' \<Longrightarrow> P \<subseteq> Q \<Longrightarrow> world_frame zn Q r r'"
  by (auto simp: world_frame_def)

lemma world_frame_unindexed: "world_frame zn P r r' \<Longrightarrow> indexed r zn p = None \<Longrightarrow> indexed r' zn p = None"
  by (metis world_frame_def)

lemma world_frame_same: "same_world r r' \<Longrightarrow> world_frame zn P r r'"
  by (simp add: world_frame_def same_world_def indexed_def file_there_def)

lemma world_ok_same: "same_world r r' \<Longrightarrow> world_ok N r \<Longrightarrow> world_ok N r'"
  by (simp add: world_ok_def same_world_def)

section \<open>One path\<close>

text \<open>\<open>path_done\<close>: the path is purged, and with \<open>clean\<close> its index entry is gone when the file is.\<close>

definition path_done :: "http_core \<Rightarrow> ngx_str \<Rightarrow> bool \<Rightarrow> bool \<Rightarrow> req \<Rightarrow> ngx_str \<Rightarrow> bool" where
  "path_done H zn soft clean r p \<longleftrightarrow> path_purged H soft (dk_os (rq_disk r)) p \<and>
     (clean \<and> \<not> file_there r p \<longrightarrow> indexed r zn p = None)"

lemma disk_step:
  assumes H: "http_core_ok H" and inv: "world_ok N r" and s: "with_disk (\<lambda>d. by_path N H d p soft) r = (rc, r1)"
  shows "world_ok N r1" and "purge_frame zn {p} r r1"
    and "rc = NGX_OK \<and> file_there r p \<or> rc = NGX_DECLINED \<and> \<not> file_there r p \<or> rc = NGX_ERROR"
    and "rc \<noteq> NGX_ERROR \<Longrightarrow> path_purged H soft (dk_os (rq_disk r1)) p"
    and "path_purged H soft (dk_os (rq_disk r)) q \<Longrightarrow> path_purged H soft (dk_os (rq_disk r1)) q"
    and "rq_shm r1 = rq_shm r" and "rc = NGX_DECLINED \<Longrightarrow> r1 = r" and "rc = NGX_OK \<Longrightarrow> soft \<Longrightarrow> file_there r1 p"
    and "rc = NGX_ERROR \<Longrightarrow> file_there r1 q = file_there r q"
proof -
  obtain d where b: "by_path N H (rq_disk r) p soft = (rc, d)" and r1: "r1 = r\<lparr>rq_disk := d\<rparr>"
    using s by (auto simp: with_disk_def split: prod.splits)
  note c = by_path_cases [OF H b] and acc = by_path_accounts [OF H _ b]
  note ot = by_path_cases(4) [OF H b]
  show "world_ok N r1" using inv acc by (simp add: world_ok_def r1)
  have err: "file_there r1 q = file_there r q" if "rc \<noteq> NGX_OK" for q
    using file_kept_there [OF c(5) [OF that]] ot [of q] by (cases "q = p") (simp_all add: file_there_def r1)
  have keep: "file_there r1 q \<Longrightarrow> file_there r q" for q
  proof (cases "rc = NGX_OK")
    case True
    then show "file_there r1 q \<Longrightarrow> file_there r q" using c(1) ot [of q] by (cases "q = p") (auto simp: file_there_def r1)
  qed (simp add: err)
  show "purge_frame zn {p} r r1"
    using inv acc ot keep by (simp add: purge_frame_def world_frame_def only_world_def r1 indexed_def world_ok_def)
  show "rc = NGX_OK \<and> file_there r p \<or> rc = NGX_DECLINED \<and> \<not> file_there r p \<or> rc = NGX_ERROR"
    using c(1-3) by (auto simp: file_there_def)
  show "rc \<noteq> NGX_ERROR \<Longrightarrow> path_purged H soft (dk_os (rq_disk r1)) p"
    using c(1-3) by (auto simp: r1 path_purged_def)
  show "path_purged H soft (dk_os (rq_disk r)) q \<Longrightarrow> path_purged H soft (dk_os (rq_disk r1)) q"
    using by_path_keeps_purged [OF H b] by (simp add: r1)
  show "rq_shm r1 = rq_shm r" "rc = NGX_DECLINED \<Longrightarrow> r1 = r" using c(2) by (auto simp: r1)
  show "rc = NGX_OK \<Longrightarrow> soft \<Longrightarrow> file_there r1 p"
  proof -
    assume a: "rc = NGX_OK" soft
    then have "soft_path N H (rq_disk r) p = (NGX_OK, d)" using b by (simp add: by_path_def)
    from soft_path_cases(1) [OF H this] show "file_there r1 p" by (auto simp: file_there_def r1)
  qed
  show "rc = NGX_ERROR \<Longrightarrow> file_there r1 q = file_there r q" using err by simp
qed

lemma index_step:
  assumes N: "ngx_core_ok N" and inv: "world_ok N r" and nul: "c_nul \<notin> set (iz_zone_name zone)"
  shows "world_ok N (drop_from_index N E zone p r)"
    and "purge_frame (iz_zone_name zone) {p} r (drop_from_index N E zone p r)"
    and "indexed (drop_from_index N E zone p r) (iz_zone_name zone) p = None"
    and "rq_disk (drop_from_index N E zone p r) = rq_disk r"
proof -
  obtain rc s where d: "delete_file N (en_now E) (rq_shm r) (iz_zone_name zone) p = (rc, s)" by fastforce
  have sok: "store_ok N (rq_shm r)" using inv by (simp add: world_ok_def)
  note c = delete_file_spec [OF N sok nul d]
  have r: "drop_from_index N E zone p r = r\<lparr>rq_shm := s\<rparr>" by (simp add: drop_from_index_def d)
  show "world_ok N (drop_from_index N E zone p r)" "rq_disk (drop_from_index N E zone p r) = rq_disk r"
    using c inv by (simp_all add: r world_ok_def)
  show "purge_frame (iz_zone_name zone) {p} r (drop_from_index N E zone p r)"
    "indexed (drop_from_index N E zone p r) (iz_zone_name zone) p = None"
    using c by (auto simp: r purge_frame_def world_frame_def only_world_def indexed_def file_there_def)
qed

lemma purge_frame_there: "purge_frame zn P r r1 \<Longrightarrow> p \<notin> P \<Longrightarrow> file_there r1 p = file_there r p"
  by (simp add: purge_frame_def world_frame_def file_there_def)

text \<open>Purging on disk and then, unless the purge failed, dropping the index entry.\<close>

lemma purge_frame_trans: "purge_frame zn P r r1 \<Longrightarrow> purge_frame zn Q r1 r2 \<Longrightarrow> purge_frame zn (P \<union> Q) r r2"
  unfolding purge_frame_def using world_frame_trans only_world_trans by blast

lemma both_step:
  assumes N: "ngx_core_ok N" and H: "http_core_ok H" and inv: "world_ok N r"
    and nul: "c_nul \<notin> set (iz_zone_name zone)"
    and s: "with_disk (\<lambda>d. by_path N H d p soft) r = (rc, r1)"
    and r2: "r2 = (if dropped then drop_from_index N E zone p r1 else r1)"
    and dropped: "dropped \<Longrightarrow> rc \<noteq> NGX_ERROR" and clean: "clean \<Longrightarrow> rc = NGX_DECLINED \<or> rc = NGX_OK \<and> \<not> soft \<Longrightarrow> dropped"
  shows "world_ok N r2" and "purge_frame (iz_zone_name zone) {p} r r2"
    and "rc \<noteq> NGX_ERROR \<Longrightarrow> path_done H (iz_zone_name zone) soft clean r2 p"
    and "path_done H (iz_zone_name zone) soft clean r q \<Longrightarrow> path_done H (iz_zone_name zone) soft clean r2 q"
proof -
  let ?zn = "iz_zone_name zone"
  note d = disk_step [OF H inv s]
  note i = index_step [OF N d(1) nul]
  show "world_ok N r2" using d(1) i(1) by (simp add: r2)
  show "purge_frame ?zn {p} r r2" using d(2) [of ?zn] purge_frame_trans [OF d(2) i(2) [where E = E and p = p]] by (cases dropped) (simp_all add: r2)
  have disk: "rq_disk r2 = rq_disk r1" using i(4) by (simp add: r2)
  have less: "indexed r ?zn q = None \<Longrightarrow> indexed r2 ?zn q = None" for q
    using i(2) d(6) by (auto simp: r2 purge_frame_def world_frame_def indexed_def) (metis indexed_def)+
  show "rc \<noteq> NGX_ERROR \<Longrightarrow> path_done H ?zn soft clean r2 p"
  proof -
    assume ne: "rc \<noteq> NGX_ERROR"
    then have "path_purged H soft (dk_os (rq_disk r2)) p" using d(4) disk by simp
    moreover have "indexed r2 ?zn p = None" if "clean" "\<not> file_there r2 p"
    proof -
      from that(2) have "\<not> file_there r1 p" by (simp add: file_there_def disk)
      with d(3,8) ne have "rc = NGX_DECLINED \<or> rc = NGX_OK \<and> \<not> soft" by auto
      with clean that(1) have dropped by blast
      then show ?thesis using i(3) by (simp add: r2)
    qed
    ultimately show ?thesis by (simp add: path_done_def)
  qed
  show "path_done H ?zn soft clean r2 q" if pd: "path_done H ?zn soft clean r q"
  proof -
    have "path_purged H soft (dk_os (rq_disk r2)) q" using pd d(5) disk by (simp add: path_done_def)
    moreover have "indexed r2 ?zn q = None" if "clean" "\<not> file_there r2 q"
    proof (cases "file_there r q")
      case False
      with pd that(1) less show ?thesis by (simp add: path_done_def)
    next
      case True
      from that(2) have no: "\<not> file_there r1 q" by (simp add: file_there_def disk)
      have "q = p" using purge_frame_there [OF d(2)] no True by blast
      with no True d(3,7,8) d(9) [of q] have "rc = NGX_OK \<and> \<not> soft" by auto
      with clean that(1) have dropped by blast
      then show ?thesis using i(3) \<open>q = p\<close> by (simp add: r2)
    qed
    ultimately show ?thesis by (simp add: path_done_def)
  qed
qed

section \<open>The loops meet the contract\<close>

definition good_zone :: "index_zone \<Rightarrow> bool" where
  "good_zone zone \<longleftrightarrow> c_nul \<notin> set (iz_zone_name zone)"

lemma purge_frame_refl: "purge_frame zn P r r"
  by (simp add: purge_frame_def world_frame_refl only_world_refl)

lemma by_indexed_path_step:
  assumes "ngx_core_ok N" and "http_core_ok H" and "good_zone zone" and "world_ok N r"
    and s: "by_indexed_path N H E (Some zone) True p soft r = (rc, r2)"
  shows "world_ok N r2 \<and> purge_frame (iz_zone_name zone) {p} r r2 \<and>
    (rc = NGX_OK \<and> file_there r p \<or> rc = NGX_DECLINED \<and> \<not> file_there r p \<or> rc = NGX_ERROR) \<and>
    (rc \<noteq> NGX_ERROR \<longrightarrow> path_done H (iz_zone_name zone) soft (\<not> soft) r2 p) \<and>
    (path_done H (iz_zone_name zone) soft (\<not> soft) r q \<longrightarrow> path_done H (iz_zone_name zone) soft (\<not> soft) r2 q)"
proof -
  obtain rc1 r1 where w: "with_disk (\<lambda>d. by_path N H d p soft) r = (rc1, r1)" by fastforce
  have rc: "rc1 = rc" and r2: "r2 = (if \<not> soft \<and> (rc = NGX_OK \<or> rc = NGX_DECLINED)
      then drop_from_index N E zone p r1 else r1)"
    using s w by (auto simp: by_indexed_path_def delete_index_path_def split: if_splits)
  note b = both_step [OF assms(1,2,4) assms(3) [unfolded good_zone_def] w [unfolded rc] r2, of "\<not> soft"]
  note d = disk_step [OF assms(2,4) w [unfolded rc]]
  show ?thesis using b d(3) by auto
qed

interpretation il: path_purge "\<lambda>p. by_indexed_path N H E (Some zone) True p soft"
    "\<lambda>r. ngx_core_ok N \<and> http_core_ok H \<and> good_zone zone \<and> world_ok N r"
    "purge_frame (iz_zone_name zone)" file_there "path_done H (iz_zone_name zone) soft (\<not> soft)"
  for N H E zone soft
proof (unfold_locales, goal_cases)
  case 1
  show ?case by (rule purge_frame_refl)
next
  case 2
  then show ?case by (rule purge_frame_trans)
next
  case 3
  then show ?case by (rule purge_frame_there)
qed (use by_indexed_path_step in blast)+

lemma tag_step_step:
  assumes "ngx_core_ok N" and "http_core_ok H" and "good_zone zone" and "world_ok N r"
    and s: "tag_step N H E zone soft p r = (rc, r2)"
  shows "world_ok N r2 \<and> purge_frame (iz_zone_name zone) {p} r r2 \<and>
    (rc = NGX_OK \<and> file_there r p \<or> rc = NGX_DECLINED \<and> \<not> file_there r p \<or> rc = NGX_ERROR) \<and>
    (rc \<noteq> NGX_ERROR \<longrightarrow> path_done H (iz_zone_name zone) soft True r2 p) \<and>
    (path_done H (iz_zone_name zone) soft True r q \<longrightarrow> path_done H (iz_zone_name zone) soft True r2 q)"
proof -
  obtain rc1 r1 where w: "with_disk (\<lambda>d. by_path N H d p soft) r = (rc1, r1)" by fastforce
  have rc: "rc1 = rc" and r2: "r2 = (if rc = NGX_DECLINED \<or> (rc = NGX_OK \<and> \<not> soft)
      then drop_from_index N E zone p r1 else r1)"
    using s w by (auto simp: tag_step_def split: if_splits)
  note b = both_step [OF assms(1,2,4) assms(3) [unfolded good_zone_def] w [unfolded rc] r2, of True]
  note d = disk_step [OF assms(2,4) w [unfolded rc]]
  show ?thesis using b d(3) by auto
qed

interpretation tl: path_purge "tag_step N H E zone soft"
    "\<lambda>r. ngx_core_ok N \<and> http_core_ok H \<and> good_zone zone \<and> world_ok N r"
    "purge_frame (iz_zone_name zone)" file_there "path_done H (iz_zone_name zone) soft True"
  for N H E zone soft
proof (unfold_locales, goal_cases)
  case 1
  show ?case by (rule purge_frame_refl)
next
  case 2
  then show ?case by (rule purge_frame_trans)
next
  case 3
  then show ?case by (rule purge_frame_there)
qed (use tag_step_step in blast)+

text \<open>The soft fan-out does not touch the index: it is the soft case of the indexed loop.\<close>

lemma soft_fanout_loop_indexed:
  "soft_fanout_loop N H ps used count r = indexed_loop N H E (Some zone) True True ps used count r"
proof -
  have "by_indexed_path N H E (Some zone) True p True = with_disk (\<lambda>d. by_path N H d p True)" for p
    by (rule ext) (simp add: by_indexed_path_def split: prod.splits)
  then show ?thesis by (simp add: soft_fanout_loop_eq indexed_loop_eq)
qed

lemma indexed_loop_spec:
  assumes "ngx_core_ok N" "http_core_ok H" "good_zone zone" "world_ok N r"
    and "indexed_loop N H E (Some zone) True soft ps used count r = (rc, used', count', r')"
  shows "world_ok N r' \<and> purge_frame (iz_zone_name zone) (set ps) r r' \<and> (rc = NGX_OK \<or> rc = NGX_ERROR) \<and>
    (rc = NGX_OK \<longrightarrow> (\<forall>p \<in> set ps. path_done H (iz_zone_name zone) soft (\<not> soft) r' p)) \<and>
    (rc = NGX_OK \<and> distinct ps \<longrightarrow> count' = count + length (filter (file_there r) ps) \<and>
       used' = (used \<or> (\<exists>p \<in> set ps. file_there r p)))"
  using assms il.path_loop_spec [of N H zone r E soft ps used count rc used' count' r']
    il.path_loop_count [of N H zone r E soft ps used count used' count' r']
  by (auto simp: indexed_loop_eq)

lemma tag_loop_spec:
  assumes "ngx_core_ok N" "http_core_ok H" "good_zone zone" "world_ok N r"
    and "tag_loop N H E zone soft ps count r = (rc, count', r')"
  shows "world_ok N r' \<and> purge_frame (iz_zone_name zone) (set ps) r r' \<and> (rc = NGX_OK \<or> rc = NGX_ERROR) \<and>
    (rc = NGX_OK \<longrightarrow> (\<forall>p \<in> set ps. path_done H (iz_zone_name zone) soft True r' p)) \<and>
    (rc = NGX_OK \<and> distinct ps \<longrightarrow> count' = count + length (filter (file_there r) ps))"
proof -
  obtain u where "path_loop (tag_step N H E zone soft) ps False count r = (rc, u, count', r')"
    using assms(5) by (auto simp: tag_loop_eq [of _ _ _ _ _ _ _ _ False] split: prod.splits)
  then show ?thesis
    using assms(1-4) tl.path_loop_spec [of N H zone r E soft ps False count rc u count' r']
      tl.path_loop_count [of N H zone r E soft ps False count u count' r'] by auto
qed

section \<open>The four purges\<close>

lemma declined_after:
  "declined_with (set_decline_reason reason r) = NOT_FOUND \<Longrightarrow> reason = NOT_FOUND"
  by (auto simp: declined_with_def set_decline_reason_def get_request_ctx_def split: option.splits prod.splits bool.splits)

definition tag_paths :: "req \<Rightarrow> ngx_str \<Rightarrow> ngx_str list \<Rightarrow> ngx_str set" where
  "tag_paths r zn tags = paths_by_tags (indexed r zn) tags"

lemma declined_other [simp]: "reason \<noteq> NOT_FOUND \<Longrightarrow> declined_with (set_decline_reason reason r) \<noteq> NOT_FOUND"
  using declined_after by blast

text \<open>A tag purge either does nothing to the world, or runs the loop over the tagged paths.\<close>

lemma index_purge_cases:
  assumes ok: "ngx_core_ok N" "http_core_ok H" "world_ok N r"
    and zone: "runtime_lookup_zone (rq_watch r) cache = Some zone" "good_zone zone"
    and p: "index_purge N H E cache tags r = (rc, r')"
  shows "(same_world r r' \<and> rc \<noteq> NGX_OK \<and> (rc = NGX_DECLINED \<longrightarrow> declined_with r' \<noteq> NOT_FOUND)) \<or>
    (\<exists>paths rc2 n r1 r2. same_world r r1 \<and> same_world r2 r' \<and> distinct paths \<and>
       set paths = tag_paths r (iz_zone_name zone) tags \<and> boot_done (rq_shm r) (iz_zone_name zone) \<and>
       tag_loop N H E zone (request_mode N E (pc_soft (purge_conf E))) paths 0 r1 = (rc2, n, r2) \<and>
       rc = (if rc2 \<noteq> NGX_OK then NGX_ERROR else if n = 0 then NGX_DECLINED else NGX_OK) \<and>
       r' = (if rc2 \<noteq> NGX_OK then r2 else if n = 0 then set_decline_reason NOT_FOUND r2
             else set_response_path REUSED_PERSISTED_INDEX (record_response_purge E STATS_TAG
                    (request_mode N E (pc_soft (purge_conf E))) (of_nat n) r2)))"
proof -
  let ?soft = "request_mode N E (pc_soft (purge_conf E))" and ?zn = "iz_zone_name zone"
  obtain found pl sr where rd: "store_reader (en_main E) (en_ready E) (rq_cycle_pool r) (rq_store r) = (found, pl, sr)"
    by (metis prod_cases3)
  let ?r1 = "r\<lparr>rq_cycle_pool := pl, rq_store := sr\<rparr>"
  obtain rc1 st where st: "get_zone_state (en_now E) (rq_shm r) ?zn = (rc1, st)" by fastforce
  have sok: "store_ok N (rq_shm r)" and zn: "c_nul \<notin> set ?zn"
    using ok(3) zone(2) by (simp_all add: world_ok_def good_zone_def)
  have bdone: "st_bootstrap_complete st = boot_done (rq_shm r) ?zn"
    using get_zone_state_boot [OF sok zn, of "en_now E"] st by simp
  obtain rc2 pl2 paths where col: "collect_paths_by_tags N (rq_shm r) (rq_pool r) ?zn (Some tags) = (rc2, pl2, paths)"
    by (metis prod_cases3)
  note c = collect_paths_by_tags_spec [OF ok(1) sok zn col]
  let ?r2 = "?r1\<lparr>rq_pool := pl2\<rparr>"
  obtain rc3 n r3 where lp: "tag_loop N H E zone ?soft paths 0 ?r2 = (rc3, n, r3)" by (metis prod_cases3)
  let ?go = "store_configured (en_main E) \<and> found \<and> rc1 = NGX_OK \<and> st_bootstrap_complete st \<and> rc2 = NGX_OK"
  show ?thesis
  proof (cases ?go)
    case False
    then have "same_world r r' \<and> rc \<noteq> NGX_OK \<and> (rc = NGX_DECLINED \<longrightarrow> declined_with r' \<noteq> NOT_FOUND)"
      using p by (auto simp: index_purge_def Let_def zone(1) rd st col split: if_splits)
    then show ?thesis ..
  next
    case True
    then have r': "rc = (if rc3 \<noteq> NGX_OK then NGX_ERROR else if n = 0 then NGX_DECLINED else NGX_OK)"
      "r' = (if rc3 \<noteq> NGX_OK then r3 else if n = 0 then set_decline_reason NOT_FOUND r3
             else set_response_path REUSED_PERSISTED_INDEX (record_response_purge E STATS_TAG ?soft (of_nat n) r3))"
      using p by (simp_all add: index_purge_def Let_def zone(1) rd st col lp split: if_splits)
    then have "same_world r3 r'" by auto
    moreover have "set paths = tag_paths r ?zn tags"
      using c True by (simp add: tag_paths_def indexed_def tags_elts_def)
    moreover have "same_world r ?r2" by simp
    ultimately show ?thesis using c True lp bdone r' by blast
  qed
qed

section \<open>Purge of one key\<close>

lemma upd_node_keeps:
  assumes "cache_ok fc" and "\<And>n. cn_key (g n) = cn_key n \<and> cn_node_key (g n) = cn_node_key n"
  shows "cache_ok (upd_node g a fc)"
    and "(\<And>n. cn_fs_size (g n) = cn_fs_size n) \<Longrightarrow> cache_slack (upd_node g a fc) = cache_slack fc"
proof -
  show "cache_ok (upd_node g a fc)" using assms by (simp add: cache_ok_def cache_wf_upd)
  show "cache_slack (upd_node g a fc) = cache_slack fc" if size: "\<And>n. cn_fs_size (g n) = cn_fs_size n"
  proof -
    have "cn_fs_size (the (fc_nodes (upd_node g a fc) b)) = cn_fs_size (the (fc_nodes fc b))"
      if "b \<in> dom (fc_nodes fc)" for b using that size by (auto simp: upd_node_def)
    then have "cache_bytes (upd_node g a fc) = cache_bytes fc" unfolding cache_bytes_def by (auto intro: sum.cong)
    then show ?thesis by (simp add: cache_slack_def upd_node_def)
  qed
qed

text \<open>\<open>cache_frame\<close>: neither a file nor an index entry changes; the cache zone may.\<close>

definition cache_frame :: "req \<Rightarrow> req \<Rightarrow> bool" where
  "cache_frame r r' \<longleftrightarrow> rq_shm r' = rq_shm r \<and> dk_os (rq_disk r') = dk_os (rq_disk r) \<and>
     cache_slack (dk_cache (rq_disk r')) = cache_slack (dk_cache (rq_disk r)) \<and> rq_watch r' = rq_watch r"

lemma cache_frame_world: "cache_frame r r' \<Longrightarrow> world_frame zn P r r'"
  by (simp add: cache_frame_def world_frame_def indexed_def file_there_def)

lemma cache_frame_same: "same_world r r' \<Longrightarrow> cache_frame r r'"
  by (simp add: cache_frame_def same_world_def)

lemma release_frame:
  assumes "world_ok N r"
  shows "world_ok N (release r)" and "cache_frame r (release r)"
proof -
  have c: "cache_ok (dk_cache (rq_disk r))" using assms by (simp add: world_ok_def)
  show "world_ok N (release r)" "cache_frame r (release r)"
    using assms upd_node_keeps [OF c, of "\<lambda>n. n\<lparr>cn_updating := False\<rparr>"]
    by (auto simp: release_def release_updating_def world_ok_def cache_frame_def Let_def)
qed

text \<open>What is relied on of opening a cache file: no file changes, the cache zone stays well-formed
  and accounted for, the request keeps its key, and a successful open leaves a live node.  That no file
  changes holds while the memory of the cache zone suffices for a new node; \<^verbatim>\<open>nginx\<close> may otherwise expire
  another entry to make room, which is outside the model.\<close>

definition open_law :: "req_env \<Rightarrow> bool" where
  "open_law E \<longleftrightarrow> (\<forall>c d st c' d'. en_open E c d = (st, c', d') \<longrightarrow>
     dk_os d' = dk_os d \<and> hc_keys c' = hc_keys c \<and> hc_file_cache c' = hc_file_cache c \<and>
     (cache_ok (dk_cache d) \<longrightarrow> cache_ok (dk_cache d') \<and> cache_slack (dk_cache d') = cache_slack (dk_cache d)) \<and>
     (st \<noteq> Open_declined \<and> st \<noteq> Open_again \<and> st \<noteq> Open_other \<longrightarrow>
        (\<exists>a. hc_node c' = Some a \<and> a \<in> dom (fc_nodes (dk_cache d')))))"

lemma open_cache_frame:
  assumes "open_law E" and "world_ok N r" and "open_cache E r = (st, r1)"
  shows "world_ok N r1" and "cache_frame r r1"
    and "hc_keys (the (rq_cache r1)) = hc_keys (the (rq_cache r))"
    and "hc_file_cache (the (rq_cache r1)) = hc_file_cache (the (rq_cache r))"
    and "st \<noteq> Open_declined \<Longrightarrow> st \<noteq> Open_again \<Longrightarrow> st \<noteq> Open_other \<Longrightarrow>
      \<exists>a. hc_node (the (rq_cache r1)) = Some a \<and> a \<in> dom (fc_nodes (dk_cache (rq_disk r1)))"
proof -
  obtain c d where o: "en_open E (the (rq_cache r)) (rq_disk r) = (st, c, d)" and r1: "r1 = r\<lparr>rq_cache := Some c, rq_disk := d\<rparr>"
    using assms(3) by (auto simp: open_cache_def split: prod.splits)
  show "world_ok N r1" "cache_frame r r1" "hc_keys (the (rq_cache r1)) = hc_keys (the (rq_cache r))"
    "hc_file_cache (the (rq_cache r1)) = hc_file_cache (the (rq_cache r))"
    "st \<noteq> Open_declined \<Longrightarrow> st \<noteq> Open_again \<Longrightarrow> st \<noteq> Open_other \<Longrightarrow>
      \<exists>a. hc_node (the (rq_cache r1)) = Some a \<and> a \<in> dom (fc_nodes (dk_cache (rq_disk r1)))"
    using assms(1,2) o by (simp_all add: open_law_def world_ok_def cache_frame_def r1)
qed

text \<open>The index is used when the store is configured and open for reading.\<close>

definition reader_open :: "req_env \<Rightarrow> req \<Rightarrow> bool" where
  "reader_open E r \<longleftrightarrow> store_configured (en_main E) \<and> sr_reader (rq_store r)"

lemma key_index_ready_open:
  assumes "reader_open E r" and "runtime_lookup_zone (rq_watch r) cache = Some zone"
  shows "key_index_ready E cache r = (NGX_OK, Some zone, True, r)"
  using assms by (simp add: reader_open_def key_index_ready_def store_reader_def flush_pending_def)

definition key_paths :: "req \<Rightarrow> ngx_str \<Rightarrow> ngx_str \<Rightarrow> ngx_str set" where
  "key_paths r zn key = paths_by_key (indexed r zn) key"

lemma pool_alloc_Nil: "pl = [] \<Longrightarrow> pool_alloc pl = (True, [])"
  by simp

text \<open>The second half of the hard fan-out: the paths under the key are collected and purged, once the
  opened file has left the index.\<close>

lemma fanout_collected:
  assumes ok: "ngx_core_ok N" "http_core_ok H" "world_ok N r" and zone: "good_zone zone" and key: "key \<noteq> []"
    and col: "collect_paths_by_exact_key N (rq_shm r) (rq_pool r) (iz_zone_name zone) key = (rc4, pl4, paths)"
    and loop: "(rc, used, n, r') = (if rc4 = NGX_OK \<and> paths \<noteq> []
      then indexed_loop N H E (Some zone) True False paths False 1 (r\<lparr>rq_pool := pl4\<rparr>)
      else (NGX_OK, False, 1, r\<lparr>rq_pool := pl4\<rparr>))"
  defines "zn \<equiv> iz_zone_name zone"
  defines "Q \<equiv> key_paths r zn key"
  shows "world_ok N r' \<and> world_frame zn Q r r' \<and> (rc = NGX_OK \<or> rc = NGX_ERROR) \<and>
    (rc = NGX_OK \<and> rq_pool r = [] \<longrightarrow>
       (\<forall>p \<in> Q. \<not> file_there r' p \<and> indexed r' zn p = None) \<and>
       n = 1 + card {p \<in> Q. file_there r p} \<and> used = (\<exists>p \<in> Q. file_there r p))"
proof -
  let ?r4 = "r\<lparr>rq_pool := pl4\<rparr>"
  have sok: "store_ok N (rq_shm r)" using ok(3) by (simp add: world_ok_def)
  have nul: "c_nul \<notin> set zn" using zone by (simp add: good_zone_def zn_def)
  have kp: "paths_by_key (view (rq_shm r) zn) key = Q" by (simp add: Q_def key_paths_def indexed_def)
  note c = collect_paths_by_exact_key_spec [OF ok(1) sok nul key col [folded zn_def], unfolded kp]
  have w4: "world_ok N ?r4" using ok(3) by (simp add: world_ok_def)
  have th: "file_there ?r4 p = file_there r p" for p by (simp add: file_there_def)
  have sw: "same_world r ?r4" by simp
  show ?thesis
  proof (cases "rc4 = NGX_OK \<and> paths \<noteq> []")
    case True
    then have lp: "indexed_loop N H E (Some zone) True False paths False 1 ?r4 = (rc, used, n, r')" using loop by simp
    note l = indexed_loop_spec [OF ok(1,2) zone w4 lp, folded zn_def]
    have ps: "set paths = Q" "distinct paths" using c True by auto
    have wf: "world_frame zn Q ?r4 r'" using l ps by (simp add: purge_frame_def)
    have "world_frame zn ({} \<union> Q) r r'" by (rule world_frame_trans [OF world_frame_same [OF sw] wf])
    moreover have "\<forall>p \<in> Q. \<not> file_there r' p \<and> indexed r' zn p = None" if "rc = NGX_OK"
      using l ps that by (auto simp: path_done_def path_purged_def file_there_def)
    moreover have "length (filter (file_there ?r4) paths) = card {p \<in> Q. file_there r p}"
    proof -
      have "set (filter (file_there ?r4) paths) = {p \<in> Q. file_there r p}" using ps th by auto
      then show ?thesis using distinct_card [of "filter (file_there ?r4) paths"] ps(2) by simp
    qed
    ultimately show ?thesis using l ps th by auto
  next
    case False
    then have eq: "rc = NGX_OK" "r' = ?r4" "n = 1" "\<not> used" using loop by auto
    have e: "rq_pool r = [] \<Longrightarrow> p \<notin> Q" for p using False c by auto
    have "world_frame zn Q r ?r4" by (rule world_frame_same [OF sw])
    then show ?thesis using eq w4 e by auto
  qed
qed

lemma hard_fanout_spec:
  assumes ok: "ngx_core_ok N" "http_core_ok H" "world_ok N r" and key: "concat (hc_keys c) \<noteq> []"
    and zone: "runtime_lookup_zone (rq_watch r) cache = Some zone" "good_zone zone"
    and f: "hard_fanout N H E cache c r = (rc, used, n, r')"
  defines "zn \<equiv> iz_zone_name zone"
  defines "P \<equiv> insert (hc_file_name c) (key_paths r zn (concat (hc_keys c)))"
  shows "world_ok N r'" and "world_frame zn P r r'" and "rc = NGX_OK \<or> rc = NGX_ERROR"
    and "rc = NGX_OK \<Longrightarrow> reader_open E r \<Longrightarrow> rq_pool r = [] \<Longrightarrow>
      indexed r' zn (hc_file_name c) = None \<and>
      (\<forall>p \<in> P - {hc_file_name c}. \<not> file_there r' p \<and> indexed r' zn p = None) \<and>
      n = 1 + card {p \<in> P - {hc_file_name c}. file_there r p} \<and>
      used = (\<exists>p \<in> P - {hc_file_name c}. file_there r p)"
proof -
  obtain rc1 z reader r1 where k: "key_index_ready E cache r = (rc1, z, reader, r1)" by (metis prod_cases4)
  note kc = key_index_ready_cases [OF k]
  obtain rc2 kt pl2 where t: "cache_key_text c (rq_pool r1) = (rc2, kt, pl2)" by (metis prod_cases3)
  let ?r2 = "r1\<lparr>rq_pool := pl2\<rparr>" and ?key = "concat (hc_keys c)" and ?name = "hc_file_name c"
  let ?r3 = "delete_index_path N E z reader ?name ?r2"
  obtain rc4 pl4 paths where col: "collect_paths_by_exact_key N (rq_shm ?r3) (rq_pool ?r3) (iz_zone_name (the z)) kt =
      (rc4, pl4, paths)" by (metis prod_cases3)
  let ?r4 = "?r3\<lparr>rq_pool := pl4\<rparr>"
  have same: "same_world r ?r2" using kc(1) by simp
  have keys: "hc_keys c \<noteq> []" using key by auto
  have early: "world_ok N r' \<and> world_frame zn P r r' \<and> (rc = NGX_OK \<or> rc = NGX_ERROR) \<and>
      \<not> (reader_open E r \<and> rq_pool r = [])" if "rc1 \<noteq> NGX_OK \<or> rc2 \<noteq> NGX_OK"
  proof -
    have "same_world r r'" "rc = NGX_OK" using f k t that same kc(1) by (auto simp: hard_fanout_def split: if_splits)
    moreover have "\<not> (reader_open E r \<and> rq_pool r = [])"
    proof
      assume a: "reader_open E r \<and> rq_pool r = []"
      with key_index_ready_open [OF _ zone(1), of E] k have "rc1 = NGX_OK" "r1 = r" by auto
      with t a keys that show False by (auto simp: cache_key_text_def)
    qed
    ultimately show ?thesis using world_ok_same [OF _ ok(3)] world_frame_same by blast
  qed
  have late: "world_ok N r' \<and> world_frame zn P r r' \<and> (rc = NGX_OK \<or> rc = NGX_ERROR) \<and>
     (rc = NGX_OK \<and> reader_open E r \<and> rq_pool r = [] \<longrightarrow> indexed r' zn ?name = None \<and>
      (\<forall>p \<in> P - {?name}. \<not> file_there r' p \<and> indexed r' zn p = None) \<and>
      n = 1 + card {p \<in> P - {?name}. file_there r p} \<and> used = (\<exists>p \<in> P - {?name}. file_there r p))"
    if go: "rc1 = NGX_OK" "rc2 = NGX_OK"
  proof -
    have z: "z = Some zone" "reader" using kc(2) [OF go(1)] zone(1) by auto
    have kt: "kt = ?key" using t go(2) by (auto simp: cache_key_text_def split: if_splits prod.splits bool.splits)
    have r3: "?r3 = drop_from_index N E zone ?name ?r2" by (simp add: delete_index_path_def z)
    have w2: "world_ok N ?r2" using world_ok_same [OF same ok(3)] .
    note i = index_step [OF ok(1) w2 zone(2) [unfolded good_zone_def], where E = E and p = ?name, folded r3 zn_def]
    have w3: "world_ok N ?r3" by (rule i(1))
    have f2: "world_frame zn {?name} r ?r3"
      using world_frame_trans [OF world_frame_same [OF same, of zn "{}"]] i(2) by (auto simp: purge_frame_def)
    have Q: "key_paths ?r3 zn ?key = P - {?name}"
    proof -
      have "indexed ?r3 zn p = (if p = ?name then None else indexed r zn p)" for p
        using i(3) f2 by (simp add: world_frame_def)
      then show ?thesis by (auto simp: P_def key_paths_def paths_by_key_def)
    qed
    have col': "collect_paths_by_exact_key N (rq_shm ?r3) (rq_pool ?r3) (iz_zone_name zone) ?key = (rc4, pl4, paths)"
      using col by (simp add: z kt)
    have "(rc, used, n, r') = (if rc4 = NGX_OK \<and> paths \<noteq> []
         then indexed_loop N H E z reader False paths False 1 ?r4 else (NGX_OK, False, 1, ?r4))"
      unfolding f [symmetric] hard_fanout_def by (simp add: k go t col Let_def)
    then have fwd: "(rc, used, n, r') = (if rc4 = NGX_OK \<and> paths \<noteq> []
         then indexed_loop N H E (Some zone) True False paths False 1 ?r4 else (NGX_OK, False, 1, ?r4))"
      using z by simp
    note l = fanout_collected [OF ok(1,2) w3 zone(2) key col' fwd, folded zn_def, unfolded Q]
    have th: "file_there ?r3 p = file_there r p" for p
      using i(4) kc(1) by (simp add: file_there_def same_world_def)
    have pool: "rq_pool ?r3 = []" if "reader_open E r" "rq_pool r = []"
    proof -
      have "r1 = r" using key_index_ready_open [OF that(1) zone(1)] k by simp
      then have "pl2 = []" using t that(2) keys by (simp add: cache_key_text_def)
      then show ?thesis by (simp add: z delete_index_path_def drop_from_index_def split: prod.splits)
    qed
    have wf: "world_frame zn (P - {?name}) ?r3 r'" using l by blast
    have "world_frame zn ({?name} \<union> (P - {?name})) r r'" by (rule world_frame_trans [OF f2 wf])
    moreover have "{?name} \<union> (P - {?name}) = P" by (auto simp: P_def)
    moreover have "indexed r' zn ?name = None" by (rule world_frame_unindexed [OF wf i(3)])
    ultimately show ?thesis using l pool unfolding th by auto
  qed
  show "world_ok N r'" "world_frame zn P r r'" "rc = NGX_OK \<or> rc = NGX_ERROR"
    "rc = NGX_OK \<Longrightarrow> reader_open E r \<Longrightarrow> rq_pool r = [] \<Longrightarrow>
      indexed r' zn (hc_file_name c) = None \<and>
      (\<forall>p \<in> P - {hc_file_name c}. \<not> file_there r' p \<and> indexed r' zn p = None) \<and>
      n = 1 + card {p \<in> P - {hc_file_name c}. file_there r p} \<and>
      used = (\<exists>p \<in> P - {hc_file_name c}. file_there r p)"
    using early late by blast+
qed

lemma delete_opened_frame:
  assumes inv: "world_ok N r" and a: "hc_node c = Some a" "a \<in> dom (fc_nodes (dk_cache (rq_disk r)))"
    and s: "with_disk (\<lambda>d. delete_opened_file d c) r = (rc, r1)"
  shows "world_ok N r1" and "world_frame zn {hc_file_name c} r r1" and "rc = NGX_OK \<or> rc = NGX_DECLINED"
    and "rc = NGX_DECLINED \<Longrightarrow> r1 = r"
    and "rc = NGX_OK \<Longrightarrow> file_there r1 (hc_file_name c) \<Longrightarrow> os_fault (dk_os (rq_disk r)) OpUnlink (hc_file_name c)"
    and "r1 = r\<lparr>rq_disk := rq_disk r1\<rparr>"
proof -
  let ?p = "hc_file_name c" and ?d = "rq_disk r"
  obtain n where n: "fc_nodes (dk_cache ?d) a = Some n" using a(2) by blast
  have c: "cache_ok (dk_cache ?d)" using inv by (simp add: world_ok_def)
  have m: "cache_ok (mark_node_deleted (dk_cache ?d) a)"
    "cache_slack (mark_node_deleted (dk_cache ?d) a) = cache_slack (dk_cache ?d)"
    using c cache_slack_mark [OF _ n] by (auto simp: cache_ok_def mark_node_deleted_def cache_wf_upd)
  obtain u o1 where u: "unlink_file (dk_os ?d) ?p = (u, o1)" by fastforce
  note uc = unlink_file_cases [OF u]
  have d: "delete_opened_file ?d c = (if \<not> cn_exists n then (NGX_DECLINED, ?d)
      else (NGX_OK, ?d\<lparr>dk_cache := mark_node_deleted (dk_cache ?d) a, dk_os := o1\<rparr>))"
    by (simp add: delete_opened_file_def a(1) n Let_def u)
  have files: "q \<noteq> ?p \<Longrightarrow> os_files o1 q = os_files (dk_os ?d) q" "os_files o1 q \<noteq> None \<Longrightarrow> os_files (dk_os ?d) q \<noteq> None" for q
    using uc(4-6) by (cases u; auto split: if_splits)+
  have there: "os_files o1 ?p \<noteq> None \<Longrightarrow> os_fault (dk_os ?d) OpUnlink ?p"
    using u by (auto simp: unlink_file_def split: option.splits if_splits)
  show "world_ok N r1" "rc = NGX_OK \<or> rc = NGX_DECLINED" "rc = NGX_DECLINED \<Longrightarrow> r1 = r"
    "rc = NGX_OK \<Longrightarrow> file_there r1 ?p \<Longrightarrow> os_fault (dk_os ?d) OpUnlink ?p" "r1 = r\<lparr>rq_disk := rq_disk r1\<rparr>"
    using s inv m there by (auto simp: with_disk_def d world_ok_def file_there_def split: if_splits)
  show "world_frame zn {?p} r r1"
    using s m files by (auto simp: with_disk_def d world_frame_def indexed_def file_there_def split: if_splits)
qed

definition opened_name :: "req_env \<Rightarrow> req \<Rightarrow> ngx_str" where
  "opened_name E r = hc_file_name (the (rq_cache (snd (open_cache E r))))"

definition request_key :: "req \<Rightarrow> ngx_str" where
  "request_key r = concat (hc_keys (the (rq_cache r)))"

lemma upd_metrics_fields [simp]:
  "rq_store (upd_metrics E g r) = rq_store r" "rq_pool (upd_metrics E g r) = rq_pool r" "rq_ctx (upd_metrics E g r) = rq_ctx r"
  by (simp_all add: upd_metrics_def split: option.splits)

lemma record_purge_request_fields [simp]:
  "rq_store (record_purge_request E t soft r) = rq_store r" "rq_pool (record_purge_request E t soft r) = rq_pool r"
  "reader_open E' (record_purge_request E t soft r) = reader_open E' r"
  by (simp_all add: record_purge_request_def reader_open_def)

lemma same_world_record: "same_world r (record_purge_request E t soft r)"
  by simp

lemma frame_before: "cache_frame r r1 \<Longrightarrow> world_frame zn P r1 r2 \<Longrightarrow> world_frame zn P r r2"
  using world_frame_trans [OF cache_frame_world [of r r1 zn "{}"]] by fastforce

lemma frame_after: "world_frame zn P r r1 \<Longrightarrow> cache_frame r1 r2 \<Longrightarrow> world_frame zn P r r2"
  using world_frame_trans [OF _ cache_frame_world [of r1 r2 zn "{}"]] by fastforce

lemma cache_frame_indexed: "cache_frame r r1 \<Longrightarrow> indexed r1 = indexed r" "cache_frame r r1 \<Longrightarrow> file_there r1 = file_there r"
  "cache_frame r r1 \<Longrightarrow> key_paths r1 zn k = key_paths r zn k"
  by (auto simp: cache_frame_def indexed_def file_there_def key_paths_def fun_eq_iff)

lemma cache_frame_trans: "cache_frame r r1 \<Longrightarrow> cache_frame r1 r2 \<Longrightarrow> cache_frame r r2"
  by (simp add: cache_frame_def)

lemma exact_purge_cases:
  assumes "world_ok N r" and "open_law E" and o: "open_cache E r = (st, r1)" and p: "exact_purge N H E r = (rc, r')"
  defines "c \<equiv> the (rq_cache r1)"
  obtains (stop) "rc \<noteq> NGX_OK" and "same_world r1 r'"
  | (del) rc3 used n r2 r3 where "with_disk (\<lambda>d. delete_opened_file d c) r1 = (NGX_OK, r2)"
      and "hard_fanout N H E (hc_file_cache c) c (record_purge_request E STATS_EXACT False r2) = (rc3, used, n, r3)"
      and "st \<noteq> Open_declined" "st \<noteq> Open_again" "st \<noteq> Open_other"
      and "rc = (if rc3 \<noteq> NGX_OK then NGX_ERROR else NGX_OK)"
      and "r' = release (if rc3 \<noteq> NGX_OK then r3
           else record_purge E STATS_EXACT False (of_nat n) (record_fanout E used r3))"
proof -
  note op = open_cache_frame [OF assms(2,1) o]
  obtain rc2 r2 where w: "with_disk (\<lambda>d. delete_opened_file d c) r1 = (rc2, r2)" by fastforce
  obtain rc3 used n r3 where h: "hard_fanout N H E (hc_file_cache c) c (record_purge_request E STATS_EXACT False r2) =
      (rc3, used, n, r3)" by (metis prod_cases4)
  show thesis
  proof (cases "st = Open_declined \<or> st = Open_again \<or> st = Open_other")
    case True
    then have "rc \<noteq> NGX_OK" "same_world r1 r'" using p by (auto simp: exact_purge_def o)
    then show thesis by (rule stop)
  next
    case False
    then obtain a where a: "hc_node c = Some a" "a \<in> dom (fc_nodes (dk_cache (rq_disk r1)))" using op(5) unfolding c_def by blast
    note df = delete_opened_frame [OF op(1) a [unfolded c_def] w [unfolded c_def]]
    show thesis
    proof (cases "rc2 = NGX_DECLINED")
      case True
      then have "rc \<noteq> NGX_OK" "same_world r1 r'"
        using False p df(4) by (auto simp: exact_purge_def o w [unfolded c_def] Let_def)
      then show thesis by (rule stop)
    next
      case no: False
      then have "rc2 = NGX_OK" using df(3) by blast
      then show thesis using del [of r2 rc3 used n r3] False p w h
        by (auto simp: exact_purge_def o c_def Let_def split: if_splits)
    qed
  qed
qed

lemma exact_purge_spec:
  assumes ok: "ngx_core_ok N" "http_core_ok H" "world_ok N r" "open_law E" and key: "request_key r \<noteq> []"
    and zone: "runtime_lookup_zone (rq_watch r) (hc_file_cache (the (rq_cache r))) = Some zone" "good_zone zone"
    and p: "exact_purge N H E r = (rc, r')"
  defines "zn \<equiv> iz_zone_name zone" and "name \<equiv> opened_name E r"
  defines "P \<equiv> insert name (key_paths r zn (request_key r))"
  shows "world_ok N r'" and "world_frame zn P r r'"
    and "rc = NGX_DECLINED \<or> rc = NGX_AGAIN \<Longrightarrow> cache_frame r r'"
    and "rc = NGX_OK \<Longrightarrow> file_there r' name \<Longrightarrow> os_fault (dk_os (rq_disk r)) OpUnlink name"
    and "rc = NGX_OK \<Longrightarrow> reader_open E r \<Longrightarrow> rq_pool r = [] \<Longrightarrow> indexed r' zn name = None \<and>
      (\<forall>p \<in> P - {name}. \<not> file_there r' p \<and> indexed r' zn p = None)"
proof -
  obtain st r1 where o: "open_cache E r = (st, r1)" by fastforce
  note op = open_cache_frame [OF ok(4,3) o]
  let ?c = "the (rq_cache r1)"
  have name: "name = hc_file_name ?c" by (simp add: name_def opened_name_def o)
  have f1: "world_frame zn Q r r1" for Q by (rule cache_frame_world [OF op(2)])
  have nop: "world_ok N r' \<and> world_frame zn P r r' \<and> cache_frame r r'" if "same_world r1 r'"
  proof -
    have "cache_frame r r'" using op(2) that by (simp add: cache_frame_def same_world_def)
    then show ?thesis using world_ok_same [OF that op(1)] cache_frame_world by blast
  qed
  have all: "world_ok N r' \<and> world_frame zn P r r' \<and>
    (rc = NGX_DECLINED \<or> rc = NGX_AGAIN \<longrightarrow> cache_frame r r') \<and>
    (rc = NGX_OK \<longrightarrow> file_there r' name \<longrightarrow> os_fault (dk_os (rq_disk r)) OpUnlink name) \<and>
    (rc = NGX_OK \<and> reader_open E r \<and> rq_pool r = [] \<longrightarrow> indexed r' zn name = None \<and>
      (\<forall>p \<in> P - {name}. \<not> file_there r' p \<and> indexed r' zn p = None))"
    using ok(3,4) o p
  proof (cases rule: exact_purge_cases)
    case stop
    then show ?thesis using nop by blast
  next
    case (del rc3 used n r2 r3)
    obtain a where a: "hc_node ?c = Some a" "a \<in> dom (fc_nodes (dk_cache (rq_disk r1)))" using op(5) del(3-5) by blast
    note df = delete_opened_frame [OF op(1) a del(1)]
    let ?r2 = "record_purge_request E STATS_EXACT False r2"
    have w2: "world_ok N ?r2" by (rule world_ok_same [OF same_world_record df(1)])
    have f2: "world_frame zn {name} r ?r2"
      using frame_after [OF frame_before [OF op(2) df(2)] cache_frame_same [OF same_world_record]] name by simp
    have sw: "same_world r2 ?r2" by simp
    obtain d where r2: "r2 = r1\<lparr>rq_disk := d\<rparr>" using df(6) by blast
    then have r2f: "rq_shm r2 = rq_shm r1" "rq_watch r2 = rq_watch r1" "rq_store r2 = rq_store r1" "rq_pool r2 = rq_pool r1"
      by simp_all
    have r1: "rq_store r1 = rq_store r" "rq_pool r1 = rq_pool r" using o by (auto simp: open_cache_def split: prod.splits)
    have keep: "rq_shm ?r2 = rq_shm r" "rq_watch ?r2 = rq_watch r" "rq_store ?r2 = rq_store r" "rq_pool ?r2 = rq_pool r"
      using op(2) r1 r2f by (simp_all add: same_worldD [OF sw] cache_frame_def)
    have k: "concat (hc_keys ?c) = request_key r" using op(3) by (simp add: request_key_def)
    have z: "runtime_lookup_zone (rq_watch ?r2) (hc_file_cache ?c) = Some zone" using zone(1) op(4) keep(2) by simp
    have key': "concat (hc_keys ?c) \<noteq> []" using key k by simp
    have idx: "indexed ?r2 = indexed r" by (simp add: indexed_def fun_eq_iff keep(1))
    then have kp: "key_paths ?r2 zn (concat (hc_keys ?c)) = key_paths r zn (request_key r)" by (simp add: key_paths_def k)
    note h = hard_fanout_spec [OF ok(1,2) w2 key' z zone(2) del(2), folded zn_def name, unfolded kp, folded P_def]
    let ?r4 = "if rc3 \<noteq> NGX_OK then r3 else record_purge E STATS_EXACT False (of_nat n) (record_fanout E used r3)"
    have s4: "same_world r3 ?r4" by simp
    have w4: "world_ok N ?r4" by (rule world_ok_same [OF s4 h(1)])
    note rel = release_frame [OF w4]
    have f34: "cache_frame r3 r'" using cache_frame_trans [OF cache_frame_same [OF s4] rel(2)] del(7) by simp
    have "world_frame zn P r r'"
      using frame_after [OF world_frame_trans [OF f2 h(2)] f34] by (simp add: P_def insert_absorb)
    moreover have "file_there r2 name" if "file_there r' name"
    proof -
      have "file_there ?r2 name" using that h(2) cache_frame_indexed(2) [OF f34] by (simp add: world_frame_def)
      then show ?thesis by (simp add: file_there_def same_worldD [OF sw])
    qed
    ultimately show ?thesis
      using rel(1) del(6,7) df(5) h(4) op(2) name cache_frame_indexed [OF f34] keep
      by (auto simp: cache_frame_def reader_open_def)
  qed
  show "world_ok N r'" "world_frame zn P r r'" "rc = NGX_DECLINED \<or> rc = NGX_AGAIN \<Longrightarrow> cache_frame r r'"
    "rc = NGX_OK \<Longrightarrow> file_there r' name \<Longrightarrow> os_fault (dk_os (rq_disk r)) OpUnlink name"
    "rc = NGX_OK \<Longrightarrow> reader_open E r \<Longrightarrow> rq_pool r = [] \<Longrightarrow> indexed r' zn name = None \<and>
      (\<forall>p \<in> P - {name}. \<not> file_there r' p \<and> indexed r' zn p = None)"
    using all by blast+
qed

section \<open>Soft purge of one key\<close>

lemma soft_fanout_loop_shm:
  "soft_fanout_loop N H ps used count r = (rc, used', count', r') \<Longrightarrow> rq_shm r' = rq_shm r"
  by (induction ps arbitrary: used count r) (auto simp: with_disk_def split: prod.splits if_splits)

lemma soft_fanout_spec:
  assumes ok: "ngx_core_ok N" "http_core_ok H" "world_ok N r" and key: "concat (hc_keys c) \<noteq> []"
    and zone: "runtime_lookup_zone (rq_watch r) cache = Some zone" "good_zone zone"
    and f: "soft_fanout N H E cache c r = (rc, used, n, r')"
  defines "zn \<equiv> iz_zone_name zone"
  defines "P \<equiv> key_paths r zn (concat (hc_keys c))"
  shows "world_ok N r'" and "world_frame zn P r r'" and "rc = NGX_OK \<or> rc = NGX_ERROR" and "rq_shm r' = rq_shm r"
    and "rc = NGX_OK \<Longrightarrow> reader_open E r \<Longrightarrow> rq_pool r = [] \<Longrightarrow>
      (\<forall>p \<in> P. path_purged H True (dk_os (rq_disk r')) p) \<and>
      n = 1 + card {p \<in> P. file_there r p} \<and> used = (\<exists>p \<in> P. file_there r p)"
    and "path_purged H True (dk_os (rq_disk r)) q \<Longrightarrow> path_purged H True (dk_os (rq_disk r')) q"
proof -
  obtain rc1 z reader r1 where k: "key_index_ready E cache r = (rc1, z, reader, r1)" by (metis prod_cases4)
  note kc = key_index_ready_cases [OF k]
  obtain rc2 kt pl2 where t: "cache_key_text c (rq_pool r1) = (rc2, kt, pl2)" by (metis prod_cases3)
  let ?r2 = "r1\<lparr>rq_pool := pl2\<rparr>" and ?key = "concat (hc_keys c)"
  obtain rc3 pl3 paths where col: "collect_paths_by_exact_key N (rq_shm ?r2) (rq_pool ?r2) (iz_zone_name (the z)) kt =
      (rc3, pl3, paths)" by (metis prod_cases3)
  note col1 = col [simplified]
  let ?r3 = "?r2\<lparr>rq_pool := pl3\<rparr>"
  have same: "same_world r ?r3" using kc(1) by simp
  have shm: "rq_shm ?r2 = rq_shm r" using kc(1) by (simp add: same_world_def)
  have keys: "hc_keys c \<noteq> []" using key by auto
  have nul: "c_nul \<notin> set zn" using zone(2) by (simp add: good_zone_def zn_def)
  have sok: "store_ok N (rq_shm r)" using ok(3) by (simp add: world_ok_def)
  have ready: "rc1 = NGX_OK \<and> rc2 = NGX_OK \<and> pl2 = []" if "reader_open E r" "rq_pool r = []"
    using key_index_ready_open [OF that(1) zone(1)] k t that(2) keys by (auto simp: cache_key_text_def)
  have col': "rc1 = NGX_OK \<Longrightarrow> rc2 = NGX_OK \<Longrightarrow> (rc3 = NGX_OK \<or> rc3 = NGX_ERROR) \<and> distinct paths \<and> set paths \<subseteq> P \<and>
      (rc3 = NGX_OK \<longrightarrow> set paths = P) \<and> (pl2 = [] \<longrightarrow> rc3 = NGX_OK)"
  proof -
    assume go: "rc1 = NGX_OK" "rc2 = NGX_OK"
    have "z = Some zone" using kc(2) [OF go(1)] zone(1) by auto
    moreover have "kt = ?key" using t go(2) by (auto simp: cache_key_text_def split: if_splits prod.splits bool.splits)
    ultimately have "collect_paths_by_exact_key N (rq_shm r) pl2 zn ?key = (rc3, pl3, paths)"
      using col by (simp add: zn_def shm [simplified])
    from collect_paths_by_exact_key_spec [OF ok(1) sok nul key this] show ?thesis
      by (auto simp: P_def key_paths_def indexed_def)
  qed
  consider (skip) "rc = NGX_OK" "same_world r r'" "n = 1" "\<not> used" "reader_open E r \<Longrightarrow> rq_pool r = [] \<Longrightarrow> P = {}"
    | (loop) "soft_fanout_loop N H paths False 1 ?r3 = (rc, used, n, r')" "set paths = P" "distinct paths"
  proof (cases "rc1 = NGX_OK \<and> rc2 = NGX_OK \<and> rc3 = NGX_OK \<and> paths \<noteq> []")
    case True
    then show ?thesis using loop f col' by (simp add: soft_fanout_def k t col1 Let_def)
  next
    case False
    then have "rc = NGX_OK \<and> same_world r r' \<and> n = 1 \<and> \<not> used"
      using f kc(1) by (auto simp: soft_fanout_def k t col1 Let_def split: if_splits)
    moreover have "P = {}" if "reader_open E r" "rq_pool r = []" using ready [OF that] col' False by auto
    ultimately show ?thesis using skip by blast
  qed
  then have "world_ok N r' \<and> world_frame zn P r r' \<and> (rc = NGX_OK \<or> rc = NGX_ERROR) \<and> rq_shm r' = rq_shm r \<and>
    (rc = NGX_OK \<and> reader_open E r \<and> rq_pool r = [] \<longrightarrow> (\<forall>p \<in> P. path_purged H True (dk_os (rq_disk r')) p) \<and>
      n = 1 + card {p \<in> P. file_there r p} \<and> used = (\<exists>p \<in> P. file_there r p)) \<and>
    (\<forall>q. path_purged H True (dk_os (rq_disk r)) q \<longrightarrow> path_purged H True (dk_os (rq_disk r')) q)"
  proof cases
    case skip
    have "world_ok N r'" by (rule world_ok_same [OF skip(2) ok(3)])
    moreover have "world_frame zn P r r'" by (rule world_frame_same [OF skip(2)])
    ultimately show ?thesis using skip by (auto simp: same_world_def)
  next
    case loop
    have w3: "world_ok N ?r3" by (rule world_ok_same [OF same ok(3)])
    have lp: "indexed_loop N H E (Some zone) True True paths False 1 ?r3 = (rc, used, n, r')"
      using loop(1) soft_fanout_loop_indexed by simp
    note l = indexed_loop_spec [OF ok(1,2) zone(2) w3 lp, folded zn_def]
    have keep: "\<forall>q. path_done H zn True False ?r3 q \<longrightarrow> path_done H zn True False r' q"
      using il.path_loop_spec [of N H zone ?r3 E True paths False 1 rc used n r'] ok zone(2) w3 lp
      by (simp add: indexed_loop_eq zn_def)
    have shm': "rq_shm r' = rq_shm r" using soft_fanout_loop_shm [OF loop(1)] shm by simp
    have wf: "world_frame zn P r r'"
      using frame_before [OF cache_frame_same [OF same]] l loop(2) by (simp add: purge_frame_def)
    have th: "file_there ?r3 = file_there r" using same by (simp add: file_there_def same_world_def fun_eq_iff)
    have "length (filter (file_there r) paths) = card {p \<in> P. file_there r p}"
      using distinct_card [of "filter (file_there r) paths"] loop(2,3) by simp
    moreover have "dk_os (rq_disk ?r3) = dk_os (rq_disk r)" using same by (simp add: same_world_def)
    ultimately show ?thesis using l loop shm' wf keep th
      by (auto simp: path_done_def)
  qed
  then show "world_ok N r'" "world_frame zn P r r'" "rc = NGX_OK \<or> rc = NGX_ERROR" "rq_shm r' = rq_shm r"
    "rc = NGX_OK \<Longrightarrow> reader_open E r \<Longrightarrow> rq_pool r = [] \<Longrightarrow>
      (\<forall>p \<in> P. path_purged H True (dk_os (rq_disk r')) p) \<and>
      n = 1 + card {p \<in> P. file_there r p} \<and> used = (\<exists>p \<in> P. file_there r p)"
    "path_purged H True (dk_os (rq_disk r)) q \<Longrightarrow> path_purged H True (dk_os (rq_disk r')) q"
    by blast+
qed

lemma exact_purge_soft_spec:
  assumes ok: "ngx_core_ok N" "http_core_ok H" "world_ok N r" "open_law E" and key: "request_key r \<noteq> []"
    and zone: "runtime_lookup_zone (rq_watch r) (hc_file_cache (the (rq_cache r))) = Some zone" "good_zone zone"
    and p: "exact_purge_soft N H E r = (rc, r')"
  defines "zn \<equiv> iz_zone_name zone" and "name \<equiv> opened_name E r"
  defines "P \<equiv> insert name (key_paths r zn (request_key r))"
  shows "world_ok N r'" and "world_frame zn P r r'" and "rq_shm r' = rq_shm r"
    and "rc = NGX_DECLINED \<or> rc = NGX_AGAIN \<Longrightarrow> cache_frame r r'"
    and "rc = NGX_OK \<Longrightarrow> path_purged H True (dk_os (rq_disk r')) name"
    and "rc = NGX_OK \<Longrightarrow> reader_open E r \<Longrightarrow> rq_pool r = [] \<Longrightarrow>
      \<forall>p \<in> P. path_purged H True (dk_os (rq_disk r')) p"
proof -
  obtain st r1 where o: "open_cache E r = (st, r1)" by fastforce
  note op = open_cache_frame [OF ok(4,3) o]
  let ?c = "the (rq_cache r1)" and ?a = "the (hc_node (the (rq_cache r1)))"
  have name: "name = hc_file_name ?c" by (simp add: name_def opened_name_def o)
  obtain rc2 o2 where sh: "soft_header H (dk_os (rq_disk r1)) (hc_file_name ?c) = (rc2, o2)" by fastforce
  note sc = soft_header_cases [OF ok(2) sh]
  let ?r3 = "r1\<lparr>rq_cache := Some (?c\<lparr>hc_valid_sec := 0\<rparr>), rq_disk := (rq_disk r1)\<lparr>dk_os := o2, dk_cache :=
               upd_node (\<lambda>n. n\<lparr>cn_valid_sec := 0\<rparr>) ?a (dk_cache (rq_disk r1))\<rparr>\<rparr>"
  obtain rc4 used n r4 where h: "soft_fanout N H E (hc_file_cache ?c) (?c\<lparr>hc_valid_sec := 0\<rparr>) ?r3 = (rc4, used, n, r4)"
    by (metis prod_cases4)
  let ?r5 = "if rc4 \<noteq> NGX_OK then r4
     else record_purge E STATS_EXACT True (of_nat n) (record_fanout E used (record_purge_request E STATS_EXACT True r4))"
  have nop: "world_ok N r' \<and> world_frame zn P r r' \<and> cache_frame r r'" if "same_world r1 r'"
    using world_ok_same [OF that op(1)] cache_frame_trans [OF op(2) cache_frame_same [OF that]] cache_frame_world by blast
  let ?torn = "r1\<lparr>rq_disk := (rq_disk r1)\<lparr>dk_os := o2\<rparr>\<rparr>"
  consider (stop) "rc \<noteq> NGX_OK" "same_world r1 r'"
    | (torn) "rc = NGX_ERROR" "rc2 \<noteq> NGX_OK" "r' = ?torn"
    | (go) "rc2 = NGX_OK" "rc = (if rc4 \<noteq> NGX_OK then NGX_ERROR else NGX_OK)" "r' = release ?r5"
  proof (cases "st = Open_declined \<or> st = Open_again \<or> st = Open_other \<or>
      \<not> cn_exists (the (fc_nodes (dk_cache (rq_disk r1)) ?a)) \<or> rc2 \<noteq> NGX_OK")
    case True
    have same: "same_world r1 (?torn)" if "rc2 = NGX_DECLINED"
    proof -
      have "o2 = dk_os (rq_disk r1)" using sc(3) [OF that] by blast
      then show ?thesis by (simp add: same_world_def)
    qed
    consider (early) "st = Open_declined \<or> st = Open_again \<or> st = Open_other \<or>
        \<not> cn_exists (the (fc_nodes (dk_cache (rq_disk r1)) ?a))"
      | (declined) "\<not> (st = Open_declined \<or> st = Open_again \<or> st = Open_other)"
        "cn_exists (the (fc_nodes (dk_cache (rq_disk r1)) ?a))" "rc2 = NGX_DECLINED"
      | (failed) "\<not> (st = Open_declined \<or> st = Open_again \<or> st = Open_other)"
        "cn_exists (the (fc_nodes (dk_cache (rq_disk r1)) ?a))" "rc2 = NGX_ERROR"
      using True sc(4) by blast
    then show thesis
    proof cases
      case early
      then have "rc \<noteq> NGX_OK" "same_world r1 r'" using p by (auto simp: exact_purge_soft_def o Let_def split: if_splits)
      then show thesis by (rule stop)
    next
      case declined
      then have "rc \<noteq> NGX_OK" "same_world ?torn r'" using p by (auto simp: exact_purge_soft_def o sh Let_def)
      then show thesis using stop same [OF declined(3)] same_world_trans by blast
    next
      case failed
      then have "rc = NGX_ERROR" "r' = ?torn" using p by (auto simp: exact_purge_soft_def o sh Let_def)
      then show thesis using torn failed(3) by simp
    qed
  next
    case False
    then show thesis using p h go by (simp add: exact_purge_soft_def o sh Let_def split: if_splits)
  qed
  then have all: "world_ok N r' \<and> world_frame zn P r r' \<and> rq_shm r' = rq_shm r \<and>
    (rc = NGX_DECLINED \<or> rc = NGX_AGAIN \<longrightarrow> cache_frame r r') \<and>
    (rc = NGX_OK \<longrightarrow> path_purged H True (dk_os (rq_disk r')) name) \<and>
    (rc = NGX_OK \<and> reader_open E r \<and> rq_pool r = [] \<longrightarrow> (\<forall>p \<in> P. path_purged H True (dk_os (rq_disk r')) p))"
  proof cases
    case stop
    then show ?thesis using nop op(2) by (auto simp: cache_frame_def same_world_def)
  next
    case torn
    then have "world_ok N r'" "world_frame zn {name} r1 r'"
      using sc(2) op(1) name by (auto simp: world_ok_def world_frame_def indexed_def file_there_def split: if_splits)
    moreover from frame_before [OF op(2) this(2)] have "world_frame zn P r r'" by (rule world_frame_mono) (simp add: P_def)
    ultimately show ?thesis using op(2) torn by (auto simp: cache_frame_def)
  next
    case go
    obtain f g where fg: "os_files (dk_os (rq_disk r1)) name = Some f"
        "o2 = (dk_os (rq_disk r1))\<lparr>os_files := (os_files (dk_os (rq_disk r1)))(name \<mapsto> g)\<rparr>" "file_expired H g"
      using sc(1) [OF go(1)] name by blast
    have c1: "cache_ok (dk_cache (rq_disk r1))" using op(1) by (simp add: world_ok_def)
    note un = upd_node_keeps [OF c1, of "\<lambda>n. n\<lparr>cn_valid_sec := 0\<rparr>" ?a, simplified]
    have w3: "world_ok N ?r3" using op(1) un by (simp add: world_ok_def)
    have f13: "world_frame zn {name} r1 ?r3" using un fg by (auto simp: world_frame_def indexed_def file_there_def)
    have f3: "world_frame zn {name} r ?r3" by (rule frame_before [OF op(2) f13])
    have shm3: "rq_shm ?r3 = rq_shm r" "rq_watch ?r3 = rq_watch r" using op(2) by (simp_all add: cache_frame_def)
    have st3: "rq_store ?r3 = rq_store r" "rq_pool ?r3 = rq_pool r"
      using o by (auto simp: open_cache_def split: prod.splits)
    have k: "concat (hc_keys (?c\<lparr>hc_valid_sec := 0\<rparr>)) = request_key r" using op(3) by (simp add: request_key_def)
    have key': "concat (hc_keys (?c\<lparr>hc_valid_sec := 0\<rparr>)) \<noteq> []" using key k by simp
    have z: "runtime_lookup_zone (rq_watch ?r3) (hc_file_cache ?c) = Some zone" using zone(1) op(4) shm3(2) by simp
    have kp: "key_paths ?r3 zn (request_key r) = key_paths r zn (request_key r)"
      using shm3(1) by (simp add: key_paths_def indexed_def)
    note h = soft_fanout_spec [OF ok(1,2) w3 key' z zone(2) h, folded zn_def, unfolded k kp]
    have s4: "same_world r4 ?r5" by simp
    have w4: "world_ok N ?r5" by (rule world_ok_same [OF s4 h(1)])
    note rel = release_frame [OF w4]
    have f4: "cache_frame r4 r'" using cache_frame_trans [OF cache_frame_same [OF s4] rel(2)] go(3) by simp
    have "world_frame zn P r r'"
      using frame_after [OF world_frame_trans [OF f3 h(2)] f4] by (simp add: P_def insert_absorb)
    moreover have "path_purged H True (dk_os (rq_disk r4)) name"
      by (rule h(6)) (simp add: path_purged_def fg)
    moreover have "dk_os (rq_disk r') = dk_os (rq_disk r4)" "rq_shm r' = rq_shm r4" using f4 by (simp_all add: cache_frame_def)
    moreover have "reader_open E ?r3 = reader_open E r" using st3 by (simp add: reader_open_def)
    ultimately show ?thesis using rel(1) go h(4,5) shm3(1) st3(2) by (auto simp: P_def split: if_splits)
  qed
  then show "world_ok N r'" "world_frame zn P r r'" "rq_shm r' = rq_shm r"
    "rc = NGX_DECLINED \<or> rc = NGX_AGAIN \<Longrightarrow> cache_frame r r'"
    "rc = NGX_OK \<Longrightarrow> path_purged H True (dk_os (rq_disk r')) name"
    "rc = NGX_OK \<Longrightarrow> reader_open E r \<Longrightarrow> rq_pool r = [] \<Longrightarrow>
      \<forall>p \<in> P. path_purged H True (dk_os (rq_disk r')) p"
    by blast+
qed

lemma index_purge_spec:
  assumes ok: "ngx_core_ok N" "http_core_ok H" "world_ok N r"
    and zone: "runtime_lookup_zone (rq_watch r) cache = Some zone" "good_zone zone"
    and p: "index_purge N H E cache tags r = (rc, r')"
  shows "world_ok N r' \<and> world_frame (iz_zone_name zone) (tag_paths r (iz_zone_name zone) tags) r r' \<and>
     (rc = NGX_OK \<or> rc = NGX_DECLINED \<and> declined_with r' = NOT_FOUND \<longrightarrow>
        boot_done (rq_shm r) (iz_zone_name zone) \<and>
        (\<forall>p \<in> tag_paths r (iz_zone_name zone) tags.
           path_purged H (request_mode N E (pc_soft (purge_conf E))) (dk_os (rq_disk r')) p \<and>
           (\<not> file_there r' p \<longrightarrow> indexed r' (iz_zone_name zone) p = None)) \<and>
        (rc = NGX_OK \<longleftrightarrow> (\<exists>p \<in> tag_paths r (iz_zone_name zone) tags. file_there r p)))"
  using index_purge_cases [OF ok zone p]
proof
  assume a: "same_world r r' \<and> rc \<noteq> NGX_OK \<and> (rc = NGX_DECLINED \<longrightarrow> declined_with r' \<noteq> NOT_FOUND)"
  then show ?thesis using world_ok_same [OF _ ok(3)] world_frame_same by blast
next
  let ?soft = "request_mode N E (pc_soft (purge_conf E))" and ?zn = "iz_zone_name zone"
  assume "\<exists>paths rc2 n r1 r2. same_world r r1 \<and> same_world r2 r' \<and> distinct paths \<and>
       set paths = tag_paths r (iz_zone_name zone) tags \<and> boot_done (rq_shm r) (iz_zone_name zone) \<and>
       tag_loop N H E zone (request_mode N E (pc_soft (purge_conf E))) paths 0 r1 = (rc2, n, r2) \<and>
       rc = (if rc2 \<noteq> NGX_OK then NGX_ERROR else if n = 0 then NGX_DECLINED else NGX_OK) \<and>
       r' = (if rc2 \<noteq> NGX_OK then r2 else if n = 0 then set_decline_reason NOT_FOUND r2
             else set_response_path REUSED_PERSISTED_INDEX (record_response_purge E STATS_TAG
                    (request_mode N E (pc_soft (purge_conf E))) (of_nat n) r2))"
  then obtain paths rc2 n r1 r2 where c: "same_world r r1" "same_world r2 r'" "distinct paths"
      "set paths = tag_paths r ?zn tags" "boot_done (rq_shm r) ?zn"
      "tag_loop N H E zone ?soft paths 0 r1 = (rc2, n, r2)"
      "rc = (if rc2 \<noteq> NGX_OK then NGX_ERROR else if n = 0 then NGX_DECLINED else NGX_OK)" by blast
  have w1: "world_ok N r1" by (rule world_ok_same [OF c(1) ok(3)])
  note l = tag_loop_spec [OF ok(1,2) zone(2) w1 c(6)]
  have f: "world_frame ?zn (set paths) r r'"
    using frame_after [OF frame_before [OF cache_frame_same [OF c(1)]] cache_frame_same [OF c(2)]] l by (simp add: purge_frame_def)
  have w: "world_ok N r'" using world_ok_same [OF c(2)] l by blast
  have th: "file_there r1 = file_there r" using c(1) by (simp add: file_there_def same_world_def fun_eq_iff)
  have fin: "dk_os (rq_disk r') = dk_os (rq_disk r2)" "rq_shm r' = rq_shm r2" "file_there r' = file_there r2"
    using c(2) by (simp_all add: same_world_def file_there_def fun_eq_iff)
  have cnt: "rc2 = NGX_OK \<Longrightarrow> n = 0 \<longleftrightarrow> \<not> (\<exists>p \<in> set paths. file_there r p)"
    using l c(3) th by (auto simp: filter_empty_conv)
  show ?thesis using l w f c(4,5,7) cnt fin by (auto simp: path_done_def indexed_def split: if_splits)
qed

end
