(* ===== verification/Walk_Spec.thy ===== *)
theory Walk_Spec
  imports Purge_Spec
begin

text \<open>
  The purges that walk the directory of a cache, and the purge by key prefix, which walks it when
  the index did not purge anything.
\<close>

section \<open>Directory walks\<close>

text \<open>The four file handlers are one step, with the mode and the key as parameters.\<close>

definition walk_step ::
  "ngx_core \<Rightarrow> http_core \<Rightarrow> bool \<Rightarrow> partial_ctx \<times> disk \<Rightarrow> ngx_str \<Rightarrow> partial_ctx \<times> disk" where
  "walk_step N H soft = (\<lambda>(pc, d) path.
     (if \<not> partial_match N H (dk_os d) (pc_key_partial pc) path then (pc, d)
      else (case by_path N H d path soft of
          (rc, d1) \<Rightarrow> (if rc = NGX_OK then pc\<lparr>pc_purged := pc_purged pc + 1\<rparr> else pc, d1))))"

lemma partial_handlers:
  "delete_partial_file_handler N H = walk_step N H False" "soft_partial_file_handler N H = walk_step N H True"
  by (simp_all add: fun_eq_iff delete_partial_file_handler_def soft_partial_file_handler_def walk_step_def
      by_path_def split: prod.splits)

lemma walk_step_key: "walk_step N H soft (pc, d) p = (pc', d') \<Longrightarrow> pc_key_partial pc' = pc_key_partial pc"
  by (auto simp: walk_step_def split: if_splits prod.splits)

lemma whole_handlers:
  assumes "pc_key_partial pc = []"
  shows "foldl (delete_file_handler N H) (pc, d) ps = foldl (walk_step N H False) (pc, d) ps"
    and "foldl (soft_file_handler N H) (pc, d) ps = foldl (walk_step N H True) (pc, d) ps"
proof -
  have eq: "delete_file_handler N H (pc, d) p = walk_step N H False (pc, d) p"
    "soft_file_handler N H (pc, d) p = walk_step N H True (pc, d) p" if "pc_key_partial pc = []" for pc d p
    using that by (simp_all add: delete_file_handler_def soft_file_handler_def walk_step_def by_path_def partial_match_def)
  show "foldl (delete_file_handler N H) (pc, d) ps = foldl (walk_step N H False) (pc, d) ps"
    using assms
  proof (induction ps arbitrary: pc d)
    case (Cons p ps)
    obtain pc1 d1 where s: "walk_step N H False (pc, d) p = (pc1, d1)" by fastforce
    then show ?case using Cons eq walk_step_key [OF s] by simp
  qed simp
  show "foldl (soft_file_handler N H) (pc, d) ps = foldl (walk_step N H True) (pc, d) ps"
    using assms
  proof (induction ps arbitrary: pc d)
    case (Cons p ps)
    obtain pc1 d1 where s: "walk_step N H True (pc, d) p = (pc1, d1)" by fastforce
    then show ?case using Cons eq walk_step_key [OF s] by simp
  qed simp
qed

lemma partial_match_cong:
  assumes "os_files o1 p = os_files o0 p" and "os_fault o1 = os_fault o0"
  shows "partial_match N H o1 key p = partial_match N H o0 key p"
  using assms by (simp add: partial_match_def open_file_def read_file_def split: option.splits)

text \<open>A walk purges the matching files it visits, except those the purge is refused on; \<open>purgeable\<close>
  is decided by the disk the walk starts from.\<close>

definition purgeable :: "ngx_core \<Rightarrow> http_core \<Rightarrow> bool \<Rightarrow> ngx_str \<Rightarrow> os \<Rightarrow> ngx_str \<Rightarrow> bool" where
  "purgeable N H soft key o0 p \<longleftrightarrow> partial_match N H o0 key p \<and> \<not> refused H soft o0 p"

definition walk_effect ::
  "ngx_core \<Rightarrow> http_core \<Rightarrow> bool \<Rightarrow> ngx_str \<Rightarrow> ngx_str set \<Rightarrow> disk \<Rightarrow> disk \<Rightarrow> bool" where
  "walk_effect N H soft key P d d' \<longleftrightarrow>
     cache_slack (dk_cache d') = cache_slack (dk_cache d) \<and> cache_ok (dk_cache d') \<and>
     os_fault (dk_os d') = os_fault (dk_os d) \<and> os_room (dk_os d') = os_room (dk_os d) \<and>
     (\<forall>p. os_files (dk_os d') p \<noteq> None \<longrightarrow> os_files (dk_os d) p \<noteq> None) \<and>
     (\<forall>p. p \<notin> P \<or> \<not> partial_match N H (dk_os d) key p \<longrightarrow> os_files (dk_os d') p = os_files (dk_os d) p) \<and>
     (\<forall>p \<in> P. purgeable N H soft key (dk_os d) p \<longrightarrow> path_purged H soft (dk_os d') p) \<and>
     (\<forall>p \<in> P. \<not> purgeable N H soft key (dk_os d) p \<longrightarrow>
        file_kept H soft (os_files (dk_os d) p) (os_files (dk_os d') p))"

text \<open>What one step does to the file it visits.\<close>

definition step_effect ::
  "ngx_core \<Rightarrow> http_core \<Rightarrow> bool \<Rightarrow> ngx_str \<Rightarrow> ngx_str \<Rightarrow> disk \<Rightarrow> disk \<Rightarrow> bool" where
  "step_effect N H soft key p d d1 \<longleftrightarrow>
     cache_ok (dk_cache d1) \<and> cache_slack (dk_cache d1) = cache_slack (dk_cache d) \<and>
     os_fault (dk_os d1) = os_fault (dk_os d) \<and> os_room (dk_os d1) = os_room (dk_os d) \<and>
     (\<forall>q. q \<noteq> p \<longrightarrow> os_files (dk_os d1) q = os_files (dk_os d) q) \<and>
     (os_files (dk_os d1) p \<noteq> None \<longrightarrow> os_files (dk_os d) p \<noteq> None) \<and>
     (\<not> partial_match N H (dk_os d) key p \<longrightarrow> os_files (dk_os d1) p = os_files (dk_os d) p) \<and>
     (purgeable N H soft key (dk_os d) p \<longrightarrow> path_purged H soft (dk_os d1) p) \<and>
     (\<not> purgeable N H soft key (dk_os d) p \<longrightarrow>
        file_kept H soft (os_files (dk_os d) p) (os_files (dk_os d1) p))"

lemma walk_step_effect:
  assumes H: "http_core_ok H" and c: "cache_ok (dk_cache d)" and s: "walk_step N H soft (pc, d) p = (pc1, d1)"
  shows "step_effect N H soft (pc_key_partial pc) p d d1"
    and "p \<in> dom (os_files (dk_os d)) \<Longrightarrow> pc_purged pc1 = pc_purged pc +
      (if purgeable N H soft (pc_key_partial pc) (dk_os d) p then 1 else 0)"
proof -
  let ?key = "pc_key_partial pc"
  have "step_effect N H soft ?key p d d1 \<and> (p \<in> dom (os_files (dk_os d)) \<longrightarrow>
    pc_purged pc1 = pc_purged pc + (if purgeable N H soft ?key (dk_os d) p then 1 else 0))"
  proof (cases "partial_match N H (dk_os d) ?key p")
    case False
    then show ?thesis using s c by (auto simp: walk_step_def step_effect_def purgeable_def file_kept_def)
  next
    case True
    obtain rc d2 where b: "by_path N H d p soft = (rc, d2)" by fastforce
    have eq: "d1 = d2" "pc1 = (if rc = NGX_OK then pc\<lparr>pc_purged := pc_purged pc + 1\<rparr> else pc)"
      using s True b by (auto simp: walk_step_def)
    note bc = by_path_cases [OF H b] and acc = by_path_accounts [OF H c b]
    note other = by_path_cases(4) [OF H b]
    show ?thesis
    proof (cases "rc = NGX_OK")
      case ok: True
      then have "purgeable N H soft ?key (dk_os d) p" using bc(8) True by (simp add: purgeable_def)
      then show ?thesis using acc bc(1) [OF ok] bc(6,7) other True ok by (auto simp: eq step_effect_def)
    next
      case no: False
      note kept = bc(5) [OF no]
      have "path_purged H soft (dk_os d2) p" if "purgeable N H soft ?key (dk_os d) p"
        using that bc(8) no kept by (auto simp: purgeable_def path_purged_def file_kept_def)
      then show ?thesis using acc kept file_kept_there [OF kept] bc(6-8) other True no
        by (auto simp: eq step_effect_def purgeable_def)
    qed
  qed
  then show "step_effect N H soft ?key p d d1"
    and "p \<in> dom (os_files (dk_os d)) \<Longrightarrow> pc_purged pc1 = pc_purged pc +
      (if purgeable N H soft ?key (dk_os d) p then 1 else 0)" by blast+
qed

text \<open>A step changes nothing for the files visited after it.\<close>

lemma step_effect_match:
  assumes "step_effect N H soft key p d d1" and "q \<noteq> p"
  shows "partial_match N H (dk_os d1) key q = partial_match N H (dk_os d) key q"
    and "purgeable N H soft key (dk_os d1) q = purgeable N H soft key (dk_os d) q"
proof -
  show m: "partial_match N H (dk_os d1) key q = partial_match N H (dk_os d) key q"
    using assms by (intro partial_match_cong) (auto simp: step_effect_def)
  have "refused H soft (dk_os d1) q = refused H soft (dk_os d) q" using assms by (simp add: step_effect_def refused_def)
  then show "purgeable N H soft key (dk_os d1) q = purgeable N H soft key (dk_os d) q" by (simp add: purgeable_def m)
qed

text \<open>A step before a walk that does not visit the file again.\<close>

lemma walk_effect_step:
  assumes one: "step_effect N H soft key p d d1" and we: "walk_effect N H soft key P d1 d'" and p: "p \<notin> P"
  shows "walk_effect N H soft key (insert p P) d d'"
proof -
  have same: "os_files (dk_os d') p = os_files (dk_os d1) p" using we p by (simp add: walk_effect_def)
  have other: "os_files (dk_os d1) q = os_files (dk_os d) q" if "q \<noteq> p" for q using one that by (simp add: step_effect_def)
  note m = step_effect_match [OF one]
  have "os_files (dk_os d') q = os_files (dk_os d) q" if "q \<notin> insert p P \<or> \<not> partial_match N H (dk_os d) key q" for q
  proof (cases "q = p")
    case True
    then show ?thesis using that one same by (auto simp: step_effect_def)
  next
    case False
    then have "q \<notin> P \<or> \<not> partial_match N H (dk_os d1) key q" using that m by auto
    then have "os_files (dk_os d') q = os_files (dk_os d1) q" using we unfolding walk_effect_def by blast
    then show ?thesis using other [OF False] by simp
  qed
  moreover have "(purgeable N H soft key (dk_os d) q \<longrightarrow> path_purged H soft (dk_os d') q) \<and>
      (\<not> purgeable N H soft key (dk_os d) q \<longrightarrow> file_kept H soft (os_files (dk_os d) q) (os_files (dk_os d') q))"
    if "q \<in> insert p P" for q
  proof (cases "q = p")
    case True
    then show ?thesis using one same by (cases soft) (simp_all add: path_purged_def step_effect_def)
  next
    case False
    then have "q \<in> P" using that by simp
    then have "(purgeable N H soft key (dk_os d1) q \<longrightarrow> path_purged H soft (dk_os d') q) \<and>
      (\<not> purgeable N H soft key (dk_os d1) q \<longrightarrow> file_kept H soft (os_files (dk_os d1) q) (os_files (dk_os d') q))"
      using we unfolding walk_effect_def by blast
    then show ?thesis using other [OF False] m(2) [OF False] by simp
  qed
  moreover have "os_files (dk_os d) q \<noteq> None" if "os_files (dk_os d') q \<noteq> None" for q
  proof -
    have "os_files (dk_os d1) q \<noteq> None" using we that unfolding walk_effect_def by blast
    then show ?thesis using one other by (cases "q = p") (auto simp: step_effect_def)
  qed
  moreover have "cache_slack (dk_cache d') = cache_slack (dk_cache d)" "cache_ok (dk_cache d')"
    "os_fault (dk_os d') = os_fault (dk_os d)" "os_room (dk_os d') = os_room (dk_os d)"
    using we one by (simp_all add: walk_effect_def step_effect_def)
  ultimately show ?thesis unfolding walk_effect_def by blast
qed

lemma walk_spec:
  assumes H: "http_core_ok H" and "cache_ok (dk_cache d)" and "distinct ps" and "set ps \<subseteq> dom (os_files (dk_os d))"
    and "foldl (walk_step N H soft) (pc, d) ps = (pc', d')"
  shows "walk_effect N H soft (pc_key_partial pc) (set ps) d d' \<and>
    pc_purged pc' = pc_purged pc + card {p \<in> set ps. purgeable N H soft (pc_key_partial pc) (dk_os d) p}"
  using assms(2-5)
proof (induction ps arbitrary: pc d)
  case Nil
  then show ?case by (simp add: walk_effect_def)
next
  case (Cons p ps)
  let ?key = "pc_key_partial pc"
  obtain pc1 d1 where s: "walk_step N H soft (pc, d) p = (pc1, d1)" by fastforce
  note one = walk_step_effect(1) [OF H Cons.prems(1) s]
  note cnt = walk_step_effect(2) [OF H Cons.prems(1) s]
  have c1: "cache_ok (dk_cache d1)" using one by (simp add: step_effect_def)
  have ps: "distinct ps" "p \<notin> set ps" using Cons.prems(2) by auto
  have sub: "set ps \<subseteq> dom (os_files (dk_os d1))"
  proof
    fix q assume "q \<in> set ps"
    then have q: "q \<noteq> p" "q \<in> dom (os_files (dk_os d))" using ps(2) Cons.prems(3) by auto
    have "\<forall>q. q \<noteq> p \<longrightarrow> os_files (dk_os d1) q = os_files (dk_os d) q" using one unfolding step_effect_def by blast
    then have "os_files (dk_os d1) q = os_files (dk_os d) q" using q(1) by blast
    then show "q \<in> dom (os_files (dk_os d1))" using q(2) by (simp add: domIff)
  qed
  have f: "foldl (walk_step N H soft) (pc1, d1) ps = (pc', d')" using Cons.prems(4) s by simp
  note ih = Cons.IH [OF c1 ps(1) sub f, unfolded walk_step_key [OF s]]
  have eq: "{q \<in> set ps. purgeable N H soft ?key (dk_os d1) q} = {q \<in> set ps. purgeable N H soft ?key (dk_os d) q}"
    using ps(2) step_effect_match(2) [OF one] by (intro Collect_cong) metis
  have "{q \<in> set (p # ps). purgeable N H soft ?key (dk_os d) q} =
      (if purgeable N H soft ?key (dk_os d) p then insert p {q \<in> set ps. purgeable N H soft ?key (dk_os d) q}
       else {q \<in> set ps. purgeable N H soft ?key (dk_os d) q})" by auto
  then have "card {q \<in> set (p # ps). purgeable N H soft ?key (dk_os d) q} =
      card {q \<in> set ps. purgeable N H soft ?key (dk_os d) q} + (if purgeable N H soft ?key (dk_os d) p then 1 else 0)"
    using ps(2) by simp
  moreover have "p \<in> dom (os_files (dk_os d))" using Cons.prems(3) by simp
  ultimately have "pc_purged pc' = pc_purged pc + card {q \<in> set (p # ps). purgeable N H soft ?key (dk_os d) q}"
    using conjunct2 [OF ih, unfolded eq] cnt by linarith
  then show ?case using walk_effect_step [OF one conjunct1 [OF ih] ps(2)] by (simp only: list.set(2) simp_thms)
qed

section \<open>Purge by key prefix\<close>

definition prefix_paths :: "req \<Rightarrow> ngx_str \<Rightarrow> ngx_str \<Rightarrow> ngx_str set" where
  "prefix_paths r zn prefix = paths_by_prefix (indexed r zn) prefix"

text \<open>A loop that purged nothing left the disk alone.\<close>

lemma indexed_loop_idle:
  assumes "http_core_ok H" and "indexed_loop N H E zone reader soft ps used count r = (NGX_OK, False, count', r')"
  shows "rq_disk r' = rq_disk r"
  using assms(2)
proof (induction ps arbitrary: used count r)
  case (Cons p ps)
  obtain rc d where b: "by_path N H (rq_disk r) p soft = (rc, d)" by fastforce
  have d: "rc = NGX_DECLINED \<Longrightarrow> d = rq_disk r" using by_path_cases(2) [OF assms(1) b] by blast
  have used: "indexed_loop N H E zone reader soft ps True n q \<noteq> (NGX_OK, False, m, q')" for n m q q' ps
    by (induction ps arbitrary: n q) (auto split: prod.splits)
  have disk: "rq_disk (delete_index_path N E zone reader p q) = rq_disk q" for q
    by (simp add: delete_index_path_def drop_from_index_def split: option.splits prod.splits)
  show ?case
  proof (cases "rc = NGX_DECLINED")
    case True
    then show ?thesis using Cons b d disk
      by (auto simp: by_indexed_path_def with_disk_def split: if_splits prod.splits)
  next
    case False
    then show ?thesis using Cons.prems b used by (auto simp: by_indexed_path_def with_disk_def split: if_splits)
  qed
qed simp

lemma partial_index_spec:
  assumes ok: "ngx_core_ok N" "http_core_ok H" "world_ok N r" and nul: "c_nul \<notin> set prefix"
    and zone: "runtime_lookup_zone (rq_watch r) cache = Some zone" "good_zone zone"
    and f: "partial_index N H E cache soft prefix r = (rc, used, n, r')"
  defines "zn \<equiv> iz_zone_name zone"
  defines "P \<equiv> prefix_paths r zn prefix"
  shows "world_ok N r'" and "world_frame zn P r r'" and "rc = NGX_OK \<or> rc = NGX_ERROR"
    and "rc = NGX_OK \<Longrightarrow> used \<Longrightarrow> (\<forall>p \<in> P. path_done H zn soft (\<not> soft) r' p) \<and>
      n = card {p \<in> P. file_there r p} \<and> (\<exists>p \<in> P. file_there r p)"
    and "rc = NGX_OK \<Longrightarrow> \<not> used \<Longrightarrow> rq_disk r' = rq_disk r"
    and "rc = NGX_OK \<Longrightarrow> reader_open E r \<Longrightarrow> rq_pool r = [] \<Longrightarrow> used = (\<exists>p \<in> P. file_there r p)"
proof -
  obtain rc1 z reader r1 where k: "key_index_ready E cache r = (rc1, z, reader, r1)" by (metis prod_cases4)
  note kc = key_index_ready_cases [OF k]
  obtain rc2 pl2 paths where col: "collect_paths_by_key_prefix N (rq_shm r1) (rq_pool r1) (iz_zone_name (the z)) prefix =
      (rc2, pl2, paths)" by (metis prod_cases3)
  let ?r2 = "r1\<lparr>rq_pool := pl2\<rparr>"
  have same: "same_world r ?r2" using kc(1) by simp
  have zn: "c_nul \<notin> set zn" using zone(2) by (simp add: good_zone_def zn_def)
  have sok: "store_ok N (rq_shm r)" using ok(3) by (simp add: world_ok_def)
  have col': "(rc2 = NGX_OK \<or> rc2 = NGX_ERROR) \<and> distinct paths \<and> set paths \<subseteq> P \<and>
      (rc2 = NGX_OK \<longrightarrow> set paths = P) \<and> (rq_pool r = [] \<longrightarrow> rc2 = NGX_OK)" if go: "rc1 = NGX_OK"
  proof -
    have "z = Some zone" using kc(2) [OF go] zone(1) by auto
    then have "collect_paths_by_key_prefix N (rq_shm r) (rq_pool r) zn prefix = (rc2, pl2, paths)"
      using col kc(4) [OF go] kc(1) by (simp add: zn_def same_world_def)
    from collect_paths_by_key_prefix_spec [OF sok zn nul this] show ?thesis
      by (auto simp: P_def prefix_paths_def indexed_def)
  qed
  consider (skip) "rc = NGX_OK" "same_world r r'" "\<not> used" "reader_open E r \<Longrightarrow> rq_pool r = [] \<Longrightarrow> P = {}"
    | (loop) "indexed_loop N H E (Some zone) True soft paths False 0 ?r2 = (rc, used, n, r')" "set paths = P" "distinct paths"
  proof (cases "rc1 = NGX_OK \<and> rc2 = NGX_OK \<and> paths \<noteq> []")
    case True
    then have "partial_index N H E cache soft prefix r = indexed_loop N H E z reader soft paths False 0 ?r2"
      by (simp add: partial_index_def k col Let_def)
    moreover have "z = Some zone" "reader" using kc(2) True zone(1) by auto
    ultimately show ?thesis using loop f col' True by simp
  next
    case False
    then have "rc = NGX_OK \<and> same_world r r' \<and> \<not> used"
      using f kc(1) by (auto simp: partial_index_def k col Let_def split: if_splits)
    moreover have "P = {}" if "reader_open E r" "rq_pool r = []"
      using key_index_ready_open [OF that(1) zone(1)] k col' that(2) False by auto
    ultimately show ?thesis using skip by blast
  qed
  then have "world_ok N r' \<and> world_frame zn P r r' \<and> (rc = NGX_OK \<or> rc = NGX_ERROR) \<and>
    (rc = NGX_OK \<and> used \<longrightarrow> (\<forall>p \<in> P. path_done H zn soft (\<not> soft) r' p) \<and>
      n = card {p \<in> P. file_there r p} \<and> (\<exists>p \<in> P. file_there r p)) \<and>
    (rc = NGX_OK \<and> \<not> used \<longrightarrow> rq_disk r' = rq_disk r) \<and>
    (rc = NGX_OK \<and> reader_open E r \<and> rq_pool r = [] \<longrightarrow> used = (\<exists>p \<in> P. file_there r p))"
  proof cases
    case skip
    have "world_ok N r'" "world_frame zn P r r'" using world_ok_same [OF skip(2) ok(3)] world_frame_same [OF skip(2)] .
    then show ?thesis using skip by (auto simp: same_world_def)
  next
    case loop
    have w2: "world_ok N ?r2" by (rule world_ok_same [OF same ok(3)])
    note l = indexed_loop_spec [OF ok(1,2) zone(2) w2 loop(1), folded zn_def]
    have wf: "world_frame zn P r r'"
      using frame_before [OF cache_frame_same [OF same]] l loop(2) by (simp add: purge_frame_def)
    have th: "file_there ?r2 = file_there r" using same by (simp add: file_there_def same_world_def fun_eq_iff)
    have cnt: "length (filter (file_there r) paths) = card {p \<in> P. file_there r p}"
      using distinct_card [of "filter (file_there r) paths"] loop(2,3) by simp
    have idle: "rq_disk r' = rq_disk ?r2" if "rc = NGX_OK" "\<not> used"
      by (rule indexed_loop_idle [OF ok(2)]) (use loop(1) that in simp)
    show ?thesis using l loop wf th cnt idle same by (auto simp: same_world_def)
  qed
  then show "world_ok N r'" "world_frame zn P r r'" "rc = NGX_OK \<or> rc = NGX_ERROR"
    "rc = NGX_OK \<Longrightarrow> used \<Longrightarrow> (\<forall>p \<in> P. path_done H zn soft (\<not> soft) r' p) \<and>
      n = card {p \<in> P. file_there r p} \<and> (\<exists>p \<in> P. file_there r p)"
    "rc = NGX_OK \<Longrightarrow> \<not> used \<Longrightarrow> rq_disk r' = rq_disk r"
    "rc = NGX_OK \<Longrightarrow> reader_open E r \<Longrightarrow> rq_pool r = [] \<Longrightarrow> used = (\<exists>p \<in> P. file_there r p)"
    by blast+
qed

lemma foldl_world:
  assumes "http_core_ok H" and "foldl (walk_step N H soft) (pc, d) ps = (pc', d')" and "cache_ok (dk_cache d)"
  shows "cache_ok (dk_cache d') \<and> cache_slack (dk_cache d') = cache_slack (dk_cache d) \<and>
    (\<forall>p. os_files (dk_os d') p \<noteq> None \<longrightarrow> os_files (dk_os d) p \<noteq> None) \<and>
    (\<forall>p. p \<notin> set ps \<longrightarrow> os_files (dk_os d') p = os_files (dk_os d) p)"
  using assms(2,3)
proof (induction ps arbitrary: pc d)
  case (Cons p ps)
  obtain pc1 d1 where s: "walk_step N H soft (pc, d) p = (pc1, d1)" by fastforce
  have one: "cache_ok (dk_cache d1) \<and> cache_slack (dk_cache d1) = cache_slack (dk_cache d) \<and>
      (\<forall>q. q \<noteq> p \<longrightarrow> os_files (dk_os d1) q = os_files (dk_os d) q) \<and>
      (os_files (dk_os d1) p \<noteq> None \<longrightarrow> os_files (dk_os d) p \<noteq> None)"
    using walk_step_effect(1) [OF assms(1) Cons.prems(2) s] by (simp add: step_effect_def)
  moreover have "foldl (walk_step N H soft) (pc1, d1) ps = (pc', d')" using Cons.prems(1) s by simp
  ultimately show ?case using Cons.IH [of pc1 d1] by (metis list.set_intros(1,2))
qed simp

text \<open>A walk that succeeds has purged what it could of the matching files among those it visited, all
  below its root; \<open>n\<close> is the number of files removed, or expired, by it.\<close>

definition walk_result ::
  "ngx_core \<Rightarrow> http_core \<Rightarrow> bool \<Rightarrow> ngx_str \<Rightarrow> ngx_str \<Rightarrow> disk \<Rightarrow> disk \<Rightarrow> nat \<Rightarrow> bool" where
  "walk_result N H soft key root d d' n \<longleftrightarrow>
     (\<exists>ps. walk_tree H (dk_os d) root = (ps, True) \<and> (\<forall>p \<in> set ps. below root p \<and> p \<in> dom (os_files (dk_os d))) \<and>
        walk_effect N H soft key (set ps) d d' \<and> n = card {p \<in> set ps. purgeable N H soft key (dk_os d) p})"

lemma partial_walk_eq:
  "partial_walk N H root soft pc d = (case walk_tree H (dk_os d) root of (paths, ok) \<Rightarrow>
     (case foldl (walk_step N H soft) (pc, d) paths of (pc1, d1) \<Rightarrow> (ok, pc1, d1)))"
  by (simp add: partial_walk_def partial_handlers split: prod.splits)

lemma purge_all_eq:
  "purge_all N H E r = (case partial_walk N H (fc_path (dk_cache (rq_disk r))) (pc_soft (purge_conf E))
       \<lparr>pc_key_partial = [], pc_purged = 0\<rparr> (rq_disk r) of
     (ok, pc, d1) \<Rightarrow> if \<not> ok then (NGX_ERROR, r\<lparr>rq_disk := d1\<rparr>)
       else (NGX_OK, record_purge_request E STATS_ALL (pc_soft (purge_conf E))
         (record_purge E STATS_ALL (pc_soft (purge_conf E)) (of_nat (pc_purged pc)) (r\<lparr>rq_disk := d1\<rparr>))))"
  by (simp add: purge_all_def partial_walk_eq Let_def whole_handlers split: prod.splits)

lemma partial_walk_world:
  assumes "http_core_ok H" and "cache_ok (dk_cache d)" and "partial_walk N H root soft pc d = (ok, pc', d')"
  shows "cache_ok (dk_cache d') \<and> cache_slack (dk_cache d') = cache_slack (dk_cache d) \<and>
    (\<forall>p. os_files (dk_os d') p \<noteq> None \<longrightarrow> os_files (dk_os d) p \<noteq> None)"
proof -
  obtain ps b where w: "walk_tree H (dk_os d) root = (ps, b)" by fastforce
  then have "foldl (walk_step N H soft) (pc, d) ps = (pc', d')"
    using assms(3) by (auto simp: partial_walk_eq split: prod.splits)
  from foldl_world [OF assms(1) this assms(2)] show ?thesis by blast
qed

lemma partial_walk_spec:
  assumes H: "http_core_ok H" and ok: "cache_ok (dk_cache d)"
    and w: "partial_walk N H root soft \<lparr>pc_key_partial = key, pc_purged = 0\<rparr> d = (True, pc', d')"
  shows "walk_result N H soft key root d d' (pc_purged pc')"
proof -
  obtain ps b where t: "walk_tree H (dk_os d) root = (ps, b)" by fastforce
  with w have b: "b" and f: "foldl (walk_step N H soft) (\<lparr>pc_key_partial = key, pc_purged = 0\<rparr>, d) ps = (pc', d')"
    by (auto simp: partial_walk_eq split: prod.splits)
  note v = walk_tree_below [OF H t]
  from walk_spec [OF H ok v(1,2) f] show ?thesis unfolding walk_result_def using t b v by auto
qed

section \<open>Purge by key prefix\<close>

lemma partial_offload_cases:
  assumes "partial_offload E soft key r = (rc, r')"
  shows "rq_disk r' = rq_disk r \<and> rq_shm r' = rq_shm r \<and> rq_watch r' = rq_watch r \<and>
    (rc = NGX_ERROR \<or> rc = NGX_DONE \<and> rq_task r' = Some \<lparr>tk_root = fc_path (dk_cache (rq_disk r)),
       tk_soft = soft, tk_partial = \<lparr>pc_key_partial = key, pc_purged = 0\<rparr>, tk_rc = NGX_ERROR\<rparr>)"
proof -
  have w: "rq_disk (set_response_path x q) = rq_disk q" "rq_shm (set_response_path x q) = rq_shm q"
    "rq_watch (set_response_path x q) = rq_watch q" "rq_task (set_response_path x q) = rq_task q" for x q
    using bookkeeping_world(1) [of q x q] by (simp_all add: same_world_def)
  show ?thesis using assms by (auto simp: partial_offload_def w split: prod.splits bool.splits if_splits)
qed

lemma partial_sync_cases:
  assumes H: "http_core_ok H" and ok: "world_ok N r" and p: "partial_sync N H E soft key r = (rc, r')"
  shows "world_ok N r' \<and> rq_shm r' = rq_shm r \<and> rq_watch r' = rq_watch r \<and>
    cache_slack (dk_cache (rq_disk r')) = cache_slack (dk_cache (rq_disk r)) \<and>
    (rc = NGX_ERROR \<or> rc = NGX_OK \<and>
      (\<exists>n. walk_result N H soft key (fc_path (dk_cache (rq_disk r))) (rq_disk r) (rq_disk r') n))"
proof -
  have c: "cache_ok (dk_cache (rq_disk r))" using ok by (simp add: world_ok_def)
  obtain b1 pl1 where a1: "pool_alloc (rq_pool r) = (b1, pl1)" by fastforce
  obtain b2 pl2 where a2: "(if length key > 0 then pool_alloc pl1 else (True, pl1)) = (b2, pl2)" by fastforce
  let ?r2 = "set_response_path FILESYSTEM_FALLBACK (r\<lparr>rq_pool := pl2\<rparr>)"
  have s: "same_world r ?r2" by simp
  obtain b ctx d1 where w: "partial_walk N H (fc_path (dk_cache (rq_disk r))) soft
      \<lparr>pc_key_partial = key, pc_purged = 0\<rparr> (rq_disk r) = (b, ctx, d1)" by (metis prod_cases3)
  let ?r3 = "?r2\<lparr>rq_disk := d1\<rparr>"
  consider (mem) pl where "rc = NGX_ERROR" "r' = r\<lparr>rq_pool := pl\<rparr>"
    | (walk) "rc = (if b then NGX_OK else NGX_ERROR)" "same_world ?r3 r'"
  proof (cases "b1 \<and> b2")
    case True
    then have t: "b1 = True" "b2 = True" by simp_all
    have "partial_sync N H E soft key r = (if \<not> b then (NGX_ERROR, ?r3) else (NGX_OK,
        record_purge_request E STATS_WILDCARD soft (record_purge E STATS_WILDCARD soft (of_nat (pc_purged ctx)) ?r3)))"
      using same_worldD(1) [OF s] unfolding partial_sync_def a1 [unfolded t] prod.case bool.case a2 [unfolded t] Let_def
      by (simp add: w)
    then show thesis using p walk by (auto split: if_splits)
  next
    case False
    then have "rc = NGX_ERROR \<and> (\<exists>pl. r' = r\<lparr>rq_pool := pl\<rparr>)"
      using p a2 unfolding partial_sync_def a1 prod.case by (cases b1) auto
    then show thesis using mem by blast
  qed
  then show ?thesis
  proof cases
    case mem
    then show ?thesis using ok by (auto simp: world_ok_def)
  next
    case walk
    have f: "rq_disk r' = d1" "rq_shm r' = rq_shm r" "rq_watch r' = rq_watch r"
      using s walk(2) by (simp_all add: same_world_def)
    show ?thesis
    proof (cases b)
      case True
      have "walk_result N H soft key (fc_path (dk_cache (rq_disk r))) (rq_disk r) d1 (pc_purged ctx)"
        by (rule partial_walk_spec [OF H c]) (use w True in simp)
      then show ?thesis using partial_walk_world [OF H c w] ok f walk(1) True by (auto simp: world_ok_def)
    next
      case False
      then show ?thesis using partial_walk_world [OF H c w] ok f walk(1) by (auto simp: world_ok_def)
    qed
  qed
qed

lemma partial_purge_spec:
  assumes ok: "ngx_core_ok N" "http_core_ok H" "world_ok N r"
    and keys: "hc_keys (the (rq_cache r)) = [pre @ ''*'']" and nul: "c_nul \<notin> set pre"
    and zone: "runtime_lookup_zone (rq_watch r) cache = Some zone" "good_zone zone"
    and p: "partial_purge N H E cache r = (rc, r')"
  defines "zn \<equiv> iz_zone_name zone" and "soft \<equiv> request_mode N E (pc_soft (purge_conf E))"
  defines "P \<equiv> prefix_paths r zn pre" and "root \<equiv> fc_path (dk_cache (rq_disk r))"
  shows "world_ok N r' \<and> stray (rq_shm r') = stray (rq_shm r) \<and>
    (\<forall>z p. z \<noteq> zn \<or> p \<notin> P \<longrightarrow> indexed r' z p = indexed r z p) \<and>
    (rc = NGX_OK \<longrightarrow>
       world_frame zn P r r' \<and> (\<forall>p \<in> P. path_done H zn soft (\<not> soft) r' p) \<and> (\<exists>p \<in> P. file_there r p) \<or>
       (\<exists>n. walk_result N H soft pre root (rq_disk r) (rq_disk r') n)) \<and>
    (rc = NGX_DONE \<longrightarrow> rq_disk r' = rq_disk r \<and> rq_task r' = Some \<lparr>tk_root = root, tk_soft = soft,
       tk_partial = \<lparr>pc_key_partial = pre, pc_purged = 0\<rparr>, tk_rc = NGX_ERROR\<rparr>) \<and>
    (rc \<noteq> NGX_ERROR \<and> reader_open E r \<and> rq_pool r = [] \<and> (\<exists>p \<in> P. file_there r p) \<longrightarrow>
       rc = NGX_OK \<and> world_frame zn P r r' \<and> (\<forall>p \<in> P. path_done H zn soft (\<not> soft) r' p))"
proof -
  obtain b1 pl1 where a1: "pool_alloc (rq_pool r) = (b1, pl1)" by fastforce
  let ?r1 = "r\<lparr>rq_pool := pl1\<rparr>"
  obtain rc1 used n r2 where i: "partial_index N H E cache soft pre ?r1 = (rc1, used, n, r2)" by (metis prod_cases4)
  have z1: "runtime_lookup_zone (rq_watch ?r1) cache = Some zone" using zone(1) by simp
  have w1: "world_ok N ?r1" using ok(3) by (simp add: world_ok_def)
  have P1: "prefix_paths ?r1 zn pre = P" by (simp add: P_def prefix_paths_def indexed_def)
  have th: "file_there ?r1 = file_there r" by (simp add: fun_eq_iff file_there_def)
  have f1: "world_frame zn P ?r1 q = world_frame zn P r q" for q
    by (simp add: world_frame_def indexed_def file_there_def)
  note s = partial_index_spec [OF ok(1,2) w1 nul z1 zone(2) i, folded zn_def, unfolded P1 th f1]
  let ?sync = "if en_thread_pool E then partial_offload E soft pre r2 else partial_sync N H E soft pre r2"
  consider (mem) pl where "rc = NGX_ERROR" "r' = r\<lparr>rq_pool := pl\<rparr>"
    | (err) "rc = NGX_ERROR" "r' = r2" | (index) "rc = NGX_OK" "rc1 = NGX_OK" "used" "same_world r2 r'"
    | (fallback) "rc1 = NGX_OK" "\<not> used" "?sync = (rc, r')"
  proof (cases "b1 \<and> pre \<noteq> []")
    case True
    then have "partial_purge N H E cache r = (if rc1 \<noteq> NGX_OK then (NGX_ERROR, r2) else if used then
        (NGX_OK, record_purge_request E STATS_WILDCARD soft (record_key_index_wildcard_hit E
           (record_purge E STATS_WILDCARD soft (of_nat n) (set_response_path WILDCARD_INDEX r2)))) else ?sync)"
      using i a1 by (simp add: partial_purge_def keys Let_def strip_star_def soft_def [symmetric])
    then show thesis using p err index fallback by (auto split: if_splits)
  next
    case False
    then have "rc = NGX_ERROR \<and> (r' = r \<or> r' = r\<lparr>rq_pool := pl1\<rparr>)"
      using p a1 by (cases "pre = []") (auto simp: partial_purge_def keys strip_star_def)
    moreover have "r = r\<lparr>rq_pool := rq_pool r\<rparr>" by simp
    ultimately have "rc = NGX_ERROR \<and> (\<exists>pl. r' = r\<lparr>rq_pool := pl\<rparr>)" by metis
    then show thesis using mem by blast
  qed
  then show ?thesis
  proof cases
    case mem
    then show ?thesis using ok(3) by (auto simp: world_ok_def indexed_def)
  next
    case err
    then show ?thesis using s(1,2) by (auto simp: world_frame_def)
  next
    case index
    have "world_frame zn P r r'" using frame_after [OF s(2) cache_frame_same [OF index(4)]] .
    moreover have "path_done H zn soft (\<not> soft) r' q = path_done H zn soft (\<not> soft) r2 q" for q
      using index(4) by (simp add: path_done_def same_world_def indexed_def file_there_def)
    ultimately show ?thesis using index s(4) world_ok_same [OF index(4) s(1)] by (auto simp: world_frame_def)
  next
    case fallback
    have d: "rq_disk r2 = rq_disk r" using s(5) [OF fallback(1,2)] by simp
    have none: "\<not> (reader_open E r \<and> rq_pool r = [] \<and> (\<exists>p \<in> P. file_there r p))"
      using s(6) [OF fallback(1)] fallback(2) a1 by (auto simp: reader_open_def)
    have fin: "world_ok N r' \<and> rq_shm r' = rq_shm r2 \<and>
        (rc = NGX_OK \<longrightarrow> (\<exists>n. walk_result N H soft pre root (rq_disk r) (rq_disk r') n)) \<and>
        (rc = NGX_DONE \<longrightarrow> rq_disk r' = rq_disk r \<and> rq_task r' = Some \<lparr>tk_root = root, tk_soft = soft,
           tk_partial = \<lparr>pc_key_partial = pre, pc_purged = 0\<rparr>, tk_rc = NGX_ERROR\<rparr>)"
    proof (cases "en_thread_pool E")
      case True
      then have "partial_offload E soft pre r2 = (rc, r')" using fallback(3) by simp
      from partial_offload_cases [OF this] show ?thesis using s(1) d by (auto simp: world_ok_def root_def)
    next
      case False
      then have "partial_sync N H E soft pre r2 = (rc, r')" using fallback(3) by simp
      from partial_sync_cases [OF ok(2) s(1) this] show ?thesis using d by (auto simp: root_def)
    qed
    have "indexed r' = indexed r2" using fin by (simp add: indexed_def fun_eq_iff)
    then show ?thesis using fin s(2) none by (auto simp: world_frame_def)
  qed
qed

end
