(* ===== verification/Metrics.thy ===== *)
theory Metrics
  imports Request
begin

text \<open>
  The statistics endpoint (\<^verbatim>\<open>src/src/ngx_cache_pilot_metrics.c\<close>): a snapshot of every reported
  zone, the choice of the format, the JSON and the Prometheus serialisation, the handler.

  Printing into the buffer is modelled by the list of the printed pieces, one for each call (or
  stored character), in order; \<open>print_all\<close> keeps what fits.
\<close>

section \<open>Snapshots\<close>

datatype index_state = STATE_DISABLED | STATE_CONFIGURED | STATE_READY

record zone_snapshot =
  sn_name :: ngx_str
  sn_size :: int
  sn_max_size :: int
  sn_index_max_size :: int
  sn_cold :: bool
  sn_entries_valid :: "64 word"
  sn_entries_expired :: "64 word"
  sn_entries_updating :: "64 word"
  sn_index_state :: index_state
  sn_has_index :: bool
  sn_last_updated_at :: int
  sn_last_bootstrap_at :: int
  sn_not_ready_reason :: "string option"
  sn_alloc_failures :: "64 word"

text \<open>The three counters are those of valid, expired and updating entries.\<close>

fun walk_rbtree ::
  "(addr \<rightharpoonup> cache_node) \<Rightarrow> rbtree \<Rightarrow> int \<Rightarrow> 64 word \<times> 64 word \<times> 64 word \<Rightarrow> 64 word \<times> 64 word \<times> 64 word" where
  "walk_rbtree nodes Sentinel now counts = counts"
| "walk_rbtree nodes (RbNode c l k a r) now counts =
     (case walk_rbtree nodes r now (walk_rbtree nodes l now counts) of
        (valid, expired, updating) \<Rightarrow>
          let fcn = the (nodes a) in
          if \<not> cn_exists fcn then (valid, expired, updating)
          else if cn_updating fcn then (valid, expired, updating + 1)
          else if cn_valid_sec fcn > now then (valid + 1, expired, updating)
          else (valid, expired + 1, updating))"

text \<open>\<open>me_get\<close>: the method is \<^verbatim>\<open>GET\<close>; \<open>en_head\<close>: it is \<^verbatim>\<open>HEAD\<close>; \<open>me_arg\<close>: the argument \<^verbatim>\<open>format\<close>
  of the request; \<open>me_caches\<close>: the content of each cache; \<open>me_header_ok\<close>: there is room for a
  response header.\<close>

record metrics_env = req_env +
  me_get :: bool
  me_arg :: "ngx_str option"
  me_pagesize :: nat
  me_caches :: "addr \<Rightarrow> file_cache"
  me_header_ok :: bool

definition snapshot_zone :: "metrics_env \<Rightarrow> stat_zone \<Rightarrow> req \<Rightarrow> zone_snapshot \<times> req" where
  "snapshot_zone E sz r =
     (let cache = me_caches E (sz_cache sz);
          (valid, expired, updating) = walk_rbtree (fc_nodes cache) (fc_tree cache) (en_now E) (0, 0, 0);
          snap = \<lparr>sn_name = sz_name sz, sn_size = fc_size cache, sn_max_size = fc_max_size cache,
            sn_index_max_size = 0, sn_cold = fc_cold cache, sn_entries_valid = valid,
            sn_entries_expired = expired, sn_entries_updating = updating, sn_index_state = STATE_DISABLED,
            sn_has_index = False, sn_last_updated_at = 0, sn_last_bootstrap_at = 0,
            sn_not_ready_reason = None, sn_alloc_failures = 0\<rparr>
      in if \<not> store_configured (en_main E) then (snap, r)
         else
           let snap1 = snap\<lparr>sn_index_state := STATE_CONFIGURED, sn_has_index := True,
                 sn_index_max_size := int (the (mc_index_shm_size (the (en_main E)))),
                 sn_not_ready_reason := Some ''reader_unavailable''\<rparr>
           in (case store_reader (en_main E) (en_ready E) (rq_cycle_pool r) (rq_store r) of
                (found, pl, sr) \<Rightarrow>
                  let r1 = r\<lparr>rq_cycle_pool := pl, rq_store := sr\<rparr>;
                      reader = found \<or> store_writer sr;
                      (rc, state) = (if reader then get_zone_state (en_now E) (rq_shm r1) (sz_name sz)
                                     else (NGX_ERROR, zero_state));
                      snap2 = (if rc = NGX_OK then
                          snap1\<lparr>sn_last_bootstrap_at := st_last_bootstrap_at state,
                            sn_last_updated_at := st_last_updated_at state,
                            sn_not_ready_reason :=
                              (if st_bootstrap_complete state then None else Some ''index_not_ready''),
                            sn_alloc_failures := snd (get_stats (Some (rq_shm r1)))\<rparr>
                        else snap1);
                      registered = runtime_lookup_zone (rq_watch r1) (sz_cache sz) \<noteq> None
                  in (if registered \<and> reader \<and> st_bootstrap_complete state
                      then snap2\<lparr>sn_index_state := STATE_READY, sn_not_ready_reason := None\<rparr>
                      else if reader \<and> \<not> registered
                      then snap2\<lparr>sn_not_ready_reason := Some ''zone_not_registered''\<rparr>
                      else snap2, r1)))"

fun snapshot_zones :: "metrics_env \<Rightarrow> stat_zone list \<Rightarrow> req \<Rightarrow> zone_snapshot list \<times> req" where
  "snapshot_zones E [] r = ([], r)"
| "snapshot_zones E (sz # szs) r =
     (case snapshot_zone E sz r of
        (snap, r1) \<Rightarrow> (case snapshot_zones E szs r1 of (snaps, r2) \<Rightarrow> (snap # snaps, r2)))"

section \<open>The format\<close>

datatype metrics_format = FORMAT_JSON | FORMAT_PROMETHEUS

fun accept_loop :: "ngx_core \<Rightarrow> (ngx_str \<times> ngx_str) list \<Rightarrow> metrics_format" where
  "accept_loop N [] = FORMAT_JSON"
| "accept_loop N ((key, val) # hs) =
     (if length key \<noteq> 6 then accept_loop N hs
      else if strncasecmp N key ''accept'' 6 \<noteq> 0 then accept_loop N hs
      else if strnstr val ''text/plain'' (length val) \<or>
              strnstr val ''application/openmetrics-text'' (length val)
      then FORMAT_PROMETHEUS
      else FORMAT_JSON)"

definition negotiate_format :: "ngx_core \<Rightarrow> metrics_env \<Rightarrow> metrics_format" where
  "negotiate_format N E =
     (case me_arg E of
        Some fmt \<Rightarrow>
          if length fmt = 10 \<and> strncasecmp N fmt ''prometheus'' 10 = 0 then FORMAT_PROMETHEUS else FORMAT_JSON
      | None \<Rightarrow> accept_loop N (en_headers_in E))"

section \<open>Helpers of the serialisers\<close>

definition metrics_read :: "metrics option \<Rightarrow> (metrics \<Rightarrow> 64 word) \<Rightarrow> string" where
  "metrics_read m field = ui (case m of Some s \<Rightarrow> field s | None \<Rightarrow> 0)"

fun index_state_str :: "index_state \<Rightarrow> string" where
  "index_state_str STATE_CONFIGURED = ''configured''"
| "index_state_str STATE_READY = ''ready''"
| "index_state_str STATE_DISABLED = ''disabled''"

fun index_state_code :: "index_state \<Rightarrow> nat" where
  "index_state_code STATE_DISABLED = 0"
| "index_state_code STATE_CONFIGURED = 1"
| "index_state_code STATE_READY = 2"

definition index_not_ready_reason :: "zone_snapshot \<Rightarrow> string" where
  "index_not_ready_reason s = (case sn_not_ready_reason s of Some reason \<Rightarrow> reason | None \<Rightarrow> '''')"

fun index_alloc_failures :: "zone_snapshot list \<Rightarrow> 64 word" where
  "index_alloc_failures [] = 0"
| "index_alloc_failures (s # snaps) = (if sn_has_index s then sn_alloc_failures s else index_alloc_failures snaps)"

section \<open>JSON\<close>

definition json_pair :: "string \<Rightarrow> string \<Rightarrow> string \<Rightarrow> string" where
  "json_pair name hard soft = tq ''`'' @ name @ tq ''`:{`hard`:'' @ hard @ tq '',`soft`:'' @ soft @ ''}''"

definition json_head :: "int \<Rightarrow> zone_snapshot list \<Rightarrow> metrics option \<Rightarrow> string" where
  "json_head now snaps m =
     tq ''{`version`:1,`timestamp`:'' @ decimal_int now @
     tq '',`purges`:{'' @
     json_pair ''exact'' (metrics_read m mt_purges_exact_hard) (metrics_read m mt_purges_exact_soft) @ '','' @
     json_pair ''wildcard'' (metrics_read m mt_purges_wildcard_hard) (metrics_read m mt_purges_wildcard_soft) @ '','' @
     json_pair ''tag'' (metrics_read m mt_purges_tag_hard) (metrics_read m mt_purges_tag_soft) @ '','' @
     json_pair ''all'' (metrics_read m mt_purges_all_hard) (metrics_read m mt_purges_all_soft) @
     tq ''},`purged`:{'' @
     json_pair ''exact'' (metrics_read m mt_purged_exact_hard) (metrics_read m mt_purged_exact_soft) @ '','' @
     json_pair ''wildcard'' (metrics_read m mt_purged_wildcard_hard) (metrics_read m mt_purged_wildcard_soft) @ '','' @
     json_pair ''tag'' (metrics_read m mt_purged_tag_hard) (metrics_read m mt_purged_tag_soft) @ '','' @
     json_pair ''all'' (metrics_read m mt_purged_all_hard) (metrics_read m mt_purged_all_soft) @
     tq ''},`key_index`:{`exact_fanout`:'' @ metrics_read m mt_key_index_exact_fanout @
     tq '',`wildcard_hits`:'' @ metrics_read m mt_key_index_wildcard_hits @
     tq ''},`index_store`:{`alloc_failures`:'' @ ui (index_alloc_failures snaps) @ ''},''"

definition json_zone :: "zone_snapshot \<Rightarrow> string list" where
  "json_zone s =
     [tq ''`'' @ sn_name s @ tq ''`:{`size`:'' @ decimal_int (sn_size s) @
      tq '',`max_size`:'' @ decimal_int (sn_max_size s) @
      tq '',`cold`:'' @ (if sn_cold s then ''true'' else ''false'') @
      tq '',`entries`:{`total`:'' @ ui (sn_entries_valid s + sn_entries_expired s + sn_entries_updating s) @
      tq '',`valid`:'' @ ui (sn_entries_valid s) @
      tq '',`expired`:'' @ ui (sn_entries_expired s) @
      tq '',`updating`:'' @ ui (sn_entries_updating s) @ ''}''] @
     (if sn_has_index s then
        [tq '',`index`:{`state`:`'' @ index_state_str (sn_index_state s) @
         tq ''`,`state_code`:'' @ decimal (index_state_code (sn_index_state s)) @
         tq '',`max_size`:'' @ decimal_int (sn_index_max_size s) @
         tq '',`last_bootstrap_at`:'' @ decimal_int (sn_last_bootstrap_at s) @
         tq '',`last_updated_at`:'' @ decimal_int (sn_last_updated_at s) @
         tq '',`backend`:`shm`''] @
        (if sn_not_ready_reason s \<noteq> None
         then [tq '',`not_ready_reason`:`'' @ index_not_ready_reason s @ tq ''`''] else []) @ [''}'']
      else []) @
     [''}'']"

fun json_zones :: "bool \<Rightarrow> zone_snapshot list \<Rightarrow> string list" where
  "json_zones first [] = []"
| "json_zones first (s # snaps) = (if first then [] else ['','']) @ json_zone s @ json_zones False snaps"

definition write_json :: "nat \<Rightarrow> int \<Rightarrow> zone_snapshot list \<Rightarrow> metrics option \<Rightarrow> string" where
  "write_json cap now snaps m =
     print_all cap ([json_head now snaps m, tq ''`zones`:{''] @ json_zones True snaps @ [''}}''])"

section \<open>Prometheus\<close>

definition prom_type_mode :: "string \<Rightarrow> string \<Rightarrow> string \<Rightarrow> string \<Rightarrow> string" where
  "prom_type_mode metric ty mode val =
     metric @ tq ''{type=`'' @ ty @ tq ''`,mode=`'' @ mode @ tq ''`} '' @ val @ tq ''~''"

definition prom_head :: "metrics option \<Rightarrow> string list" where
  "prom_head m =
     [tq ''# HELP nginx_cache_pilot_purges_total Total cache purge operations~'' @
      tq ''# TYPE nginx_cache_pilot_purges_total counter~'' @
      prom_type_mode ''nginx_cache_pilot_purges_total'' ''exact'' ''hard'' (metrics_read m mt_purges_exact_hard) @
      prom_type_mode ''nginx_cache_pilot_purges_total'' ''exact'' ''soft'' (metrics_read m mt_purges_exact_soft) @
      prom_type_mode ''nginx_cache_pilot_purges_total'' ''wildcard'' ''hard'' (metrics_read m mt_purges_wildcard_hard) @
      prom_type_mode ''nginx_cache_pilot_purges_total'' ''wildcard'' ''soft'' (metrics_read m mt_purges_wildcard_soft) @
      prom_type_mode ''nginx_cache_pilot_purges_total'' ''tag'' ''hard'' (metrics_read m mt_purges_tag_hard) @
      prom_type_mode ''nginx_cache_pilot_purges_total'' ''tag'' ''soft'' (metrics_read m mt_purges_tag_soft) @
      prom_type_mode ''nginx_cache_pilot_purges_total'' ''all'' ''hard'' (metrics_read m mt_purges_all_hard) @
      prom_type_mode ''nginx_cache_pilot_purges_total'' ''all'' ''soft'' (metrics_read m mt_purges_all_soft),
      tq ''# HELP nginx_cache_pilot_key_index_total'' @
      tq '' Cache purges served via the key index (avoids filesystem walk)~'' @
      tq ''# TYPE nginx_cache_pilot_key_index_total counter~'' @
      tq ''nginx_cache_pilot_key_index_total{type=`exact_fanout`} '' @
      metrics_read m mt_key_index_exact_fanout @
      tq ''~nginx_cache_pilot_key_index_total{type=`wildcard_hits`} '' @
      metrics_read m mt_key_index_wildcard_hits @ tq ''~'',
      tq ''# HELP nginx_cache_pilot_purged_entries_total'' @
      tq '' Total cache entries removed or expired by purge type and mode~'' @
      tq ''# TYPE nginx_cache_pilot_purged_entries_total counter~'' @
      prom_type_mode ''nginx_cache_pilot_purged_entries_total'' ''exact'' ''hard'' (metrics_read m mt_purged_exact_hard) @
      prom_type_mode ''nginx_cache_pilot_purged_entries_total'' ''exact'' ''soft'' (metrics_read m mt_purged_exact_soft) @
      prom_type_mode ''nginx_cache_pilot_purged_entries_total'' ''wildcard'' ''hard'' (metrics_read m mt_purged_wildcard_hard) @
      prom_type_mode ''nginx_cache_pilot_purged_entries_total'' ''wildcard'' ''soft'' (metrics_read m mt_purged_wildcard_soft) @
      prom_type_mode ''nginx_cache_pilot_purged_entries_total'' ''tag'' ''hard'' (metrics_read m mt_purged_tag_hard) @
      prom_type_mode ''nginx_cache_pilot_purged_entries_total'' ''tag'' ''soft'' (metrics_read m mt_purged_tag_soft) @
      prom_type_mode ''nginx_cache_pilot_purged_entries_total'' ''all'' ''hard'' (metrics_read m mt_purged_all_hard) @
      prom_type_mode ''nginx_cache_pilot_purged_entries_total'' ''all'' ''soft'' (metrics_read m mt_purged_all_soft)]"

definition prom_zone :: "string \<Rightarrow> ngx_str \<Rightarrow> string \<Rightarrow> string" where
  "prom_zone metric name val = metric @ tq ''{zone=`'' @ name @ tq ''`} '' @ val @ tq ''~''"

text \<open>Samples of the zones that have an index; the description is printed before the first zone of a
  run of such zones.\<close>

fun prom_indexed :: "string \<Rightarrow> (zone_snapshot \<Rightarrow> string) \<Rightarrow> bool \<Rightarrow> zone_snapshot list \<Rightarrow> string list" where
  "prom_indexed descr line prev [] = []"
| "prom_indexed descr line prev (s # snaps) =
     (if \<not> sn_has_index s then prom_indexed descr line False snaps
      else (if prev then [] else [descr]) @ line s # prom_indexed descr line True snaps)"

definition prom_boot :: "zone_snapshot \<Rightarrow> string list" where
  "prom_boot s =
     (if \<not> sn_has_index s then []
      else prom_zone ''nginx_cache_pilot_index_last_bootstrap_at_seconds'' (sn_name s)
             (decimal_int (sn_last_bootstrap_at s)) #
        (if sn_not_ready_reason s \<noteq> None
         then [tq ''nginx_cache_pilot_index_not_ready{zone=`'' @ sn_name s @ tq ''`,reason=`'' @
               index_not_ready_reason s @ tq ''`} 1~''] else []))"

definition prom_entries :: "zone_snapshot \<Rightarrow> string" where
  "prom_entries s =
     tq ''nginx_cache_pilot_zone_entries{zone=`'' @ sn_name s @ tq ''`,state=`valid`} '' @
     ui (sn_entries_valid s) @
     tq ''~nginx_cache_pilot_zone_entries{zone=`'' @ sn_name s @ tq ''`,state=`expired`} '' @
     ui (sn_entries_expired s) @
     tq ''~nginx_cache_pilot_zone_entries{zone=`'' @ sn_name s @ tq ''`,state=`updating`} '' @
     ui (sn_entries_updating s) @ tq ''~''"

definition prom_state :: "zone_snapshot \<Rightarrow> string" where
  "prom_state s =
     tq ''nginx_cache_pilot_index_state{zone=`'' @ sn_name s @ tq ''`,state=`'' @
     index_state_str (sn_index_state s) @ tq ''`} '' @ decimal (index_state_code (sn_index_state s)) @ tq ''~''"

definition prom_pieces :: "zone_snapshot list \<Rightarrow> metrics option \<Rightarrow> string list" where
  "prom_pieces snaps m =
     prom_head m @
     [tq ''# HELP nginx_cache_pilot_zone_size_bytes Current cache zone size in bytes~'' @
      tq ''# TYPE nginx_cache_pilot_zone_size_bytes gauge~''] @
     map (\<lambda>s. prom_zone ''nginx_cache_pilot_zone_size_bytes'' (sn_name s) (decimal_int (sn_size s))) snaps @
     [tq ''# HELP nginx_cache_pilot_zone_max_size_bytes Configured maximum cache zone size in bytes~'' @
      tq ''# TYPE nginx_cache_pilot_zone_max_size_bytes gauge~''] @
     map (\<lambda>s. prom_zone ''nginx_cache_pilot_zone_max_size_bytes'' (sn_name s) (decimal_int (sn_max_size s))) snaps @
     prom_indexed
       (tq ''# HELP nginx_cache_pilot_index_max_size_bytes'' @
        tq '' Configured maximum shared-memory cache index size in bytes~'' @
        tq ''# TYPE nginx_cache_pilot_index_max_size_bytes gauge~'')
       (\<lambda>s. prom_zone ''nginx_cache_pilot_index_max_size_bytes'' (sn_name s) (decimal_int (sn_index_max_size s)))
       False snaps @
     prom_indexed
       (tq ''# HELP nginx_cache_pilot_index_last_updated_at_seconds'' @
        tq '' Unix epoch timestamp of the last in-memory index update for the zone~'' @
        tq ''# TYPE nginx_cache_pilot_index_last_updated_at_seconds gauge~'')
       (\<lambda>s. prom_zone ''nginx_cache_pilot_index_last_updated_at_seconds'' (sn_name s)
              (decimal_int (sn_last_updated_at s)))
       False snaps @
     [tq ''# HELP nginx_cache_pilot_index_last_bootstrap_at_seconds'' @
      tq '' Unix epoch timestamp of the last completed index bootstrap for the zone~'' @
      tq ''# TYPE nginx_cache_pilot_index_last_bootstrap_at_seconds gauge~'' @
      tq ''# HELP nginx_cache_pilot_index_alloc_failures_total'' @
      tq '' Shared-memory allocation failures observed by the cache index~'' @
      tq ''# TYPE nginx_cache_pilot_index_alloc_failures_total counter~'' @
      tq ''# HELP nginx_cache_pilot_index_not_ready'' @
      tq '' Index not-ready reason for configured zones (1 when active)~'' @
      tq ''# TYPE nginx_cache_pilot_index_not_ready gauge~'',
      tq ''nginx_cache_pilot_index_alloc_failures_total '' @ ui (index_alloc_failures snaps) @ tq ''~''] @
     concat (map prom_boot snaps) @
     [tq ''# HELP nginx_cache_pilot_zone_cold'' @
      tq '' 1 if the cache zone loader has not finished, 0 if warm~'' @
      tq ''# TYPE nginx_cache_pilot_zone_cold gauge~''] @
     map (\<lambda>s. prom_zone ''nginx_cache_pilot_zone_cold'' (sn_name s) (if sn_cold s then ''1'' else ''0'')) snaps @
     [tq ''# HELP nginx_cache_pilot_zone_entries Number of entries in the cache zone by state~'' @
      tq ''# TYPE nginx_cache_pilot_zone_entries gauge~''] @
     map prom_entries snaps @
     [tq ''# HELP nginx_cache_pilot_index_state'' @
      tq '' Per-zone cache index state: 0=disabled, 1=configured, 2=ready~'' @
      tq ''# TYPE nginx_cache_pilot_index_state gauge~''] @
     map prom_state snaps @
     prom_indexed
       (tq ''# HELP nginx_cache_pilot_index_info'' @
        tq '' Static metadata about the configured tag index backend (always 1)~'' @
        tq ''# TYPE nginx_cache_pilot_index_info gauge~'')
       (\<lambda>s. tq ''nginx_cache_pilot_index_info{zone=`'' @ sn_name s @ tq ''`,backend=`shm`} 1~'')
       False snaps"

definition write_prometheus :: "nat \<Rightarrow> zone_snapshot list \<Rightarrow> metrics option \<Rightarrow> string" where
  "write_prometheus cap snaps m = print_all cap (prom_pieces snaps m)"

section \<open>The shared counters and the handler\<close>

definition zero_metrics :: metrics where
  "zero_metrics =
     \<lparr>mt_purges_exact_hard = 0, mt_purges_exact_soft = 0, mt_purges_wildcard_hard = 0,
      mt_purges_wildcard_soft = 0, mt_purges_tag_hard = 0, mt_purges_tag_soft = 0,
      mt_purges_all_hard = 0, mt_purges_all_soft = 0, mt_key_index_exact_fanout = 0,
      mt_key_index_wildcard_hits = 0, mt_purged_exact_hard = 0, mt_purged_exact_soft = 0,
      mt_purged_wildcard_hard = 0, mt_purged_wildcard_soft = 0, mt_purged_tag_hard = 0,
      mt_purged_tag_soft = 0, mt_purged_all_hard = 0, mt_purged_all_soft = 0\<rparr>"

definition metrics_init_zone ::
  "ngx_core \<Rightarrow> metrics option \<Rightarrow> slab_ev list \<Rightarrow> ngx_rc \<times> metrics option \<times> slab_ev list" where
  "metrics_init_zone N old shpool =
     (case old of
        Some m \<Rightarrow> (NGX_OK, Some m, shpool)
      | None \<Rightarrow>
          (case slab_alloc N shpool (sizeof_metrics_shctx N) of
             None \<Rightarrow> (NGX_ERROR, None, shpool)
           | Some a \<Rightarrow> (NGX_OK, Some zero_metrics, SlabAlloc (sizeof_metrics_shctx N) a # shpool)))"

definition align :: "nat \<Rightarrow> nat \<Rightarrow> nat" where
  "align n a = (n + a - 1) div a * a"

definition metrics_buf_size :: "metrics_format \<Rightarrow> nat \<Rightarrow> nat \<Rightarrow> nat" where
  "metrics_buf_size fmt nzones pagesize =
     align (case fmt of FORMAT_PROMETHEUS \<Rightarrow> 3072 + nzones * 2560 | FORMAT_JSON \<Rightarrow> 512 + nzones * 1024) pagesize"

definition metrics_handler :: "ngx_core \<Rightarrow> metrics_env \<Rightarrow> req \<Rightarrow> ngx_rc \<times> req" where
  "metrics_handler N E r =
     (if \<not> me_get E \<and> \<not> en_head E then (NGX_HTTP 405, r)
      else if en_discard E \<noteq> NGX_OK then (en_discard E, r)
      else if lc_stat_zones (en_loc E) = None \<or> lc_stat_zones (en_loc E) = Some [] then (NGX_HTTP 204, r)
      else
        let szs = the (lc_stat_zones (en_loc E)) in
        (case pool_alloc (rq_pool r) of
           (False, pl1) \<Rightarrow> (NGX_HTTP 500, r\<lparr>rq_pool := pl1\<rparr>)
         | (True, pl1) \<Rightarrow>
             (case snapshot_zones E szs (r\<lparr>rq_pool := pl1\<rparr>) of
                (snaps, r2) \<Rightarrow>
                  let fmt = negotiate_format N E;
                      size = metrics_buf_size fmt (length szs) (me_pagesize E);
                      m = (if mc_metrics_zone (the (en_main E)) then rq_metrics r2 else None)
                  in (case pool_alloc (rq_pool r2) of
                      (False, pl3) \<Rightarrow> (NGX_HTTP 500, r2\<lparr>rq_pool := pl3\<rparr>)
                    | (True, pl3) \<Rightarrow>
                        let body = (case fmt of
                              FORMAT_PROMETHEUS \<Rightarrow> write_prometheus size snaps m
                            | FORMAT_JSON \<Rightarrow> write_json size (en_now E) snaps m);
                            ctype = (case fmt of
                              FORMAT_PROMETHEUS \<Rightarrow> ''text/plain; version=0.0.4; charset=utf-8''
                            | FORMAT_JSON \<Rightarrow> content_type_json);
                            head = \<lparr>rs_status = 200, rs_content_type = ctype, rs_content_length = length body,
                              rs_cache_control = (if me_header_ok E then Some ''no-store'' else None),
                              rs_body = None\<rparr>;
                            r3 = r2\<lparr>rq_pool := pl3, rq_responses := rq_responses r2 @ [head]\<rparr>
                        in if rc_stops (en_send_header E) (en_head E) then (en_send_header E, r3)
                           else (case pool_alloc pl3 of
                               (False, pl4) \<Rightarrow> (NGX_HTTP 500, r3\<lparr>rq_pool := pl4\<rparr>)
                             | (True, pl4) \<Rightarrow>
                                 (en_output E, r3\<lparr>rq_pool := pl4,
                                    rq_responses := rq_responses r2 @ [head\<lparr>rs_body := Some body\<rparr>]\<rparr>))))))"

end
