(* ===== verification/Demo.thy ===== *)
theory Demo
  imports Walk_Spec Metrics Cache_Theorems Runtime_Theorems "HOL-Library.Code_Target_Nat"
begin

text \<open>
  A concrete purge request: one zone whose index lists one file under a key and a tag, the file on
  disk, its node in the cache.  The theorems about requests are applied to it.
\<close>

definition demo_conf :: pilot_conf where
  "demo_conf = \<lparr>pc_enable = Set True, pc_configured = Set True,
     pc_enable_values = Some [\<lparr>cv_value = ''1'', cv_lengths = False\<rparr>], pc_soft = False, pc_purge_all = False\<rparr>"

definition demo_loc :: loc_conf where
  "demo_loc = \<lparr>lc_slot = (\<lambda>_. pilot_conf_unset), lc_conf = Ptr demo_conf, lc_handler = Some Protocol_handler,
     lc_original_handler = None, lc_protocol = Some (Some PROXY), lc_resptype = Some RESPONSE_TYPE_JSON,
     lc_resptype_configured = True, lc_cache_index = Set True, lc_cache_tag_headers = Some [''Cache-Tag''],
     lc_purge_mode_header = Some ''X-Mode'', lc_stat_zones = None\<rparr>"

definition demo_ploc :: "ngx_str \<Rightarrow> proto_loc" where
  "demo_ploc key = \<lparr>pl_upstream = True, pl_lengths = False, pl_cache = 1, pl_cache_zone = Some 7, pl_cache_value = None,
     pl_cache_key = \<lparr>cv_value = key, cv_lengths = False\<rparr>\<rparr>"

definition demo_open :: "http_cache \<Rightarrow> disk \<Rightarrow> open_status \<times> http_cache \<times> disk" where
  "demo_open c d = (if fc_nodes (dk_cache d) 4 = None then (Open_declined, c, d)
     else (Open_ok, c\<lparr>hc_node := Some 4, hc_file_name := demo_path\<rparr>, d))"

definition demo_env :: "(ngx_str \<times> ngx_str) list \<Rightarrow> ngx_str \<Rightarrow> req_env" where
  "demo_env hs key = \<lparr>en_now = 5, en_main = Some demo_main, en_loc = demo_loc, en_ready = True, en_headers_in = hs,
     en_head = False, en_value = (\<lambda>cv. Some (cv_value cv)), en_open = demo_open,
     en_plocs = (\<lambda>_. demo_ploc key), en_caches = (\<lambda>_. []), en_upstream = NGX_OK, en_discard = NGX_OK,
     en_send_header = NGX_OK, en_output = NGX_OK, en_thread_pool = False, en_post = NGX_OK\<rparr>"

definition demo_watch :: watch_runtime where
  "demo_watch = \<lparr>wr_index = RbNode False Sentinel 7 0 Sentinel, wr_nodes = [\<lparr>zi_zone = demo_zone, zi_state = zero_state\<rparr>],
     wr_timer = False, wr_initialized = True\<rparr>"

definition demo_cache :: "ngx_str \<Rightarrow> http_cache" where
  "demo_cache key = \<lparr>hc_file_cache = 7, hc_keys = [key], hc_file_name = [], hc_node = None,
     hc_updating = False, hc_lock_time = 0, hc_valid_sec = 0\<rparr>"

definition demo_upserted :: shm where
  "demo_upserted = snd (upsert_file_meta core_total 5 empty_shm ''z'' demo_path ''key'' 1 2 (Some [''t'']))"

definition demo_shm :: shm where
  "demo_shm = fst (snd (set_zone_state core_total 5 demo_upserted ''z''
     \<lparr>st_bootstrap_complete = True, st_last_bootstrap_at = 5, st_last_updated_at = 5\<rparr>))"

definition demo_req :: "ngx_str \<Rightarrow> req" where
  "demo_req key = \<lparr>rq_ctx = None, rq_pool = [], rq_cache = Some (demo_cache key), rq_responses = [], rq_final = [],
     rq_write_event = Core_handler, rq_count = 1, rq_blocked = 0, rq_aio = False, rq_task = None,
     rq_metrics = Some zero_metrics, rq_disk = demo_disk, rq_shm = demo_shm,
     rq_store = \<lparr>sr_writer = True, sr_reader = True, sr_owner = True\<rparr>, rq_watch = demo_watch, rq_cycle_pool = []\<rparr>"

lemma demo_lookup [simp]: "runtime_lookup_zone (rq_watch (demo_req key)) 7 = Some demo_zone"
  by (simp add: demo_req_def demo_watch_def runtime_lookup_zone_def lookup_zone_index_def zi_cache_def demo_zone_def)

lemma demo_good [simp]: "good_zone demo_zone" "iz_zone_name demo_zone = ''z''"
  by (simp_all add: good_zone_def demo_zone_def)

lemma demo_path_no_nul: "c_nul \<notin> set demo_path"
  unfolding c_nul_def by code_simp

lemma demo_shm_facts:
  "store_ok core_total demo_shm" "view demo_shm ''z'' = [demo_path \<mapsto> (''key'', 1, 2, [''t''])]" "boot_done demo_shm ''z''"
proof -
  obtain rc s where u: "upsert_file_meta core_total 5 empty_shm ''z'' demo_path ''key'' 1 2 (Some [''t'']) = (rc, s)" by fastforce
  have z: "c_nul \<notin> set ''z''" by simp
  note c = upsert_file_meta_cases [OF core_total_ok(1) store_ok_empty(1) z demo_path_no_nul u]
  have ok: "rc = NGX_OK" using upsert_total [OF core_total_ok(2)] u by (metis fst_conv)
  have v: "view s ''z'' = [demo_path \<mapsto> (''key'', 1, 2, [''t''])]" using c(4) ok by (simp add: tags_elts_def)
  let ?st = "\<lparr>st_bootstrap_complete = True, st_last_bootstrap_at = 5, st_last_updated_at = 5\<rparr>"
  obtain rc2 s2 st2 where t: "set_zone_state core_total 5 s ''z'' ?st = (rc2, s2, st2)" by (metis prod_cases3)
  have s: "demo_upserted = s" "demo_shm = s2" by (simp_all add: demo_upserted_def demo_shm_def u t)
  note d = set_zone_state_spec [OF core_total_ok(1) c(1) z t]
  show "store_ok core_total demo_shm" "view demo_shm ''z'' = [demo_path \<mapsto> (''key'', 1, 2, [''t''])]"
    using d v by (simp_all add: s)
  have "boot_done demo_shm ''z'' = st_bootstrap_complete (snd (get_zone_state 5 demo_shm ''z''))"
    using get_zone_state_boot [of core_total demo_shm "''z''" 5] d(1) z by (simp add: s)
  also have "\<dots>" by code_simp
  finally show "boot_done demo_shm ''z''" .
qed

lemma demo_world [simp]: "world_ok core_total (demo_req key)"
  using demo_shm_facts by (simp add: world_ok_def demo_req_def)

lemma demo_indexed [simp]: "indexed (demo_req key) ''z'' = [demo_path \<mapsto> (''key'', 1, 2, [''t''])]"
  using demo_shm_facts by (simp add: indexed_def demo_req_def)

lemma demo_there [simp]: "file_there (demo_req key) p \<longleftrightarrow> p = demo_path"
  by (simp add: file_there_def demo_req_def)

lemma demo_open_law [simp]: "open_law (demo_env hs key)"
  by (auto simp: open_law_def demo_env_def demo_open_def split: if_splits)

lemma demo_req_fields [simp]: "rq_cache (demo_req key) = Some (demo_cache key)" "hc_file_cache (demo_cache key) = 7"
  "request_key (demo_req key) = key" "rq_pool (demo_req key) = []" "rq_final (demo_req key) = []"
  "rq_aio (demo_req key) = False" "hc_keys (demo_cache key) = [key]"
  by (simp_all add: demo_req_def demo_cache_def request_key_def)

lemma demo_reader [simp]: "reader_open (demo_env hs key) (demo_req key2)"
  by (simp add: reader_open_def demo_env_def demo_req_def store_configured_def demo_main_def)

lemma demo_opened [simp]: "opened_name (demo_env hs key) (demo_req key2) = demo_path"
  by (simp add: opened_name_def open_cache_def demo_env_def demo_open_def demo_req_def demo_disk_def)

lemma demo_walk_below: "below ''/c'' demo_path"
  by (simp add: below_def demo_path_def)

lemma demo_no_fault [simp]: "os_fault (dk_os (rq_disk (demo_req key))) op p = False"
  by (simp add: demo_req_def demo_disk_def)

end
