(* ===== verification/Purge_Theorems.thy ===== *)
theory Purge_Theorems
  imports Demo
begin

text \<open>The correctness theorems of the purge requests, each with an instance.\<close>

section \<open>Purge by tags\<close>

text \<open>C1: A tag purge purges exactly the tagged entries.  Whatever it returns, only paths that the
  zone's index lists under one of the tags change, every other file, index entry and zone is as
  before, no shared memory leaks and the bytes of the cache stay accounted for.  When it answers
  success or \<open>NOT_FOUND\<close> the zone was completely indexed, every such path is purged in the mode of
  the request (gone, or expired), the index no longer lists those whose file is gone, and it
  answers success if and only if at least one of the files was there.\<close>

theorem tag_purge_exact:
  assumes "ngx_core_ok N" and "http_core_ok H" and "world_ok N r"
    and "runtime_lookup_zone (rq_watch r) cache = Some zone" and "good_zone zone"
    and "index_purge N H E cache tags r = (rc, r')"
  shows "let soft = request_mode N E (pc_soft (purge_conf E)); zn = iz_zone_name zone;
       P = {p. \<exists>k mt sz ts. indexed r zn p = Some (k, mt, sz, ts) \<and> set ts \<inter> set tags \<noteq> {}}
     in world_ok N r' \<and> world_frame zn P r r' \<and>
       (rc = NGX_OK \<or> rc = NGX_DECLINED \<and> declined_with r' = NOT_FOUND \<longrightarrow>
          boot_done (rq_shm r) zn \<and>
          (\<forall>p \<in> P. path_purged H soft (dk_os (rq_disk r')) p \<and> (\<not> file_there r' p \<longrightarrow> indexed r' zn p = None)) \<and>
          (rc = NGX_OK \<longleftrightarrow> (\<exists>p \<in> P. file_there r p)))"
proof -
  have P: "{p. \<exists>k mt sz ts. indexed r (iz_zone_name zone) p = Some (k, mt, sz, ts) \<and> set ts \<inter> set tags \<noteq> {}} =
      tag_paths r (iz_zone_name zone) tags" by (simp add: tag_paths_def paths_by_tags_def)
  show ?thesis unfolding P Let_def
    by (rule index_purge_spec [OF assms])
qed

lemma demo_tag_code:
  "fst (index_purge core_total H (demo_env [] ''key'') 7 [''t''] (demo_req ''key'')) = NGX_OK"
  by code_simp

theorem tag_purge_exact_witness:
  "let r' = snd (index_purge core_total demo_http (demo_env [] ''key'') 7 [''t''] (demo_req ''key''))
   in \<not> file_there r' demo_path \<and> indexed r' ''z'' demo_path = None"
proof -
  obtain r' where p: "index_purge core_total demo_http (demo_env [] ''key'') 7 [''t''] (demo_req ''key'') = (NGX_OK, r')"
    using demo_tag_code by (metis prod.collapse)
  have m: "request_mode core_total (demo_env [] ''key'') (pc_soft (purge_conf (demo_env [] ''key''))) = False"
    by code_simp
  from tag_purge_exact [OF core_total_ok(1) demo_http_ok demo_world demo_lookup demo_good(1) p]
  show ?thesis by (auto simp: p Let_def m path_purged_def file_there_def)
qed

section \<open>Purge of one key\<close>

text \<open>C2: A hard purge of one key with its variants.  Only the opened file and the paths indexed
  under the key can change.  On success the opened file is gone (unless the file system refused to
  remove it); and when the index is open and memory suffices, neither it nor any path indexed under
  the key is listed any more, and the files of all those paths are gone.  When it declines or has to
  wait for the disk no file and no entry has changed.\<close>

theorem exact_purge_complete:
  assumes "ngx_core_ok N" and "http_core_ok H" and "world_ok N r" and "open_law E" and "request_key r \<noteq> []"
    and "runtime_lookup_zone (rq_watch r) (hc_file_cache (the (rq_cache r))) = Some zone" and "good_zone zone"
    and "exact_purge N H E r = (rc, r')"
  shows "let zn = iz_zone_name zone; name = opened_name E r;
       P = {p. \<exists>mt sz ts. indexed r zn p = Some (request_key r, mt, sz, ts)}
     in world_ok N r' \<and> world_frame zn (insert name P) r r' \<and>
       (rc = NGX_OK \<longrightarrow> (file_there r' name \<longrightarrow> os_fault (dk_os (rq_disk r)) OpUnlink name)) \<and>
       (rc = NGX_OK \<and> reader_open E r \<and> rq_pool r = [] \<longrightarrow>
          (\<forall>p \<in> insert name P. indexed r' zn p = None) \<and> (\<forall>p \<in> P - {name}. \<not> file_there r' p)) \<and>
       (rc = NGX_DECLINED \<or> rc = NGX_AGAIN \<longrightarrow> cache_frame r r')"
proof -
  have P: "{p. \<exists>mt sz ts. indexed r (iz_zone_name zone) p = Some (request_key r, mt, sz, ts)} =
      key_paths r (iz_zone_name zone) (request_key r)" by (simp add: key_paths_def paths_by_key_def)
  show ?thesis unfolding P Let_def using exact_purge_spec [OF assms] by auto
qed

lemma demo_exact_code:
  "fst (exact_purge core_total H (demo_env [] ''key'') (demo_req ''key'')) = NGX_OK"
  by code_simp

theorem exact_purge_complete_witness:
  "let r' = snd (exact_purge core_total demo_http (demo_env [] ''key'') (demo_req ''key''))
   in \<not> file_there r' demo_path \<and> indexed r' ''z'' demo_path = None"
proof -
  obtain r' where p: "exact_purge core_total demo_http (demo_env [] ''key'') (demo_req ''key'') = (NGX_OK, r')"
    using demo_exact_code by (metis prod.collapse)
  have key: "request_key (demo_req ''key'') \<noteq> []" by simp
  have z: "runtime_lookup_zone (rq_watch (demo_req ''key'')) (hc_file_cache (the (rq_cache (demo_req ''key'')))) = Some demo_zone"
    by simp
  from exact_purge_complete [OF core_total_ok(1) demo_http_ok demo_world demo_open_law key z demo_good(1) p]
  show ?thesis by (auto simp: p Let_def)
qed

text \<open>C11: A soft purge of one key with its variants.  It never changes the index.  On success the
  file of the key says that it expired, and when the index is open and memory suffices so does the
  file of every path indexed under the key; only those files change, none of them is removed.  When it
  declines or has to wait for the disk no file has changed.\<close>

theorem exact_purge_soft_complete:
  assumes "ngx_core_ok N" and "http_core_ok H" and "world_ok N r" and "open_law E" and "request_key r \<noteq> []"
    and "runtime_lookup_zone (rq_watch r) (hc_file_cache (the (rq_cache r))) = Some zone" and "good_zone zone"
    and "exact_purge_soft N H E r = (rc, r')"
  shows "let zn = iz_zone_name zone; name = opened_name E r;
       P = {p. \<exists>mt sz ts. indexed r zn p = Some (request_key r, mt, sz, ts)}
     in world_ok N r' \<and> world_frame zn (insert name P) r r' \<and> rq_shm r' = rq_shm r \<and>
       (rc = NGX_OK \<longrightarrow> path_purged H True (dk_os (rq_disk r')) name) \<and>
       (rc = NGX_OK \<and> reader_open E r \<and> rq_pool r = [] \<longrightarrow>
          (\<forall>p \<in> P. path_purged H True (dk_os (rq_disk r')) p)) \<and>
       (rc = NGX_DECLINED \<or> rc = NGX_AGAIN \<longrightarrow> cache_frame r r')"
proof -
  have P: "{p. \<exists>mt sz ts. indexed r (iz_zone_name zone) p = Some (request_key r, mt, sz, ts)} =
      key_paths r (iz_zone_name zone) (request_key r)" by (simp add: key_paths_def paths_by_key_def)
  show ?thesis unfolding P Let_def using exact_purge_soft_spec [OF assms] by auto
qed

lemma demo_http_with: "\<exists>w. demo_http = http_with w"
  by (auto simp: demo_http_def http_ref_def)

lemma demo_soft_code:
  "fst (exact_purge_soft core_total (http_with w) (demo_env [] ''key'') (demo_req ''key'')) = NGX_OK"
  by code_simp

theorem exact_purge_soft_complete_witness:
  "let r' = snd (exact_purge_soft core_total demo_http (demo_env [] ''key'') (demo_req ''key''))
   in rq_shm r' = demo_shm \<and> path_purged demo_http True (dk_os (rq_disk r')) demo_path"
proof -
  obtain w where w: "demo_http = http_with w" using demo_http_with by blast
  have code: "fst (exact_purge_soft core_total demo_http (demo_env [] ''key'') (demo_req ''key'')) = NGX_OK"
    unfolding w by (rule demo_soft_code)
  obtain r' where p: "exact_purge_soft core_total demo_http (demo_env [] ''key'') (demo_req ''key'') = (NGX_OK, r')"
    using code by (metis prod.collapse)
  have key: "request_key (demo_req ''key'') \<noteq> []" by simp
  have z: "runtime_lookup_zone (rq_watch (demo_req ''key'')) (hc_file_cache (the (rq_cache (demo_req ''key'')))) = Some demo_zone"
    by simp
  have s: "rq_shm (demo_req ''key'') = demo_shm" by (simp add: demo_req_def)
  from exact_purge_soft_complete [OF core_total_ok(1) demo_http_ok demo_world demo_open_law key z demo_good(1) p]
  show ?thesis by (auto simp: p Let_def s)
qed

section \<open>Purge by key prefix\<close>

text \<open>C3: A purge of all keys with a prefix.  Index entries change only for paths indexed under the
  prefix.  Success means one of two things: the index listed a file that was there, and then every
  path indexed under the prefix is purged (in the mode of the request; gone from the index when its
  file is gone) and no other file changed; or the directory was walked, and then every file the walk
  visited below it whose stored key starts with the prefix is purged unless the purge of it is refused,
  and no other file changed.  \<open>NGX_DONE\<close> means that this walk was handed to a thread and nothing was purged yet.  When
  the index is open and lists a file that is there, the directory is not walked.\<close>

theorem prefix_purge_complete:
  assumes "ngx_core_ok N" and "http_core_ok H" and "world_ok N r"
    and "hc_keys (the (rq_cache r)) = [pre @ ''*'']" and "c_nul \<notin> set pre"
    and "runtime_lookup_zone (rq_watch r) cache = Some zone" and "good_zone zone"
    and "partial_purge N H E cache r = (rc, r')"
  shows "let zn = iz_zone_name zone; soft = request_mode N E (pc_soft (purge_conf E));
       root = fc_path (dk_cache (rq_disk r));
       P = {p. \<exists>k mt sz ts. indexed r zn p = Some (k, mt, sz, ts) \<and> take (length pre) k = pre}
     in world_ok N r' \<and> stray (rq_shm r') = stray (rq_shm r) \<and>
       (\<forall>z p. z \<noteq> zn \<or> p \<notin> P \<longrightarrow> indexed r' z p = indexed r z p) \<and>
       (rc = NGX_OK \<longrightarrow>
          world_frame zn P r r' \<and> (\<forall>p \<in> P. path_done H zn soft (\<not> soft) r' p) \<and> (\<exists>p \<in> P. file_there r p) \<or>
          (\<exists>n. walk_result N H soft pre root (rq_disk r) (rq_disk r') n)) \<and>
       (rc = NGX_DONE \<longrightarrow> rq_disk r' = rq_disk r \<and> rq_task r' = Some \<lparr>tk_root = root, tk_soft = soft,
          tk_partial = \<lparr>pc_key_partial = pre, pc_purged = 0\<rparr>, tk_rc = NGX_ERROR\<rparr>) \<and>
       (rc \<noteq> NGX_ERROR \<and> reader_open E r \<and> rq_pool r = [] \<and> (\<exists>p \<in> P. file_there r p) \<longrightarrow>
          rc = NGX_OK \<and> world_frame zn P r r' \<and> (\<forall>p \<in> P. path_done H zn soft (\<not> soft) r' p))"
proof -
  have P: "{p. \<exists>k mt sz ts. indexed r (iz_zone_name zone) p = Some (k, mt, sz, ts) \<and> take (length pre) k = pre} =
      prefix_paths r (iz_zone_name zone) pre" by (simp add: prefix_paths_def paths_by_prefix_def)
  show ?thesis unfolding P Let_def by (rule partial_purge_spec [OF assms])
qed

lemma demo_prefix_code:
  "fst (partial_purge core_total H (demo_env [] ''k*'') 7 (demo_req ''k*'')) = NGX_OK"
  by code_simp

lemma demo_hard [simp]: "request_mode core_total (demo_env [] key) False = False" "pc_soft (purge_conf (demo_env hs key)) = False"
  by (simp_all add: request_mode_def purge_conf_def demo_env_def demo_loc_def demo_conf_def)

theorem prefix_purge_complete_witness:
  "let r' = snd (partial_purge core_total demo_http (demo_env [] ''k*'') 7 (demo_req ''k*''))
   in \<not> file_there r' demo_path \<and> indexed r' ''z'' demo_path = None"
proof -
  obtain r' where p: "partial_purge core_total demo_http (demo_env [] ''k*'') 7 (demo_req ''k*'') = (NGX_OK, r')"
    using demo_prefix_code by (metis prod.collapse)
  have key: "hc_keys (the (rq_cache (demo_req ''k*''))) = [''k'' @ ''*'']" by simp
  have n: "c_nul \<notin> set ''k''" by (simp add: c_nul_def)
  from prefix_purge_complete [OF core_total_ok(1) demo_http_ok demo_world key n demo_lookup demo_good(1) p]
  have "path_done demo_http ''z'' False True r' demo_path"
    by (auto simp: Let_def)
  then show ?thesis by (auto simp: p path_done_def path_purged_def file_there_def)
qed

section \<open>Purge of a whole zone\<close>

text \<open>C12: What a purge of everything does, whatever the walk of the directory reaches.  It succeeds if
  and only if the walk does - not if and only if nothing is left.  Every file the walk visited is purged
  in the configured mode, unless a system call on it fails or, in soft mode, its header cannot be
  rewritten; such a file is kept (in soft mode possibly with a torn header).  Every file the walk did not
  visit is untouched, so a hard purge leaves exactly the files that were not visited or refused, and
  when the walk reached every file below the directory and none refused, none is left.  The cache
  zone stays well-formed and accounted for, the index is neither looked at nor changed, and on success
  the counters grow by the number of files removed or expired.\<close>

theorem whole_zone_purge_complete:
  assumes "http_core_ok H" and "cache_ok (dk_cache (rq_disk r))"
    and "walk_tree H (dk_os (rq_disk r)) (fc_path (dk_cache (rq_disk r))) = (ps, ok)"
    and "purge_all N H E r = (rc, r')"
  shows "let soft = pc_soft (purge_conf E); d = rq_disk r; d' = rq_disk r'; o0 = dk_os d;
       n = card {p \<in> set ps. \<not> refused H soft o0 p}
     in rc = (if ok then NGX_OK else NGX_ERROR) \<and> rq_shm r' = rq_shm r \<and> cache_ok (dk_cache d') \<and>
       cache_slack (dk_cache d') = cache_slack (dk_cache d) \<and>
       (\<forall>p \<in> set ps. if refused H soft o0 p then file_kept H soft (os_files o0 p) (os_files (dk_os d') p)
          else path_purged H soft (dk_os d') p) \<and>
       (\<forall>p. p \<notin> set ps \<longrightarrow> os_files (dk_os d') p = os_files o0 p) \<and>
       (\<not> soft \<longrightarrow> dom (os_files (dk_os d')) = {p \<in> dom (os_files o0). p \<in> set ps \<longrightarrow> refused H False o0 p}) \<and>
       (\<not> soft \<and> {p \<in> dom (os_files o0). below (fc_path (dk_cache d)) p} \<subseteq> set ps \<and>
          (\<forall>p \<in> set ps. \<not> refused H False o0 p) \<longrightarrow>
          (\<forall>p. below (fc_path (dk_cache d)) p \<longrightarrow> os_files (dk_os d') p = None)) \<and>
       r' = (if ok then record_purge_request E STATS_ALL soft (record_purge E STATS_ALL soft (of_nat n) (r\<lparr>rq_disk := d'\<rparr>))
             else r\<lparr>rq_disk := d'\<rparr>)"
proof -
  let ?soft = "pc_soft (purge_conf E)" and ?d = "rq_disk r" and ?d' = "rq_disk r'"
  let ?n = "card {p \<in> set ps. \<not> refused H ?soft (dk_os ?d) p}"
  have m: "purgeable N H ?soft [] o0 p = (\<not> refused H ?soft o0 p)" "partial_match N H o0 [] p" for o0 p
    by (simp_all add: purgeable_def partial_match_def)
  obtain pc d1 where f: "foldl (walk_step N H ?soft) (\<lparr>pc_key_partial = [], pc_purged = 0\<rparr>, ?d) ps = (pc, d1)"
    by fastforce
  note v = walk_tree_below [OF assms(1,3)]
  note w = walk_spec [OF assms(1,2) v(1,2) f, simplified, unfolded m]
  have e: "purge_all N H E r = (if \<not> ok then (NGX_ERROR, r\<lparr>rq_disk := d1\<rparr>)
      else (NGX_OK, record_purge_request E STATS_ALL ?soft (record_purge E STATS_ALL ?soft (of_nat ?n) (r\<lparr>rq_disk := d1\<rparr>))))"
    using w by (simp add: purge_all_eq partial_walk_eq assms(3) f)
  have rc: "rc = (if ok then NGX_OK else NGX_ERROR)" using e assms(4) by (auto split: if_splits)
  have s: "same_world (r\<lparr>rq_disk := d1\<rparr>) r'" using e assms(4) by (auto split: if_splits)
  have d1: "d1 = ?d'" "rq_shm r' = rq_shm r" using s by (simp_all add: same_world_def)
  have we: "walk_effect N H ?soft [] (set ps) ?d ?d'" using w d1(1) by simp
  have kept: "if refused H ?soft (dk_os ?d) p then file_kept H ?soft (os_files (dk_os ?d) p) (os_files (dk_os ?d') p)
      else path_purged H ?soft (dk_os ?d') p" if "p \<in> set ps" for p
    using we that by (simp add: walk_effect_def m)
  have other: "os_files (dk_os ?d') p = os_files (dk_os ?d) p" if "p \<notin> set ps" for p
    using we that by (simp add: walk_effect_def)
  have left: "dom (os_files (dk_os ?d')) = {p \<in> dom (os_files (dk_os ?d)). p \<in> set ps \<longrightarrow> refused H False (dk_os ?d) p}"
    if hard: "\<not> ?soft"
  proof (rule set_eqI)
    fix p show "p \<in> dom (os_files (dk_os ?d')) \<longleftrightarrow> p \<in> {p \<in> dom (os_files (dk_os ?d)). p \<in> set ps \<longrightarrow> refused H False (dk_os ?d) p}"
      using kept [of p] other [of p] hard
      by (cases "p \<in> set ps"; cases "refused H False (dk_os ?d) p") (simp_all add: domIff path_purged_def file_kept_def)
  qed
  have none: "os_files (dk_os ?d') p = None"
    if "\<not> ?soft" "{p \<in> dom (os_files (dk_os ?d)). below (fc_path (dk_cache ?d)) p} \<subseteq> set ps"
      "\<forall>p \<in> set ps. \<not> refused H False (dk_os ?d) p" "below (fc_path (dk_cache ?d)) p" for p
    using left [OF that(1)] that(2-4) by blast
  have r': "r' = (if ok then record_purge_request E STATS_ALL ?soft (record_purge E STATS_ALL ?soft (of_nat ?n) (r\<lparr>rq_disk := ?d'\<rparr>))
      else r\<lparr>rq_disk := ?d'\<rparr>)"
    using e assms(4) unfolding d1(1) by (auto split: if_splits)
  have acc: "cache_ok (dk_cache ?d')" "cache_slack (dk_cache ?d') = cache_slack (dk_cache ?d)"
    using we by (simp_all add: walk_effect_def)
  show ?thesis unfolding Let_def
    by (intro conjI ballI allI impI) (use rc d1(2) acc kept other left none r' in blast)+
qed

lemma demo_all_code: "fst (purge_all N demo_http (demo_env [] ''key'') (demo_req ''key'')) = NGX_OK"
  by (simp add: purge_all_def Let_def demo_http_def http_ref_def http_with_def demo_req_def split: prod.splits)

theorem whole_zone_purge_complete_witness:
  "let r' = snd (purge_all core_total demo_http (demo_env [] ''key'') (demo_req ''key''))
   in \<not> file_there r' demo_path \<and> rq_shm r' = demo_shm"
proof -
  obtain r' where p: "purge_all core_total demo_http (demo_env [] ''key'') (demo_req ''key'') = (NGX_OK, r')"
    using demo_all_code by (metis prod.collapse)
  have c: "cache_ok (dk_cache (rq_disk (demo_req ''key'')))" by (simp add: demo_req_def)
  have f: "rq_shm (demo_req ''key'') = demo_shm" by (simp add: demo_req_def)
  have w: "walk_tree demo_http (dk_os (rq_disk (demo_req ''key''))) (fc_path (dk_cache (rq_disk (demo_req ''key'')))) =
      ([demo_path], True)" using demo_walk_below
    by (simp add: demo_http_def http_ref_def http_with_def demo_req_def demo_disk_def)
  have soft: "\<not> pc_soft (purge_conf (demo_env [] ''key''))" by simp
  from whole_zone_purge_complete [OF demo_http_ok c w p] soft show ?thesis
    by (auto simp: p Let_def f path_purged_def file_there_def refused_def)
qed

end
