(* ===== verification/Handler_Spec.thy ===== *)
theory Handler_Spec
  imports Walk_Spec
begin

text \<open>
  What holds of every function a purge request runs through: it keeps the invariant of the world, it
  only removes, its counters agree with the shared ones, and which of them touch the life of the
  request (its reference counts, its event handler, its responses, its finalizations).
\<close>

section \<open>Safe steps\<close>

definition good_zones :: "req \<Rightarrow> bool" where
  "good_zones r \<longleftrightarrow> (\<forall>cache zone. runtime_lookup_zone (rq_watch r) cache = Some zone \<longrightarrow> good_zone zone)"

text \<open>\<open>only_removes\<close>: no file and no index entry appears or is changed in the index, nothing leaks,
  no zone changes its state, the cache stays accounted for.\<close>

definition only_removes :: "req \<Rightarrow> req \<Rightarrow> bool" where
  "only_removes r r' \<longleftrightarrow>
     stray (rq_shm r') = stray (rq_shm r) \<and> boot_done (rq_shm r') = boot_done (rq_shm r) \<and>
     (\<forall>z p. indexed r' z p = indexed r z p \<or> indexed r' z p = None) \<and>
     (\<forall>p. file_there r' p \<longrightarrow> file_there r p) \<and>
     cache_slack (dk_cache (rq_disk r')) = cache_slack (dk_cache (rq_disk r)) \<and> rq_watch r' = rq_watch r"

text \<open>The entries a request says it purged, and those the shared counters have.\<close>

definition ctx_purged :: "purge_stats \<Rightarrow> bool \<Rightarrow> req \<Rightarrow> 64 word" where
  "ctx_purged t soft r =
     (case rq_ctx r of
        None \<Rightarrow> 0
      | Some c \<Rightarrow>
          (case t of
             STATS_EXACT \<Rightarrow> if soft then cx_purged_exact_soft c else cx_purged_exact_hard c
           | STATS_WILDCARD \<Rightarrow> if soft then cx_purged_wildcard_soft c else cx_purged_wildcard_hard c
           | STATS_TAG \<Rightarrow> if soft then cx_purged_tag_soft c else cx_purged_tag_hard c
           | STATS_ALL \<Rightarrow> if soft then cx_purged_all_soft c else cx_purged_all_hard c))"

definition shared_purged :: "purge_stats \<Rightarrow> bool \<Rightarrow> metrics \<Rightarrow> 64 word" where
  "shared_purged t soft m =
     (case t of
        STATS_EXACT \<Rightarrow> if soft then mt_purged_exact_soft m else mt_purged_exact_hard m
      | STATS_WILDCARD \<Rightarrow> if soft then mt_purged_wildcard_soft m else mt_purged_wildcard_hard m
      | STATS_TAG \<Rightarrow> if soft then mt_purged_tag_soft m else mt_purged_tag_hard m
      | STATS_ALL \<Rightarrow> if soft then mt_purged_all_soft m else mt_purged_all_hard m)"

text \<open>Whatever is added to the counters of the request is added to the shared ones.\<close>

definition coherent :: "req_env \<Rightarrow> req \<Rightarrow> req \<Rightarrow> bool" where
  "coherent E r r' \<longleftrightarrow> (\<forall>m. metrics_ctx E r = Some m \<longrightarrow> (\<exists>m'. metrics_ctx E r' = Some m' \<and>
     (\<forall>t soft. shared_purged t soft m' - shared_purged t soft m = ctx_purged t soft r' - ctx_purged t soft r)))"

definition life :: "req \<Rightarrow> ngx_rc list \<times> response list \<times> nat \<times> nat \<times> bool \<times> partial_task option \<times> event_handler" where
  "life r = (rq_final r, rq_responses r, rq_count r, rq_blocked r, rq_aio r, rq_task r, rq_write_event r)"

definition safe_step :: "ngx_core \<Rightarrow> req_env \<Rightarrow> req \<Rightarrow> req \<Rightarrow> bool" where
  "safe_step N E r r' \<longleftrightarrow>
     (world_ok N r \<and> good_zones r \<longrightarrow> world_ok N r' \<and> only_removes r r' \<and> coherent E r r')"

definition quiet :: "ngx_core \<Rightarrow> req_env \<Rightarrow> req \<Rightarrow> req \<Rightarrow> bool" where
  "quiet N E r r' \<longleftrightarrow> safe_step N E r r' \<and> (world_ok N r \<and> good_zones r \<longrightarrow> life r' = life r)"

lemma only_removes_refl [simp]: "only_removes r r"
  by (simp add: only_removes_def)

lemma only_removes_trans: "only_removes r r1 \<Longrightarrow> only_removes r1 r2 \<Longrightarrow> only_removes r r2"
  unfolding only_removes_def by metis

lemma only_removes_zones: "only_removes r r' \<Longrightarrow> good_zones r' = good_zones r"
  by (simp add: only_removes_def good_zones_def)

lemma coherent_refl [simp]: "coherent E r r"
  by (simp add: coherent_def)

lemma coherent_trans:
  assumes "coherent E r r1" and "coherent E r1 r2"
  shows "coherent E r r2"
  unfolding coherent_def
proof (intro allI impI)
  fix m assume "metrics_ctx E r = Some m"
  then obtain m1 m2 where m: "metrics_ctx E r2 = Some m2"
    "\<forall>t soft. shared_purged t soft m1 - shared_purged t soft m = ctx_purged t soft r1 - ctx_purged t soft r"
    "\<forall>t soft. shared_purged t soft m2 - shared_purged t soft m1 = ctx_purged t soft r2 - ctx_purged t soft r1"
    using assms unfolding coherent_def by blast
  have "shared_purged t soft m2 - shared_purged t soft m = ctx_purged t soft r2 - ctx_purged t soft r" for t soft
  proof -
    have "shared_purged t soft m2 - shared_purged t soft m =
      (shared_purged t soft m2 - shared_purged t soft m1) + (shared_purged t soft m1 - shared_purged t soft m)" by simp
    also have "\<dots> = (ctx_purged t soft r2 - ctx_purged t soft r1) + (ctx_purged t soft r1 - ctx_purged t soft r)"
      by (simp only: m)
    finally show ?thesis by simp
  qed
  then show "\<exists>m'. metrics_ctx E r2 = Some m' \<and>
     (\<forall>t soft. shared_purged t soft m' - shared_purged t soft m = ctx_purged t soft r2 - ctx_purged t soft r)"
    using m(1) by blast
qed

lemma safe_trans [trans]: "safe_step N E r r1 \<Longrightarrow> safe_step N E r1 r2 \<Longrightarrow> safe_step N E r r2"
  unfolding safe_step_def using only_removes_trans only_removes_zones coherent_trans by blast

lemma quiet_trans [trans]: "quiet N E r r1 \<Longrightarrow> quiet N E r1 r2 \<Longrightarrow> quiet N E r r2"
  unfolding quiet_def safe_step_def using only_removes_trans only_removes_zones coherent_trans by metis

lemma quiet_safe [trans]: "quiet N E r r1 \<Longrightarrow> safe_step N E r1 r2 \<Longrightarrow> safe_step N E r r2"
  using safe_trans quiet_def by blast

lemma quiet_refl [simp]: "quiet N E r r"
  by (simp add: quiet_def safe_step_def)

lemma safe_refl [simp]: "safe_step N E r r"
  by (simp add: safe_step_def)

text \<open>A step that is safe and quiet where the invariant holds.\<close>

lemma quietI:
  assumes "world_ok N r \<Longrightarrow> good_zones r \<Longrightarrow> world_ok N r' \<and> only_removes r r' \<and> coherent E r r' \<and> life r' = life r"
  shows "quiet N E r r'"
  using assms by (simp add: quiet_def safe_step_def)

lemma quietD:
  assumes "quiet N E r r'" and "world_ok N r" and "good_zones r"
  shows "world_ok N r'" "only_removes r r'" "coherent E r r'" "life r' = life r" "good_zones r'"
  using assms only_removes_zones by (auto simp: quiet_def safe_step_def)

lemma frame_removes: "world_frame zn P r r' \<Longrightarrow> only_removes r r'"
  unfolding world_frame_def only_removes_def by metis

lemma same_removes: "same_world r r' \<Longrightarrow> only_removes r r' \<and> life r' = life r"
  by (simp add: same_world_def only_removes_def life_def indexed_def file_there_def)

text \<open>Changes that leave counters, disk and index alone.\<close>

lemma coherent_same: "rq_ctx r' = rq_ctx r \<Longrightarrow> rq_metrics r' = rq_metrics r \<Longrightarrow> coherent E r r'"
  by (simp add: coherent_def metrics_ctx_def ctx_purged_def split: option.splits)

lemma quiet_same:
  assumes "same_world r r'" and "coherent E r r'"
  shows "quiet N E r r'"
  using assms same_removes world_ok_same by (intro quietI) blast

lemma quiet_purge_frame:
  assumes "world_ok N r \<Longrightarrow> good_zones r \<Longrightarrow> world_ok N r' \<and> purge_frame zn P r r'"
  shows "quiet N E r r'"
proof (rule quietI)
  assume a: "world_ok N r" "good_zones r"
  then have w: "world_ok N r'" "world_frame zn P r r'" "only_world r r'"
    using assms by (auto simp: purge_frame_def)
  from w(3) obtain d s where "r' = r\<lparr>rq_disk := d, rq_shm := s\<rparr>" by (auto simp: only_world_def)
  then have "life r' = life r" "coherent E r r'" by (simp_all add: life_def coherent_same)
  with w frame_removes show "world_ok N r' \<and> only_removes r r' \<and> coherent E r r' \<and> life r' = life r" by blast
qed

section \<open>Bookkeeping\<close>

lemma metrics_ctx_upd:
  "metrics_ctx E (upd_metrics E g r) = map_option g (metrics_ctx E r)"
  by (simp add: upd_metrics_def metrics_ctx_def split: option.splits)

lemma metrics_ctx_fields [simp]:
  "metrics_ctx E (r\<lparr>rq_ctx := c\<rparr>) = metrics_ctx E r" "metrics_ctx E (r\<lparr>rq_pool := pl\<rparr>) = metrics_ctx E r"
  by (simp_all add: metrics_ctx_def split: option.splits)

lemma get_request_ctx_coherent:
  assumes "get_request_ctx r = (c, r1)"
  shows "coherent E r r1" and "metrics_ctx E r1 = metrics_ctx E r"
    and "c = Some ctx \<Longrightarrow> rq_ctx r1 = Some ctx" and "ctx_purged t soft r1 = ctx_purged t soft r"
proof -
  have z: "ctx_purged t soft (r\<lparr>rq_pool := pl, rq_ctx := Some empty_ctx\<rparr>) = ctx_purged t soft r" if "rq_ctx r = None" for pl t soft
    using that by (cases t) (simp_all add: ctx_purged_def empty_ctx_def)
  have y: "ctx_purged t soft (r\<lparr>rq_pool := pl\<rparr>) = ctx_purged t soft r" for pl t soft by (simp add: ctx_purged_def)
  from assms show m: "metrics_ctx E r1 = metrics_ctx E r" "c = Some ctx \<Longrightarrow> rq_ctx r1 = Some ctx"
    by (auto simp: get_request_ctx_def split: option.splits prod.splits bool.splits)
  have e: "ctx_purged t soft r1 = ctx_purged t soft r" for t soft
    using assms z y by (auto simp: get_request_ctx_def split: option.splits prod.splits bool.splits)
  then show "ctx_purged t soft r1 = ctx_purged t soft r" .
  from m(1) e show "coherent E r r1" by (simp add: coherent_def)
qed

lemma ctx_purged_count:
  "rq_ctx r = Some c \<Longrightarrow> ctx_purged t2 soft2 (r\<lparr>rq_ctx := Some (count_ctx t soft n c)\<rparr>) =
     ctx_purged t2 soft2 r + (if t2 = t \<and> soft2 = soft then n else 0)"
  by (cases t; cases t2) (auto simp: ctx_purged_def count_ctx_def)

lemma shared_purged_count:
  "shared_purged t2 soft2 (count_purged t soft n m) =
     shared_purged t2 soft2 m + (if t2 = t \<and> soft2 = soft then n else 0)"
  by (cases t; cases t2) (auto simp: shared_purged_def count_purged_def)

lemma shared_purged_other [simp]:
  "shared_purged t2 soft2 (count_request t soft m) = shared_purged t2 soft2 m"
  "shared_purged t2 soft2 (m\<lparr>mt_key_index_exact_fanout := x\<rparr>) = shared_purged t2 soft2 m"
  "shared_purged t2 soft2 (m\<lparr>mt_key_index_wildcard_hits := x\<rparr>) = shared_purged t2 soft2 m"
  by (cases t; cases t2; auto simp: shared_purged_def count_request_def; fail)
    (cases t2; simp add: shared_purged_def; fail)+

lemma upd_metrics_coherent:
  assumes "\<And>t soft m. shared_purged t soft (g m) = shared_purged t soft m"
  shows "coherent E r (upd_metrics E g r)"
proof -
  have "ctx_purged t soft (upd_metrics E g r) = ctx_purged t soft r" for t soft
    by (simp add: ctx_purged_def)
  then show ?thesis using assms by (simp add: coherent_def metrics_ctx_upd)
qed

lemma record_purge_coherent: "coherent E r (record_purge E t soft n r)"
proof (cases "n = 0")
  case False
  obtain c r1 where g: "get_request_ctx r = (c, r1)" by fastforce
  note gc = get_request_ctx_coherent [OF g]
  show ?thesis
  proof (cases c)
    case None
    then show ?thesis using gc(1) g False by (simp add: record_purge_def)
  next
    case (Some ctx)
    let ?r2 = "upd_metrics E (count_purged t soft n) r1"
    have c: "rq_ctx ?r2 = Some ctx" using gc(3) Some by simp
    have "coherent E r1 (?r2\<lparr>rq_ctx := Some (count_ctx t soft n ctx)\<rparr>)"
    proof -
      have p: "ctx_purged t2 soft2 (?r2\<lparr>rq_ctx := Some (count_ctx t soft n ctx)\<rparr>) =
          ctx_purged t2 soft2 r1 + (if t2 = t \<and> soft2 = soft then n else 0)" for t2 soft2
        using ctx_purged_count [OF c, of t2 soft2 t soft n] by (simp add: ctx_purged_def)
      show ?thesis unfolding coherent_def p by (simp add: metrics_ctx_upd shared_purged_count)
    qed
    then show ?thesis using coherent_trans [OF gc(1)] g False Some by (simp add: record_purge_def)
  qed
qed (simp add: record_purge_def)

lemma set_ctx_coherent:
  "coherent E r (set_decline_reason reason r)" "coherent E r (set_response_path path r)"
proof -
  obtain c r1 where g: "get_request_ctx r = (c, r1)" by fastforce
  note gc = get_request_ctx_coherent [OF g]
  have "coherent E r1 (r1\<lparr>rq_ctx := Some (ctx\<lparr>cx_decline_reason := reason\<rparr>)\<rparr>)"
    "coherent E r1 (r1\<lparr>rq_ctx := Some (ctx\<lparr>cx_purge_path := path\<rparr>)\<rparr>)" if "c = Some ctx" for ctx
    using gc(3) [OF that] unfolding coherent_def ctx_purged_def by (simp_all split: purge_stats.split)
  then show "coherent E r (set_decline_reason reason r)" "coherent E r (set_response_path path r)"
    using gc(1) coherent_trans [OF gc(1)]
    by (auto simp: set_decline_reason_def set_response_path_def g split: option.splits)
qed

lemma quiet_bookkeeping [simp]:
  "quiet N E r (set_decline_reason reason r)"
  "quiet N E r (set_response_path path r)"
  "quiet N E r (record_purge E t soft n r)"
  "quiet N E r (record_response_purge E t soft n r)"
  "quiet N E r (record_purge_request E t soft r)"
  "quiet N E r (record_key_index_exact_fanout E r)"
  "quiet N E r (record_key_index_wildcard_hit E r)"
  "quiet N E r (r\<lparr>rq_pool := pl\<rparr>)"
  "quiet N E r (r\<lparr>rq_cycle_pool := pl, rq_store := sr\<rparr>)"
  by (rule quiet_same; simp add: set_ctx_coherent record_purge_coherent record_response_purge_def
      record_purge_request_def record_key_index_exact_fanout_def record_key_index_wildcard_hit_def
      upd_metrics_coherent coherent_same)+

lemma quiet_fanout [simp]: "quiet N E r (record_fanout E used r)"
  using quiet_trans [OF quiet_bookkeeping(2) quiet_bookkeeping(6)] by (simp add: record_fanout_def)

lemma key_index_ready_quiet:
  assumes "key_index_ready E cache r = (rc, zone, reader, r1)"
  shows "quiet N E r r1"
proof -
  have "quiet N E r (set_decline_reason x (r\<lparr>rq_cycle_pool := pl, rq_store := sr\<rparr>))" for x pl sr
    using quiet_trans [OF quiet_bookkeeping(9) quiet_bookkeeping(1)] .
  then show ?thesis using assms
    by (auto simp: key_index_ready_def Let_def split: if_splits option.splits prod.splits)
qed

section \<open>The purges are quiet\<close>

text \<open>The worker's index is written through a zone that was found in the tree of zones.\<close>

lemma drop_quiet:
  assumes "ngx_core_ok N" and "runtime_lookup_zone (rq_watch r) cache = Some zone"
  shows "quiet N E r (drop_from_index N E zone p r)"
proof (rule quiet_purge_frame)
  assume "world_ok N r" "good_zones r"
  moreover from this have "c_nul \<notin> set (iz_zone_name zone)" using assms(2) by (auto simp: good_zones_def good_zone_def)
  ultimately show "world_ok N (drop_from_index N E zone p r) \<and>
      purge_frame (iz_zone_name zone) {p} r (drop_from_index N E zone p r)"
    using index_step(1,2) [OF assms(1)] by blast
qed

lemma indexed_loop_quiet:
  assumes "ngx_core_ok N" "http_core_ok H" and "runtime_lookup_zone (rq_watch r) cache = Some zone"
    and "indexed_loop N H E (Some zone) True soft ps used count r = (rc, used', count', r')"
  shows "quiet N E r r'"
proof (rule quiet_purge_frame)
  assume "world_ok N r" "good_zones r"
  with assms(3) indexed_loop_spec [OF assms(1,2) _ _ assms(4)]
  show "world_ok N r' \<and> purge_frame (iz_zone_name zone) (set ps) r r'" by (auto simp: good_zones_def)
qed

lemma indexed_loop_rc:
  "indexed_loop N H E zone reader soft ps used count r = (rc, used', count', r') \<Longrightarrow> rc = NGX_OK \<or> rc = NGX_ERROR"
  by (induction ps arbitrary: used count r) (auto split: prod.splits if_splits)

lemma hard_fanout_quiet:
  assumes ok: "ngx_core_ok N" "http_core_ok H" and f: "hard_fanout N H E cache c r = (rc, used, n, r')"
  shows "quiet N E r r' \<and> (rc = NGX_OK \<or> rc = NGX_ERROR)"
proof -
  obtain rc1 z reader r1 where k: "key_index_ready E cache r = (rc1, z, reader, r1)" by (metis prod_cases4)
  note kc = key_index_ready_cases [OF k] and kq = key_index_ready_quiet [OF k, of N]
  obtain rc2 kt pl2 where t: "cache_key_text c (rq_pool r1) = (rc2, kt, pl2)" by (metis prod_cases3)
  let ?r2 = "r1\<lparr>rq_pool := pl2\<rparr>"
  have q2: "quiet N E r ?r2" using quiet_trans [OF kq quiet_bookkeeping(8)] .
  show ?thesis
  proof (cases "rc1 = NGX_OK \<and> rc2 = NGX_OK")
    case False
    then show ?thesis using f kq q2 by (auto simp: hard_fanout_def k t Let_def split: if_splits)
  next
    case True
    then obtain zone where z: "z = Some zone" "reader" "runtime_lookup_zone (rq_watch r) cache = Some zone"
      using kc(2) by blast
    have w: "rq_watch r1 = rq_watch r" using kc(1) by (simp add: same_world_def)
    let ?r3 = "drop_from_index N E zone (hc_file_name c) ?r2"
    obtain rc4 pl4 paths where col: "collect_paths_by_exact_key N (rq_shm ?r3) (rq_pool ?r3) (iz_zone_name zone) kt =
        (rc4, pl4, paths)" by (metis prod_cases3)
    let ?r4 = "?r3\<lparr>rq_pool := pl4\<rparr>"
    have w3: "rq_watch ?r4 = rq_watch r" using w by (simp add: drop_from_index_def split: prod.splits)
    have z2: "runtime_lookup_zone (rq_watch ?r2) cache = Some zone" using z(3) w by simp
    have q4: "quiet N E r ?r4"
      using quiet_trans [OF q2 quiet_trans [OF drop_quiet [OF ok(1) z2] quiet_bookkeeping(8)]] .
    have eq: "hard_fanout N H E cache c r = (if rc4 = NGX_OK \<and> paths \<noteq> []
        then indexed_loop N H E (Some zone) True False paths False 1 ?r4 else (NGX_OK, False, 1, ?r4))"
      using True z(1,2) col by (simp add: hard_fanout_def k t Let_def delete_index_path_def)
    have z4: "runtime_lookup_zone (rq_watch ?r4) cache = Some zone" using z(3) w3 by simp
    show ?thesis
    proof (cases "rc4 = NGX_OK \<and> paths \<noteq> []")
      case True
      then have l: "indexed_loop N H E (Some zone) True False paths False 1 ?r4 = (rc, used, n, r')" using eq f by simp
      show ?thesis using quiet_trans [OF q4 indexed_loop_quiet [OF ok z4 l]] indexed_loop_rc [OF l] by blast
    next
      case False
      then show ?thesis using eq f q4 by auto
    qed
  qed
qed

lemma soft_fanout_quiet:
  assumes ok: "ngx_core_ok N" "http_core_ok H" and f: "soft_fanout N H E cache c r = (rc, used, n, r')"
  shows "quiet N E r r' \<and> (rc = NGX_OK \<or> rc = NGX_ERROR)"
proof -
  obtain rc1 z reader r1 where k: "key_index_ready E cache r = (rc1, z, reader, r1)" by (metis prod_cases4)
  note kc = key_index_ready_cases [OF k] and kq = key_index_ready_quiet [OF k, of N]
  obtain rc2 kt pl2 where t: "cache_key_text c (rq_pool r1) = (rc2, kt, pl2)" by (metis prod_cases3)
  let ?r2 = "r1\<lparr>rq_pool := pl2\<rparr>"
  obtain rc3 pl3 paths where col: "collect_paths_by_exact_key N (rq_shm ?r2) (rq_pool ?r2) (iz_zone_name (the z)) kt =
      (rc3, pl3, paths)" by (metis prod_cases3)
  let ?r3 = "?r2\<lparr>rq_pool := pl3\<rparr>"
  have q2: "quiet N E r ?r2" using quiet_trans [OF kq quiet_bookkeeping(8)] .
  have q3: "quiet N E r ?r3" using quiet_trans [OF q2 quiet_bookkeeping(8)] .
  show ?thesis
  proof (cases "rc1 = NGX_OK \<and> rc2 = NGX_OK \<and> rc3 = NGX_OK \<and> paths \<noteq> []")
    case False
    then show ?thesis using f kq q2 q3 col by (auto simp: soft_fanout_def k t Let_def split: if_splits)
  next
    case True
    then obtain zone where z: "z = Some zone" "runtime_lookup_zone (rq_watch r) cache = Some zone"
      using kc(2) by blast
    have "rq_watch ?r3 = rq_watch r" using kc(1) by (simp add: same_world_def)
    then have z3: "runtime_lookup_zone (rq_watch ?r3) cache = Some zone" using z(2) by simp
    have l: "indexed_loop N H E (Some zone) True True paths False 1 ?r3 = (rc, used, n, r')"
      using f True col z(1) by (simp add: soft_fanout_def k t Let_def soft_fanout_loop_indexed [of N H _ _ _ _ E zone])
    show ?thesis using quiet_trans [OF q3 indexed_loop_quiet [OF ok z3 l]] indexed_loop_rc [OF l] by blast
  qed
qed

lemma partial_index_quiet:
  assumes ok: "ngx_core_ok N" "http_core_ok H" and f: "partial_index N H E cache soft prefix r = (rc, used, n, r')"
  shows "quiet N E r r' \<and> (rc = NGX_OK \<or> rc = NGX_ERROR)"
proof -
  obtain rc1 z reader r1 where k: "key_index_ready E cache r = (rc1, z, reader, r1)" by (metis prod_cases4)
  note kc = key_index_ready_cases [OF k] and kq = key_index_ready_quiet [OF k, of N]
  obtain rc2 pl2 paths where col: "collect_paths_by_key_prefix N (rq_shm r1) (rq_pool r1) (iz_zone_name (the z)) prefix =
      (rc2, pl2, paths)" by (metis prod_cases3)
  let ?r2 = "r1\<lparr>rq_pool := pl2\<rparr>"
  have q2: "quiet N E r ?r2" using quiet_trans [OF kq quiet_bookkeeping(8)] .
  show ?thesis
  proof (cases "rc1 = NGX_OK \<and> rc2 = NGX_OK \<and> paths \<noteq> []")
    case False
    then show ?thesis using f kq q2 by (auto simp: partial_index_def k col Let_def split: if_splits)
  next
    case True
    then obtain zone where z: "z = Some zone" "reader" "runtime_lookup_zone (rq_watch r) cache = Some zone"
      using kc(2) by blast
    have "rq_watch ?r2 = rq_watch r" using kc(1) by (simp add: same_world_def)
    then have z2: "runtime_lookup_zone (rq_watch ?r2) cache = Some zone" using z(3) by simp
    have l: "indexed_loop N H E (Some zone) True soft paths False 0 ?r2 = (rc, used, n, r')"
      using f True z(1,2) col by (simp add: partial_index_def k Let_def)
    show ?thesis using quiet_trans [OF q2 indexed_loop_quiet [OF ok z2 l]] indexed_loop_rc [OF l] by blast
  qed
qed

lemma quiet_disk_cache:
  assumes "world_ok N r \<Longrightarrow> world_ok N (r\<lparr>rq_cache := c, rq_disk := d\<rparr>) \<and> only_removes r (r\<lparr>rq_cache := c, rq_disk := d\<rparr>)"
  shows "quiet N E r (r\<lparr>rq_cache := c, rq_disk := d\<rparr>)"
  using assms by (intro quietI) (simp add: life_def coherent_same)

lemma release_quiet: "quiet N E r (release r)"
proof -
  obtain d c where d: "release_updating (rq_disk r) (the (rq_cache r)) = (d, c)" by fastforce
  have r: "release r = r\<lparr>rq_cache := Some c, rq_disk := d\<rparr>" by (simp add: release_def d)
  show ?thesis unfolding r
  proof (rule quiet_disk_cache)
    assume "world_ok N r"
    from release_frame [OF this] show "world_ok N (r\<lparr>rq_cache := Some c, rq_disk := d\<rparr>) \<and>
        only_removes r (r\<lparr>rq_cache := Some c, rq_disk := d\<rparr>)"
      using frame_removes [OF cache_frame_world] by (simp add: r)
  qed
qed

lemma open_cache_quiet:
  assumes "open_law E'" and "open_cache E' r = (st, r1)"
  shows "quiet N E r r1"
proof -
  obtain d c where r1: "r1 = r\<lparr>rq_cache := Some c, rq_disk := d\<rparr>"
    using assms(2) by (auto simp: open_cache_def split: prod.splits)
  show ?thesis unfolding r1
  proof (rule quiet_disk_cache)
    assume "world_ok N r"
    from open_cache_frame(1,2) [OF assms(1) this assms(2)] show "world_ok N (r\<lparr>rq_cache := Some c, rq_disk := d\<rparr>) \<and>
        only_removes r (r\<lparr>rq_cache := Some c, rq_disk := d\<rparr>)"
      using frame_removes [OF cache_frame_world] by (simp add: r1)
  qed
qed

lemma exact_purge_quiet:
  assumes ok: "ngx_core_ok N" "http_core_ok H" "open_law E" and p: "exact_purge N H E r = (rc, r')"
  shows "quiet N E r r'"
proof (rule quietI)
  assume inv: "world_ok N r" "good_zones r"
  obtain st r1 where o: "open_cache E r = (st, r1)" by fastforce
  note q1 = open_cache_quiet [OF ok(3) o, of N E] and op = open_cache_frame [OF ok(3) inv(1) o]
  let ?c = "the (rq_cache r1)"
  obtain rc2 r2 where d: "with_disk (\<lambda>d. delete_opened_file d ?c) r1 = (rc2, r2)" by fastforce
  obtain rc3 used n r3 where h: "hard_fanout N H E (hc_file_cache ?c) ?c (record_purge_request E STATS_EXACT False r2) =
      (rc3, used, n, r3)" by (metis prod_cases4)
  have "quiet N E r r'"
  proof (cases "st = Open_declined \<or> st = Open_again \<or> st = Open_other")
    case True
    then have "r' = r1 \<or> r' = set_decline_reason NOT_FOUND r1" using p by (auto simp: exact_purge_def o)
    then show ?thesis using q1 quiet_trans [OF q1 quiet_bookkeeping(1)] by auto
  next
    case False
    then obtain a where a: "hc_node ?c = Some a" "a \<in> dom (fc_nodes (dk_cache (rq_disk r1)))" using op(5) by auto
    note df = delete_opened_frame [OF op(1) a d]
    have q2: "quiet N E r1 r2"
    proof (rule quietI)
      have "life r2 = life r1" "coherent E r1 r2" by (subst df(6), simp add: life_def coherent_same)+
      then show "world_ok N r2 \<and> only_removes r1 r2 \<and> coherent E r1 r2 \<and> life r2 = life r1"
        using df(1) frame_removes [OF df(2)] by blast
    qed
    note q12 = quiet_trans [OF q1 q2]
    have q3: "quiet N E r r3" using quiet_trans [OF q12 quiet_trans [OF quiet_bookkeeping(5)]] hard_fanout_quiet [OF ok(1,2) h] by blast
    have q4: "quiet N E r3 (release (record_purge E STATS_EXACT False (of_nat n) (record_fanout E used r3)))"
      using quiet_trans [OF quiet_fanout quiet_trans [OF quiet_bookkeeping(3) release_quiet]] .
    have "r' = set_decline_reason NOT_FOUND r2 \<or> r' = release r3 \<or>
        r' = release (record_purge E STATS_EXACT False (of_nat n) (record_fanout E used r3))"
      using p False h by (auto simp: exact_purge_def o Let_def d split: if_splits)
    then show ?thesis using quiet_trans [OF q12 quiet_bookkeeping(1)] quiet_trans [OF q3 release_quiet] quiet_trans [OF q3 q4]
      by auto
  qed
  from quietD [OF this inv] show "world_ok N r' \<and> only_removes r r' \<and> coherent E r r' \<and> life r' = life r" by blast
qed

lemma exact_purge_soft_quiet:
  assumes ok: "ngx_core_ok N" "http_core_ok H" "open_law E" and p: "exact_purge_soft N H E r = (rc, r')"
  shows "quiet N E r r'"
proof (rule quietI)
  assume inv: "world_ok N r" "good_zones r"
  obtain st r1 where o: "open_cache E r = (st, r1)" by fastforce
  note q1 = open_cache_quiet [OF ok(3) o, of N E] and op = open_cache_frame [OF ok(3) inv(1) o]
  let ?c = "the (rq_cache r1)"
  obtain rc2 o2 where sh: "soft_header H (dk_os (rq_disk r1)) (hc_file_name ?c) = (rc2, o2)" by fastforce
  note sc = soft_header_cases [OF ok(2) sh]
  let ?d3 = "(rq_disk r1)\<lparr>dk_os := o2, dk_cache := upd_node (\<lambda>n. n\<lparr>cn_valid_sec := 0\<rparr>) (the (hc_node ?c)) (dk_cache (rq_disk r1))\<rparr>"
  let ?r3 = "r1\<lparr>rq_cache := Some (?c\<lparr>hc_valid_sec := 0\<rparr>), rq_disk := ?d3\<rparr>"
  obtain rc4 used n r4 where h: "soft_fanout N H E (hc_file_cache ?c) (?c\<lparr>hc_valid_sec := 0\<rparr>) ?r3 = (rc4, used, n, r4)"
    by (metis prod_cases4)
  let ?torn = "r1\<lparr>rq_disk := (rq_disk r1)\<lparr>dk_os := o2\<rparr>\<rparr>"
  have files: "os_files o2 q \<noteq> None \<Longrightarrow> os_files (dk_os (rq_disk r1)) q \<noteq> None" for q
  proof (cases "rc2 = NGX_OK")
    case True
    from sc(1) [OF True] show "os_files o2 q \<noteq> None \<Longrightarrow> os_files (dk_os (rq_disk r1)) q \<noteq> None" by (auto split: if_splits)
  next
    case False
    from sc(2) [OF False] show "os_files o2 q \<noteq> None \<Longrightarrow> os_files (dk_os (rq_disk r1)) q \<noteq> None" by (auto split: if_splits)
  qed
  have qt: "quiet N E r1 ?torn"
    by (rule quietI) (use files in \<open>simp add: world_ok_def only_removes_def indexed_def file_there_def life_def coherent_same\<close>)
  have q3: "quiet N E r1 ?r3"
  proof (rule quiet_disk_cache)
    assume "world_ok N r1"
    then have c1: "cache_ok (dk_cache (rq_disk r1))" by (simp add: world_ok_def)
    note un = upd_node_keeps [OF c1, of "\<lambda>n. n\<lparr>cn_valid_sec := 0\<rparr>" "the (hc_node ?c)", simplified]
    show "world_ok N ?r3 \<and> only_removes r1 ?r3"
      using \<open>world_ok N r1\<close> un files by (simp add: world_ok_def only_removes_def indexed_def file_there_def)
  qed
  note q4 = quiet_trans [OF quiet_trans [OF q1 q3] conjunct1 [OF soft_fanout_quiet [OF ok(1,2) h]]]
  have q5: "quiet N E r4 (release (record_purge E STATS_EXACT True (of_nat n)
      (record_fanout E used (record_purge_request E STATS_EXACT True r4))))"
    using quiet_trans [OF quiet_trans [OF quiet_bookkeeping(5) quiet_fanout] quiet_trans [OF quiet_bookkeeping(3) release_quiet]] .
  have "r' = r1 \<or> r' = set_decline_reason NOT_FOUND r1 \<or> r' = ?torn \<or> r' = set_decline_reason NOT_FOUND ?torn \<or>
      r' = release r4 \<or> r' = release (record_purge E STATS_EXACT True (of_nat n)
        (record_fanout E used (record_purge_request E STATS_EXACT True r4)))"
  proof (cases "st = Open_declined \<or> st = Open_again \<or> st = Open_other \<or>
      \<not> cn_exists (the (fc_nodes (dk_cache (rq_disk r1)) (the (hc_node ?c))))")
    case True
    then have "r' = r1 \<or> r' = set_decline_reason NOT_FOUND r1"
      using p unfolding exact_purge_soft_def o prod.case Let_def by (auto split: if_splits)
    then show ?thesis by blast
  next
    case open': False
    show ?thesis
    proof (cases "rc2 = NGX_OK")
      case True
      then show ?thesis using p h open' by (simp add: exact_purge_soft_def o sh Let_def split: if_splits)
    next
      case False
      then have "r' = ?torn \<or> r' = set_decline_reason NOT_FOUND ?torn"
        using p open' unfolding exact_purge_soft_def o prod.case Let_def sh by (auto split: if_splits)
      then show ?thesis by blast
    qed
  qed
  then have "quiet N E r r'"
    using q1 quiet_trans [OF q1 quiet_bookkeeping(1)] quiet_trans [OF q1 qt] quiet_trans [OF q4 release_quiet]
      quiet_trans [OF q4 q5] quiet_trans [OF quiet_trans [OF q1 qt] quiet_bookkeeping(1)] by metis
  from quietD [OF this inv] show "world_ok N r' \<and> only_removes r r' \<and> coherent E r r' \<and> life r' = life r" by blast
qed

lemma walk_quiet:
  assumes "http_core_ok H" and "partial_walk N H root soft pc (rq_disk r) = (ok, pc', d')"
  shows "quiet N E r (r\<lparr>rq_disk := d'\<rparr>)"
proof (rule quietI)
  assume "world_ok N r" "good_zones r"
  with partial_walk_world [OF assms(1) _ assms(2)]
  show "world_ok N (r\<lparr>rq_disk := d'\<rparr>) \<and> only_removes r (r\<lparr>rq_disk := d'\<rparr>) \<and> coherent E r (r\<lparr>rq_disk := d'\<rparr>) \<and>
      life (r\<lparr>rq_disk := d'\<rparr>) = life r"
    by (simp add: world_ok_def only_removes_def indexed_def file_there_def life_def coherent_same)
qed

lemma purge_all_quiet:
  assumes "http_core_ok H" and "purge_all N H E r = (rc, r')"
  shows "quiet N E r r'" and "rc = NGX_OK \<or> rc = NGX_ERROR"
proof -
  obtain ok pc d1 where w: "partial_walk N H (fc_path (dk_cache (rq_disk r))) (pc_soft (purge_conf E))
      \<lparr>pc_key_partial = [], pc_purged = 0\<rparr> (rq_disk r) = (ok, pc, d1)" by (metis prod_cases3)
  note q = walk_quiet [OF assms(1) w, of E]
  show "quiet N E r r'" "rc = NGX_OK \<or> rc = NGX_ERROR"
    using assms(2) q quiet_trans [OF q quiet_trans [OF quiet_bookkeeping(3) quiet_bookkeeping(5)]]
    by (auto simp: purge_all_eq w split: if_splits)
qed

lemma index_purge_quiet:
  assumes ok: "ngx_core_ok N" "http_core_ok H" and p: "index_purge N H E cache tags r = (rc, r')"
  shows "quiet N E r r'" and "rc \<noteq> NGX_DONE"
proof -
  let ?soft = "request_mode N E (pc_soft (purge_conf E))"
  obtain found pl sr where rd: "store_reader (en_main E) (en_ready E) (rq_cycle_pool r) (rq_store r) = (found, pl, sr)"
    by (metis prod_cases3)
  let ?r1 = "r\<lparr>rq_cycle_pool := pl, rq_store := sr\<rparr>"
  have "quiet N E r r' \<and> rc \<noteq> NGX_DONE"
  proof (cases "runtime_lookup_zone (rq_watch r) cache")
    case None
    then show ?thesis using p by (auto simp: index_purge_def Let_def split: if_splits)
  next
    case (Some zone)
    let ?zn = "iz_zone_name zone"
    obtain rc1 st where st: "get_zone_state (en_now E) (rq_shm r) ?zn = (rc1, st)" by fastforce
    obtain rc2 pl2 paths where col: "collect_paths_by_tags N (rq_shm r) (rq_pool r) ?zn (Some tags) = (rc2, pl2, paths)"
      by (metis prod_cases3)
    let ?r2 = "?r1\<lparr>rq_pool := pl2\<rparr>"
    obtain rc3 purged r3 where l: "tag_loop N H E zone ?soft paths 0 ?r2 = (rc3, purged, r3)" by (metis prod_cases3)
    have q2: "quiet N E r ?r2" using quiet_trans [OF quiet_bookkeeping(9) quiet_bookkeeping(8)] .
    have q3: "quiet N E ?r2 r3"
    proof (rule quiet_purge_frame)
      assume i: "world_ok N ?r2" "good_zones ?r2"
      then have "good_zone zone" using Some by (auto simp: good_zones_def)
      from tag_loop_spec [OF ok this i(1) l] show "world_ok N r3 \<and> purge_frame ?zn (set paths) ?r2 r3" by blast
    qed
    note q23 = quiet_trans [OF q2 q3]
    note qd = quiet_trans [OF quiet_bookkeeping(9) quiet_bookkeeping(1)]
    have "rc \<noteq> NGX_DONE \<and> (r' = r \<or> r' = ?r1 \<or> r' = ?r2 \<or> r' = r3 \<or> (\<exists>x. r' = set_decline_reason x r) \<or>
        (\<exists>x. r' = set_decline_reason x ?r1) \<or> r' = set_decline_reason NOT_FOUND r3 \<or>
        r' = set_response_path REUSED_PERSISTED_INDEX (record_response_purge E STATS_TAG ?soft (of_nat purged) r3))"
      using p by (auto simp: index_purge_def Let_def Some rd st col l split: if_splits)
    then show ?thesis
      using q2 q23 qd [of N E r] quiet_trans [OF q23 quiet_bookkeeping(1)]
        quiet_trans [OF q23 quiet_trans [OF quiet_bookkeeping(4) quiet_bookkeeping(2)]]
      by auto
  qed
  then show "quiet N E r r'" "rc \<noteq> NGX_DONE" by auto
qed

section \<open>The life of a request\<close>

text \<open>A request ends a run of its handler in one of three ways: it is finalized, with at most one
  response; it waits for its cache file to be read; or it waits for a thread.\<close>

definition answered :: "req \<Rightarrow> req \<Rightarrow> bool" where
  "answered r r' \<longleftrightarrow> (\<exists>x rs. rq_final r' = rq_final r @ [x] \<and> rq_responses r' = rq_responses r @ rs \<and> length rs \<le> 1 \<and>
     rq_count r' = rq_count r \<and> rq_blocked r' = rq_blocked r \<and> rq_aio r' = rq_aio r \<and> rq_task r' = rq_task r)"

definition waits :: "req \<Rightarrow> req \<Rightarrow> bool" where
  "waits r r' \<longleftrightarrow> life r' = (rq_final r, rq_responses r, rq_count r, rq_blocked r, rq_aio r, rq_task r, Purge_handler)"

definition offloaded :: "req \<Rightarrow> req \<Rightarrow> bool" where
  "offloaded r r' \<longleftrightarrow> (\<exists>t. life r' = (rq_final r, rq_responses r, rq_count r, rq_blocked r + 1, True, Some t, rq_write_event r))"

lemma safe_same:
  assumes "rq_disk r' = rq_disk r" "rq_shm r' = rq_shm r" "rq_watch r' = rq_watch r"
    and "rq_ctx r' = rq_ctx r" "rq_metrics r' = rq_metrics r"
  shows "safe_step N E r r'"
  using assms by (simp add: safe_step_def world_ok_def only_removes_def indexed_def file_there_def coherent_same)

lemma life_trans:
  "life r1 = life r \<Longrightarrow> answered r1 r2 = answered r r2" "life r1 = life r \<Longrightarrow> waits r1 r2 = waits r r2"
  "life r1 = life r \<Longrightarrow> offloaded r1 r2 = offloaded r r2"
  by (simp_all add: life_def answered_def waits_def offloaded_def)

lemma partial_offload_life:
  assumes "partial_offload E' soft key r = (rc, r')"
  shows "safe_step N E r r'" and "rc \<noteq> NGX_DONE \<Longrightarrow> quiet N E r r'" and "rc = NGX_DONE \<Longrightarrow> offloaded r r'"
proof -
  obtain b1 pl1 where a1: "pool_alloc (rq_pool r) = (b1, pl1)" by fastforce
  obtain b2 pl2 where a2: "(if length key > 0 then pool_alloc pl1 else (True, pl1)) = (b2, pl2)" by fastforce
  let ?t = "\<lparr>tk_root = fc_path (dk_cache (rq_disk r)), tk_soft = soft,
             tk_partial = \<lparr>pc_key_partial = key, pc_purged = 0\<rparr>, tk_rc = NGX_ERROR\<rparr>"
  let ?r2 = "r\<lparr>rq_pool := pl2, rq_blocked := rq_blocked r + 1, rq_aio := True, rq_task := Some ?t\<rparr>"
  consider (mem) pl where "rc = NGX_ERROR" "r' = r\<lparr>rq_pool := pl\<rparr>"
    | (go) "rc = NGX_DONE" "r' = set_response_path FILESYSTEM_FALLBACK ?r2"
  proof (cases "b1 \<and> b2 \<and> en_post E' = NGX_OK")
    case True
    then have t: "b1 = True" "b2 = True" by simp_all
    show thesis using assms True go unfolding partial_offload_def a1 [unfolded t] prod.case bool.case a2 [unfolded t] by simp
  next
    case False
    then have "rc = NGX_ERROR \<and> (\<exists>pl. r' = r\<lparr>rq_pool := pl\<rparr>)"
      using assms a2 unfolding partial_offload_def a1 prod.case by (cases b1; cases b2) auto
    then show thesis using mem by blast
  qed
  then have "safe_step N E r r' \<and> (rc \<noteq> NGX_DONE \<longrightarrow> quiet N E r r') \<and> (rc = NGX_DONE \<longrightarrow> offloaded r r')"
  proof cases
    case mem
    have "quiet N E r r'" unfolding mem(2) by (rule quiet_bookkeeping(8))
    then show ?thesis using mem(1) by (simp add: quiet_def)
  next
    case go
    have q: "safe_step N E ?r2 r'" using quiet_bookkeeping(2) go(2) by (simp add: quiet_def)
    have "safe_step N E r ?r2" by (rule safe_same) simp_all
    moreover have "same_world ?r2 r'" using go(2) by simp
    then have "offloaded r r'" using same_removes [of ?r2 r'] by (simp add: offloaded_def life_def)
    ultimately show ?thesis using safe_trans [OF _ q] go(1) by blast
  qed
  then show "safe_step N E r r'" "rc \<noteq> NGX_DONE \<Longrightarrow> quiet N E r r'" "rc = NGX_DONE \<Longrightarrow> offloaded r r'" by blast+
qed

lemma partial_sync_quiet:
  assumes H: "http_core_ok H" and p: "partial_sync N H E soft key r = (rc, r')"
  shows "quiet N E r r'" and "rc = NGX_OK \<or> rc = NGX_ERROR"
proof -
  obtain b1 pl1 where a1: "pool_alloc (rq_pool r) = (b1, pl1)" by fastforce
  obtain b2 pl2 where a2: "(if length key > 0 then pool_alloc pl1 else (True, pl1)) = (b2, pl2)" by fastforce
  let ?r2 = "set_response_path FILESYSTEM_FALLBACK (r\<lparr>rq_pool := pl2\<rparr>)"
  obtain b ctx d1 where w: "partial_walk N H (fc_path (dk_cache (rq_disk ?r2))) soft
      \<lparr>pc_key_partial = key, pc_purged = 0\<rparr> (rq_disk ?r2) = (b, ctx, d1)" by (metis prod_cases3)
  let ?r3 = "?r2\<lparr>rq_disk := d1\<rparr>"
  have q3: "quiet N E r ?r3"
    using quiet_trans [OF quiet_trans [OF quiet_bookkeeping(8) quiet_bookkeeping(2)] walk_quiet [OF H w]] .
  have "quiet N E r r' \<and> (rc = NGX_OK \<or> rc = NGX_ERROR)"
  proof (cases "b1 \<and> b2")
    case True
    then have t: "b1 = True" "b2 = True" by simp_all
    have "partial_sync N H E soft key r = (if \<not> b then (NGX_ERROR, ?r3) else (NGX_OK,
        record_purge_request E STATS_WILDCARD soft (record_purge E STATS_WILDCARD soft (of_nat (pc_purged ctx)) ?r3)))"
      unfolding partial_sync_def a1 [unfolded t] prod.case bool.case a2 [unfolded t] Let_def w by simp
    then show ?thesis
      using p q3 quiet_trans [OF q3 quiet_trans [OF quiet_bookkeeping(3) quiet_bookkeeping(5)]] by (auto split: if_splits)
  next
    case False
    then have "rc = NGX_ERROR \<and> (\<exists>pl. r' = r\<lparr>rq_pool := pl\<rparr>)"
      using p a2 unfolding partial_sync_def a1 prod.case by (cases b1) auto
    then show ?thesis by auto
  qed
  then show "quiet N E r r'" "rc = NGX_OK \<or> rc = NGX_ERROR" by auto
qed

lemma partial_purge_life:
  assumes ok: "ngx_core_ok N" "http_core_ok H" and p: "partial_purge N H E cache r = (rc, r')"
  shows "safe_step N E r r'" and "rc \<noteq> NGX_DONE \<Longrightarrow> quiet N E r r'"
    and "rc = NGX_DONE \<Longrightarrow> world_ok N r \<Longrightarrow> good_zones r \<Longrightarrow> offloaded r r'"
    and "rc \<noteq> NGX_DECLINED"
proof -
  let ?keys = "hc_keys (the (rq_cache r))" and ?soft = "request_mode N E (pc_soft (purge_conf E))"
  let ?key = "take (length (?keys ! 0) - 1) (?keys ! 0)"
  obtain b1 pl1 where a1: "pool_alloc (rq_pool r) = (b1, pl1)" by fastforce
  let ?r1 = "r\<lparr>rq_pool := pl1\<rparr>"
  obtain rc1 used n r2 where i: "partial_index N H E cache ?soft (key_prefix ?keys) ?r1 = (rc1, used, n, r2)"
    by (metis prod_cases4)
  note q2 = quiet_trans [OF quiet_bookkeeping(8) conjunct1 [OF partial_index_quiet [OF ok i]]]
  have q3: "quiet N E r (record_purge_request E STATS_WILDCARD ?soft (record_key_index_wildcard_hit E
      (record_purge E STATS_WILDCARD ?soft (of_nat n) (set_response_path WILDCARD_INDEX r2))))"
    using quiet_trans [OF quiet_trans [OF q2 quiet_bookkeeping(2)]
        quiet_trans [OF quiet_bookkeeping(3) quiet_trans [OF quiet_bookkeeping(7) quiet_bookkeeping(5)]]] .
  consider (early) "rc = NGX_ERROR" "r' = r \<or> r' = ?r1 \<or> r' = r2"
    | (index) "rc = NGX_OK" "r' = record_purge_request E STATS_WILDCARD ?soft (record_key_index_wildcard_hit E
      (record_purge E STATS_WILDCARD ?soft (of_nat n) (set_response_path WILDCARD_INDEX r2)))"
    | (thread) "partial_offload E ?soft ?key r2 = (rc, r')" | (sync) "partial_sync N H E ?soft ?key r2 = (rc, r')"
  proof (cases "?keys = [] \<or> length (?keys ! 0) = 0 \<or> length (key_prefix ?keys) = 0 \<or> \<not> b1")
    case True
    then consider "?keys = []" | "?keys \<noteq> []" "length (?keys ! 0) = 0"
      | "?keys \<noteq> []" "length (?keys ! 0) \<noteq> 0" "length (key_prefix ?keys) = 0"
      | "?keys \<noteq> []" "length (?keys ! 0) \<noteq> 0" "length (key_prefix ?keys) \<noteq> 0" "b1 = False" by blast
    then have "partial_purge N H E cache r = (NGX_ERROR, r) \<or> partial_purge N H E cache r = (NGX_ERROR, ?r1)"
      by cases (simp_all only: partial_purge_def Let_def a1 prod.case bool.case if_True if_False simp_thms)
    then show thesis using p early by auto
  next
    case False
    then have c: "(?keys = []) = False" "(length (?keys ! 0) = 0) = False" "(length (key_prefix ?keys) = 0) = False"
      "b1 = True" by blast+
    have "partial_purge N H E cache r = (if rc1 \<noteq> NGX_OK then (NGX_ERROR, r2) else if used then
        (NGX_OK, record_purge_request E STATS_WILDCARD ?soft (record_key_index_wildcard_hit E
           (record_purge E STATS_WILDCARD ?soft (of_nat n) (set_response_path WILDCARD_INDEX r2))))
        else if en_thread_pool E then partial_offload E ?soft ?key r2 else partial_sync N H E ?soft ?key r2)"
      by (simp only: partial_purge_def Let_def a1 c prod.case bool.case if_False i [unfolded c(4)])
    note eq = this [unfolded p]
    show thesis
    proof (cases "rc1 \<noteq> NGX_OK")
      case True
      then have "(rc, r') = (NGX_ERROR, r2)" using eq by (simp only: if_True simp_thms)
      then show thesis using early by blast
    next
      case rc1: False
      show thesis
      proof (cases used)
        case True
        then show thesis using eq index rc1 by (simp only: if_True if_False prod.inject simp_thms)
      next
        case False
        then show thesis using eq thread sync rc1 by (simp only: if_False simp_thms split: if_splits)
      qed
    qed
  qed
  then have "safe_step N E r r' \<and> (rc \<noteq> NGX_DONE \<longrightarrow> quiet N E r r') \<and>
      (rc = NGX_DONE \<and> world_ok N r \<and> good_zones r \<longrightarrow> offloaded r r') \<and> rc \<noteq> NGX_DECLINED"
  proof cases
    case early
    then have "quiet N E r r'" using q2 by auto
    then show ?thesis using early(1) by (simp add: quiet_def)
  next
    case index
    then show ?thesis using q3 by (simp add: quiet_def)
  next
    case thread
    note o = partial_offload_life [OF thread]
    have "offloaded r r'" if "rc = NGX_DONE" "world_ok N r" "good_zones r"
      using o(3) [OF that(1)] quietD(4) [OF q2 that(2,3)] life_trans(3) by blast
    moreover have "rc \<noteq> NGX_DECLINED" using partial_offload_cases [OF thread] by auto
    ultimately show ?thesis using quiet_safe [OF q2 o(1)] quiet_trans [OF q2 o(2)] by blast
  next
    case sync
    note s = partial_sync_quiet [OF ok(2) sync]
    then show ?thesis using quiet_trans [OF q2 s(1)] by (auto simp: quiet_def)
  qed
  then show "safe_step N E r r'" "rc \<noteq> NGX_DONE \<Longrightarrow> quiet N E r r'"
    "rc = NGX_DONE \<Longrightarrow> world_ok N r \<Longrightarrow> good_zones r \<Longrightarrow> offloaded r r'" "rc \<noteq> NGX_DECLINED" by blast+
qed

lemma request_tags_quiet:
  assumes "request_tags N E' r = (rc, tags, r1)"
  shows "quiet N E r r1"
  using assms by (auto simp: request_tags_def split: prod.splits)

lemma dispatch_life:
  assumes ok: "ngx_core_ok N" "http_core_ok H" and p: "dispatch_special N H E cache r = (rc, handled, r')"
  shows "safe_step N E r r'" and "rc \<noteq> NGX_DONE \<Longrightarrow> quiet N E r r'"
    and "rc = NGX_DONE \<Longrightarrow> handled" and "rc = NGX_DONE \<Longrightarrow> world_ok N r \<Longrightarrow> good_zones r \<Longrightarrow> offloaded r r'"
proof -
  obtain rc0 tags r0 where t: "request_tags N E r = (rc0, tags, r0)" by (metis prod_cases3)
  note q0 = request_tags_quiet [OF t, of E]
  obtain rc1 r1 where x: "index_purge N H E cache (the tags) r0 = (rc1, r1)" by fastforce
  obtain rc2 r2 where a: "purge_all N H E r0 = (rc2, r2)" by fastforce
  obtain rc3 r3 where w: "partial_purge N H E cache r0 = (rc3, r3)" by fastforce
  note qx = quiet_trans [OF q0 index_purge_quiet(1) [OF ok x]] and qa = quiet_trans [OF q0 purge_all_quiet(1) [OF ok(2) a]]
  consider (none) "rc = NGX_ERROR \<or> rc = NGX_OK" "r' = r0"
    | (tags) "handled" "rc = rc1 \<or> rc = NGX_OK" "r' = r1 \<or> r' = record_purge_request E STATS_TAG (request_mode N E (pc_soft (purge_conf E))) r1"
    | (all) "handled" "rc = rc2" "r' = r2" | (prefix) "handled" "rc = rc3" "r' = r3"
    using p by (auto simp: dispatch_special_def t x a w Let_def split: if_splits)
  then have "safe_step N E r r' \<and> (rc \<noteq> NGX_DONE \<longrightarrow> quiet N E r r') \<and> (rc = NGX_DONE \<longrightarrow> handled) \<and>
      (rc = NGX_DONE \<and> world_ok N r \<and> good_zones r \<longrightarrow> offloaded r r')"
  proof cases
    case none
    then show ?thesis using q0 by (auto simp: quiet_def)
  next
    case tags
    then have "quiet N E r r'" using qx quiet_trans [OF qx quiet_bookkeeping(5)] by auto
    then show ?thesis using tags(2) index_purge_quiet(2) [OF ok x] by (auto simp: quiet_def)
  next
    case all
    then show ?thesis using qa purge_all_quiet(2) [OF ok(2) a] by (auto simp: quiet_def)
  next
    case prefix
    note l = partial_purge_life [OF ok w]
    have "offloaded r r'" if "rc = NGX_DONE" "world_ok N r" "good_zones r"
      using l(3) prefix that quietD [OF q0 that(2,3)] life_trans(3) by blast
    then show ?thesis using prefix quiet_safe [OF q0 l(1)] quiet_trans [OF q0 l(2)] by blast
  qed
  then show "safe_step N E r r'" "rc \<noteq> NGX_DONE \<Longrightarrow> quiet N E r r'" "rc = NGX_DONE \<Longrightarrow> handled"
    "rc = NGX_DONE \<Longrightarrow> world_ok N r \<Longrightarrow> good_zones r \<Longrightarrow> offloaded r r'" by blast+
qed

section \<open>The handlers\<close>

lemma send_body_life:
  assumes "send_body E' status ctype body r = (rc, r')"
  shows "safe_step N E r r'" and "\<exists>x. r' = r\<lparr>rq_responses := rq_responses r @ [x]\<rparr>"
proof -
  from assms show x: "\<exists>x. r' = r\<lparr>rq_responses := rq_responses r @ [x]\<rparr>"
    by (auto simp: send_body_def Let_def split: if_splits)
  then obtain x where "r' = r\<lparr>rq_responses := rq_responses r @ [x]\<rparr>" by blast
  then show "safe_step N E r r'" by (auto intro: safe_same)
qed

text \<open>\<open>responds\<close>: at most one response is added, nothing else of the life of the request changes.\<close>

definition responds :: "req \<Rightarrow> req \<Rightarrow> bool" where
  "responds r r' \<longleftrightarrow> (\<exists>rs. length rs \<le> 1 \<and> life r' = life (r\<lparr>rq_responses := rq_responses r @ rs\<rparr>))"

lemma responds_refl: "life r' = life r \<Longrightarrow> responds r r'"
  unfolding responds_def by (rule exI [of _ "[]"]) (simp add: life_def)

lemma send_response_life:
  assumes "send_response E' r = (rc, r')"
  shows "safe_step N E r r'" and "responds r r'"
proof -
  let ?text = "lc_resptype (en_loc E') = Some RESPONSE_TYPE_TEXT"
  let ?key = "hc_keys (the (rq_cache r)) ! 0"
  obtain ctx r1 where g: "get_request_ctx r = (ctx, r1)" by fastforce
  have s1: "same_world r r1" using get_request_ctx_world [OF g, of r] by simp
  have q1: "quiet N E r r1" using quiet_same [OF s1] get_request_ctx_coherent(1) [OF g] by blast
  have l1: "life r1 = life r" using same_removes [OF s1] by blast
  let ?kd = "if ?text then ?key else json_escape ?key"
  let ?body = "slprintf (body_templ_text_size + length ?kd + length (response_path_value r1) + 256 + 1) []
      (if ?text then body_text ?kd else body_json ?kd (response_path_value r1) ctx)"
  let ?ct = "if ?text then content_type_text else content_type_json"
  consider (none) "r' = r" | (mem) pl where "r' = r1\<lparr>rq_pool := pl\<rparr>"
    | (head) pl x where "r' = r1\<lparr>rq_pool := pl, rq_responses := rq_responses r1 @ [x]\<rparr>"
    | (body) pl where "send_body E' 200 ?ct ?body (r1\<lparr>rq_pool := pl\<rparr>) = (rc, r')"
  proof (cases "hc_keys (the (rq_cache r)) = []")
    case True
    then show thesis using assms none by (simp add: send_response_def)
  next
    case False
    obtain b2 pl2 where a2: "pool_alloc (rq_pool r1) = (b2, pl2)" by fastforce
    obtain b3 pl3 where a3: "pool_alloc pl2 = (b3, pl3)" by fastforce
    obtain b4 pl4 where a4: "pool_alloc pl3 = (b4, pl4)" by fastforce
    note d = assms [unfolded send_response_def Let_def, simplified False if_False g prod.case a2]
    show thesis
    proof (cases "b2 \<and> b3 \<and> (en_head E' \<or> b4)")
      case True
      then show thesis using d a3 a4 head body by (cases "en_head E'") auto
    next
      case False
      then show thesis using d a3 a4 mem by (cases b2; cases b3) auto
    qed
  qed
  then have "safe_step N E r r' \<and> responds r r'"
  proof cases
    case none
    then show ?thesis by (simp add: responds_refl)
  next
    case mem
    have "quiet N E r r'" unfolding mem using quiet_trans [OF q1 quiet_bookkeeping(8)] .
    then show ?thesis using l1 by (simp add: quiet_def responds_refl mem life_def)
  next
    case head
    have "safe_step N E r1 r'" unfolding head by (rule safe_same) simp_all
    moreover have "responds r r'" unfolding responds_def head using l1 by (intro exI [of _ "[x]"]) (simp add: life_def)
    ultimately show ?thesis using quiet_safe [OF q1] by blast
  next
    case body
    note sb = send_body_life [OF body]
    have "safe_step N E r r'" using quiet_safe [OF q1 quiet_safe [OF quiet_bookkeeping(8) sb(1)]] .
    moreover obtain x where "r' = (r1\<lparr>rq_pool := pl\<rparr>)\<lparr>rq_responses := rq_responses (r1\<lparr>rq_pool := pl\<rparr>) @ [x]\<rparr>"
      using sb(2) by blast
    then have "responds r r'" unfolding responds_def using l1 by (intro exI [of _ "[x]"]) (simp add: life_def)
    ultimately show ?thesis by blast
  qed
  then show "safe_step N E r r'" "responds r r'" by blast+
qed

lemma send_decline_life:
  assumes "send_decline_response E' r = (rc, r')"
  shows "safe_step N E r r'" and "responds r r'"
proof -
  obtain b pl where a: "pool_alloc (rq_pool r) = (b, pl)" by fastforce
  let ?r1 = "r\<lparr>rq_pool := pl\<rparr>"
  have "safe_step N E r r' \<and> responds r r'"
  proof (cases b)
    case True
    then have "send_body E' 412 content_type_json (slprintf (length decline_template + length (decline_reason_value r)) []
        (decline_body (decline_reason_value r))) ?r1 = (rc, r')"
      using assms a by (simp add: send_decline_response_def Let_def)
    note sb = send_body_life [OF this]
    obtain x where "r' = ?r1\<lparr>rq_responses := rq_responses ?r1 @ [x]\<rparr>" using sb(2) by blast
    then have "responds r r'" unfolding responds_def by (intro exI [of _ "[x]"]) (simp add: life_def)
    then show ?thesis using quiet_safe [OF quiet_bookkeeping(8) sb(1)] by blast
  next
    case False
    then have "r' = ?r1" using assms a by (simp add: send_decline_response_def Let_def)
    then show ?thesis using quiet_bookkeeping(8) by (simp add: quiet_def responds_refl life_def)
  qed
  then show "safe_step N E r r'" "responds r r'" by blast+
qed

lemma finalize_life:
  "safe_step N E r (finalize x r)"
  by (rule safe_same) (simp_all add: finalize_def)

lemma answered_responds: "responds r r' \<Longrightarrow> answered r (finalize x r')"
  unfolding responds_def answered_def by (auto simp: life_def finalize_def)

lemma respond_life: "safe_step N E r (respond E' r)" "answered r (respond E' r)"
proof -
  obtain rc r1 where s: "send_response E' r = (rc, r1)" by fastforce
  note l = send_response_life [OF s]
  show "safe_step N E r (respond E' r)" using safe_trans [OF l(1) finalize_life] by (simp add: respond_def s)
  show "answered r (respond E' r)" using answered_responds [OF l(2)] by (simp add: respond_def s)
qed

lemma write_event_safe: "safe_step N E r (r\<lparr>rq_write_event := h\<rparr>)"
  by (rule safe_same) simp_all

text \<open>A purge waits exactly when its cache file is not yet open: the purge is of one key, and
  \<^verbatim>\<open>ngx_http_file_cache_open\<close> says \<^verbatim>\<open>NGX_AGAIN\<close>.\<close>

definition must_wait :: "ngx_core \<Rightarrow> req_env \<Rightarrow> req \<Rightarrow> bool" where
  "must_wait N E r \<longleftrightarrow> (case request_tags N E r of (rc, tags, r0) \<Rightarrow>
     \<not> has_tags rc tags \<and> \<not> pc_purge_all (purge_conf E) \<and> \<not> is_partial (the (rq_cache r0)) \<and>
     fst (open_cache E r0) = Open_again)"

lemma exact_purge_again:
  "exact_purge N H E r = (rc, r') \<Longrightarrow> rc = NGX_AGAIN \<longleftrightarrow> fst (open_cache E r) = Open_again"
  by (auto simp: exact_purge_def Let_def split: prod.splits if_splits)

lemma exact_purge_soft_again:
  assumes "http_core_ok H" and "exact_purge_soft N H E r = (rc, r')"
  shows "rc = NGX_AGAIN \<longleftrightarrow> fst (open_cache E r) = Open_again"
proof -
  have "fst (soft_header H o0 p) \<noteq> NGX_AGAIN" for o0 p
    using soft_header_cases(4) [OF assms(1), of o0 p] by (metis ngx_rc.distinct prod.collapse)
  then show ?thesis using assms(2)
    by (auto simp: exact_purge_soft_def Let_def split: prod.splits if_splits) (metis fst_conv)+
qed

lemma purge_handler_outcome:
  assumes ok: "ngx_core_ok N" "http_core_ok H" "open_law E"
  shows "safe_step N E r (purge_handler N H E r)"
    and "world_ok N r \<Longrightarrow> good_zones r \<Longrightarrow> \<not> rq_aio r \<Longrightarrow>
      if must_wait N E r then waits r (purge_handler N H E r) else answered r (purge_handler N H E r)"
proof -
  let ?r' = "purge_handler N H E r" and ?mode = "request_mode N E (pc_soft (purge_conf E))"
  obtain rc0 tags r0 where t: "request_tags N E r = (rc0, tags, r0)" by (metis prod_cases3)
  note q0 = request_tags_quiet [OF t, of E]
  let ?sel = "if has_tags rc0 tags then (NGX_OK, r0)
     else if \<not> pc_purge_all (purge_conf E) \<and> \<not> is_partial (the (rq_cache r0))
     then (if ?mode then exact_purge_soft N H E r0 else exact_purge N H E r0) else (NGX_OK, r0)"
  obtain rc r1 where sel: "?sel = (rc, r1)" by fastforce
  have q1: "quiet N E r r1"
  proof -
    have "r1 = r0 \<or> exact_purge_soft N H E r0 = (rc, r1) \<or> exact_purge N H E r0 = (rc, r1)"
      using sel by (auto split: if_splits)
    then show ?thesis
      using q0 quiet_trans [OF q0 exact_purge_soft_quiet [OF ok]] quiet_trans [OF q0 exact_purge_quiet [OF ok]] by blast
  qed
  have again: "rc = NGX_AGAIN \<longleftrightarrow> must_wait N E r"
    using sel exact_purge_again exact_purge_soft_again [OF ok(2)] by (auto simp: must_wait_def t split: if_splits)
  have def: "?r' = (if rq_aio r then r else (case rc of
              NGX_OK \<Rightarrow> respond E (r1\<lparr>rq_write_event := Empty_handler\<rparr>)
            | NGX_DECLINED \<Rightarrow>
                if declined_with r1 = NOT_FOUND
                then respond E (record_purge_request E STATS_EXACT ?mode r1)
                else if lc_resptype_configured (en_loc E) \<and> lc_resptype (en_loc E) = Some RESPONSE_TYPE_JSON
                then (case send_decline_response E r1 of (rc2, r2) \<Rightarrow> finalize rc2 r2)
                else finalize (NGX_HTTP 412) r1
            | NGX_AGAIN \<Rightarrow> r1\<lparr>rq_write_event := Purge_handler\<rparr>
            | _ \<Rightarrow> finalize (NGX_HTTP 500) r1))"
    unfolding purge_handler_def Let_def t prod.case sel ..
  obtain rc2 r2 where sd: "send_decline_response E r1 = (rc2, r2)" by fastforce
  consider (aio) "rq_aio r" "?r' = r" | (ok) "?r' = respond E (r1\<lparr>rq_write_event := Empty_handler\<rparr>)" "rc \<noteq> NGX_AGAIN"
    | (missing) "?r' = respond E (record_purge_request E STATS_EXACT ?mode r1)" "rc \<noteq> NGX_AGAIN"
    | (decline) "?r' = finalize rc2 r2" "rc \<noteq> NGX_AGAIN"
    | (wait) "?r' = r1\<lparr>rq_write_event := Purge_handler\<rparr>" "rc = NGX_AGAIN"
    | (fin) x where "?r' = finalize x r1" "rc \<noteq> NGX_AGAIN"
  proof (cases "rq_aio r")
    case True
    then show thesis using aio def by simp
  next
    case a: False
    show thesis
    proof (cases "rc = NGX_DECLINED")
      case True
      then have e: "?r' = (if declined_with r1 = NOT_FOUND then respond E (record_purge_request E STATS_EXACT ?mode r1)
          else if lc_resptype_configured (en_loc E) \<and> lc_resptype (en_loc E) = Some RESPONSE_TYPE_JSON
          then finalize rc2 r2 else finalize (NGX_HTTP 412) r1)" using def a sd by simp
      show thesis
      proof (cases "declined_with r1 = NOT_FOUND")
        case True
        then show thesis using missing e by (simp add: \<open>rc = NGX_DECLINED\<close>)
      next
        case False
        then show thesis using decline fin e by (simp add: \<open>rc = NGX_DECLINED\<close> split: if_splits)
      qed
    next
      case False
      then show thesis using def a ok wait fin by (cases rc) simp_all
    qed
  qed
  then have "safe_step N E r ?r' \<and> (world_ok N r \<and> good_zones r \<and> \<not> rq_aio r \<longrightarrow>
    (if rc = NGX_AGAIN then waits r ?r' else answered r ?r'))"
  proof cases
    case aio
    then show ?thesis by simp
  next
    case ok
    have "answered r1 ?r'" using respond_life(2) [of "r1\<lparr>rq_write_event := Empty_handler\<rparr>" E]
      by (simp add: ok(1) answered_def)
    then show ?thesis using quiet_safe [OF q1 safe_trans [OF write_event_safe respond_life(1)]] ok(1)
        quietD(4) [OF q1] life_trans(1) ok(2) by metis
  next
    case missing
    let ?r2 = "record_purge_request E STATS_EXACT ?mode r1"
    have q2: "quiet N E r ?r2" using quiet_trans [OF q1 quiet_bookkeeping(5)] .
    show ?thesis unfolding missing(1) using quiet_safe [OF q2 respond_life(1)] respond_life(2) [of ?r2 E]
      quietD(4) [OF q2] life_trans(1) missing(2) by metis
  next
    case decline
    note l = send_decline_life [OF sd]
    show ?thesis unfolding decline(1)
      using quiet_safe [OF q1 safe_trans [OF l(1) finalize_life]] answered_responds [OF l(2)] quietD(4) [OF q1] life_trans(1) decline(2)
      by metis
  next
    case wait
    have "waits r1 ?r'" by (simp add: wait(1) waits_def life_def)
    then show ?thesis using quiet_safe [OF q1 write_event_safe] wait quietD(4) [OF q1] life_trans(2) by metis
  next
    case fin
    show ?thesis unfolding fin(1)
      using quiet_safe [OF q1 finalize_life] answered_responds [OF responds_refl [OF refl]] quietD(4) [OF q1] life_trans(1) fin(2)
      by metis
  qed
  then show "safe_step N E r ?r'" "world_ok N r \<Longrightarrow> good_zones r \<Longrightarrow> \<not> rq_aio r \<Longrightarrow>
      if must_wait N E r then waits r ?r' else answered r ?r'" using again by auto
qed

lemma purge_handler_life:
  assumes "ngx_core_ok N" "http_core_ok H" "open_law E"
  shows "safe_step N E r (purge_handler N H E r)"
    and "world_ok N r \<Longrightarrow> good_zones r \<Longrightarrow> \<not> rq_aio r \<Longrightarrow>
      answered r (purge_handler N H E r) \<or> waits r (purge_handler N H E r)"
  using purge_handler_outcome [OF assms] by metis+

lemma dispatch_declined:
  assumes ok: "ngx_core_ok N" "http_core_ok H" and p: "dispatch_special N H E cache r = (NGX_DECLINED, handled, r')"
  shows "declined_with r' \<noteq> NOT_FOUND"
proof -
  obtain rc0 tags r0 where t: "request_tags N E r = (rc0, tags, r0)" by (metis prod_cases3)
  obtain rc2 r2 where a: "purge_all N H E r0 = (rc2, r2)" by fastforce
  obtain rc3 r3 where w: "partial_purge N H E cache r0 = (rc3, r3)" by fastforce
  have "rc2 \<noteq> NGX_DECLINED" "rc3 \<noteq> NGX_DECLINED"
    using purge_all_quiet(2) [OF ok(2) a] partial_purge_life(4) [OF ok w] by auto
  then show ?thesis using p by (auto simp: dispatch_special_def t a w Let_def split: if_splits prod.splits)
qed

lemma cache_get_code: "fst (protocol_cache_get p E) \<noteq> NGX_DONE"
  by (cases p) (auto simp: fastcgi_cache_get_request_def proxy_cache_get_request_def scgi_cache_get_request_def
      uwsgi_cache_get_request_def cache_get_def split: option.splits)

lemma pilot_init_quiet:
  assumes "pilot_init E' cache key r = (rc, r')"
  shows "quiet N E r r'"
proof -
  have c: "quiet N E r (r\<lparr>rq_pool := pl, rq_cache := c\<rparr>)" for pl c
    by (rule quietI) (simp add: world_ok_def only_removes_def indexed_def file_there_def life_def coherent_same)
  have "quiet N E r (r\<lparr>rq_pool := pl\<rparr>)" for pl by simp
  then show ?thesis using assms c quiet_refl
    by (auto simp: pilot_init_def split: if_splits prod.splits bool.splits option.splits)
qed

text \<open>The handler of a location, with the reference it takes on the request.\<close>

lemma protocol_handler_life:
  assumes ok: "ngx_core_ok N" "http_core_ok H" "open_law E" and p: "protocol_handler N H E r = (rc, r')"
  shows "safe_step N E r r'"
    and "world_ok N r \<Longrightarrow> good_zones r \<Longrightarrow> rc \<noteq> NGX_DONE \<Longrightarrow> life r' = life r"
    and "world_ok N r \<Longrightarrow> good_zones r \<Longrightarrow> \<not> rq_aio r \<Longrightarrow> rc = NGX_DONE \<Longrightarrow>
      (let r0 = r\<lparr>rq_count := rq_count r + 1\<rparr> in answered r0 r' \<or> waits r0 r' \<or> offloaded r0 r')"
proof -
  have cnt: "safe_step N E q (q\<lparr>rq_count := n\<rparr>)" for q n by (rule safe_same) simp_all
  have "safe_step N E r r' \<and> (world_ok N r \<and> good_zones r \<and> rc \<noteq> NGX_DONE \<longrightarrow> life r' = life r) \<and>
    (world_ok N r \<and> good_zones r \<and> \<not> rq_aio r \<and> rc = NGX_DONE \<longrightarrow>
       (let r0 = r\<lparr>rq_count := rq_count r + 1\<rparr> in answered r0 r' \<or> waits r0 r' \<or> offloaded r0 r'))"
  proof (cases "\<exists>pr. protocol_by_id (case lc_protocol (en_loc E) of Some p \<Rightarrow> p | None \<Rightarrow> None) = Some pr \<and>
      en_upstream E = NGX_OK \<and> fst (protocol_cache_get (pr_id pr) E) = NGX_OK")
    case False
    then have "r' = r \<and> rc \<noteq> NGX_DONE"
      using p cache_get_code by (auto simp: protocol_handler_def split: option.splits if_splits prod.splits)
        (metis fst_conv)+
    then show ?thesis by simp
  next
    case True
    then obtain pr cache0 where pr: "protocol_by_id (case lc_protocol (en_loc E) of Some p \<Rightarrow> p | None \<Rightarrow> None) = Some pr"
        "en_upstream E = NGX_OK" "protocol_cache_get (pr_id pr) E = (NGX_OK, cache0)" by (metis prod.collapse)
    obtain rc1 r1 where i: "pilot_init E (the cache0) (pr_cache_key pr (en_plocs E (pr_id pr))) r = (rc1, r1)" by fastforce
    obtain rc2 handled r2 where d: "dispatch_special N H E (the cache0) r1 = (rc2, handled, r2)" by (metis prod_cases3)
    note q1 = pilot_init_quiet [OF i, of N E] and dl = dispatch_life [OF ok(1,2) d]
    have eq: "protocol_handler N H E r = (if rc1 \<noteq> NGX_OK then (NGX_HTTP 500, r1)
        else if handled \<and> rc2 = NGX_DONE then (NGX_DONE, r2\<lparr>rq_count := rq_count r2 + 1\<rparr>)
        else if handled \<and> rc2 = NGX_DECLINED then
          (if declined_with r2 = NOT_FOUND then send_response E r2 else (NGX_HTTP 412, r2))
        else if handled \<and> rc2 \<noteq> NGX_OK then (NGX_HTTP 500, r2)
        else (NGX_DONE, purge_handler N H E (r2\<lparr>rq_count := rq_count r2 + 1\<rparr>)))"
      by (simp add: protocol_handler_def pr i d Let_def)
    let ?r3 = "r2\<lparr>rq_count := rq_count r2 + 1\<rparr>"
    have dd: "rc2 = NGX_DECLINED \<Longrightarrow> declined_with r2 \<noteq> NOT_FOUND" using dispatch_declined [OF ok(1,2)] d by simp
    consider (init) "rc \<noteq> NGX_DONE" "r' = r1" | (off) "rc2 = NGX_DONE" "rc = NGX_DONE" "r' = ?r3"
      | (bad) "rc2 \<noteq> NGX_DONE" "rc \<noteq> NGX_DONE" "r' = r2" | (run) "rc2 \<noteq> NGX_DONE" "rc = NGX_DONE" "r' = purge_handler N H E ?r3"
      using eq p dd dl(3) by (cases "rc2 = NGX_DONE") (auto split: if_splits)
    then show ?thesis
    proof cases
      case init
      then show ?thesis using q1 by (auto simp: quiet_def)
    next
      case off
      have "offloaded (r\<lparr>rq_count := rq_count r + 1\<rparr>) r'" if "world_ok N r" "good_zones r"
      proof -
        have "offloaded r r2" using dl(4) off(1) quietD [OF q1 that] life_trans(3) by blast
        then show ?thesis using off(3) by (auto simp: offloaded_def life_def)
      qed
      then show ?thesis using safe_trans [OF quiet_safe [OF q1 dl(1)] cnt] off by (auto simp: Let_def)
    next
      case bad
      then show ?thesis using quiet_trans [OF q1 dl(2)] by (auto simp: quiet_def)
    next
      case run
      have q2: "quiet N E r r2" using quiet_trans [OF q1 dl(2)] run(1) by blast
      have s3: "safe_step N E r ?r3" using quiet_safe [OF q2 cnt] .
      have "answered (r\<lparr>rq_count := rq_count r + 1\<rparr>) r' \<or> waits (r\<lparr>rq_count := rq_count r + 1\<rparr>) r'"
        if i: "world_ok N r" "good_zones r" "\<not> rq_aio r"
      proof -
        have l: "life r2 = life r" using quietD [OF q2 i(1,2)] by blast
        then have aio: "\<not> rq_aio ?r3" and l3: "life ?r3 = life (r\<lparr>rq_count := rq_count r + 1\<rparr>)"
          using i(3) by (simp_all add: life_def)
        have w: "world_ok N ?r3" "good_zones ?r3" using quietD(1,5) [OF q2 i(1,2)] by (simp_all add: world_ok_def good_zones_def)
        show ?thesis using purge_handler_life(2) [OF ok w aio] life_trans(1,2) [OF l3] run(3) by blast
      qed
      then show ?thesis using safe_trans [OF s3 purge_handler_life(1) [OF ok]] run by (auto simp: Let_def)
    qed
  qed
  then show "safe_step N E r r'" "world_ok N r \<Longrightarrow> good_zones r \<Longrightarrow> rc \<noteq> NGX_DONE \<Longrightarrow> life r' = life r"
    "world_ok N r \<Longrightarrow> good_zones r \<Longrightarrow> \<not> rq_aio r \<Longrightarrow> rc = NGX_DONE \<Longrightarrow>
      (let r0 = r\<lparr>rq_count := rq_count r + 1\<rparr> in answered r0 r' \<or> waits r0 r' \<or> offloaded r0 r')" by blast+
qed

lemma partial_completion_safe: "safe_step N E r (partial_completion E timedout gone t r)"
proof -
  let ?r1 = "r\<lparr>rq_blocked := rq_blocked r - 1, rq_aio := False\<rparr>"
  let ?r2 = "record_purge_request E STATS_WILDCARD (tk_soft t)
            (record_purge E STATS_WILDCARD (tk_soft t) (of_nat (pc_purged (tk_partial t))) ?r1)"
  have s1: "safe_step N E r ?r1" by (rule safe_same) simp_all
  have q2: "quiet N E ?r1 ?r2" using quiet_trans [OF quiet_bookkeeping(3) quiet_bookkeeping(5)] .
  have s2: "safe_step N E r ?r2" using safe_trans [OF s1] q2 by (simp add: quiet_def)
  have s3: "safe_step N E r (respond E (?r2\<lparr>rq_write_event := Empty_handler\<rparr>))"
    using safe_trans [OF s2 safe_trans [OF write_event_safe respond_life(1)]] .
  have s4: "safe_step N E r (finalize (NGX_HTTP 500) ?r1)" using safe_trans [OF s1 finalize_life] .
  consider "timedout" | "\<not> timedout" "gone" | "\<not> timedout" "\<not> gone" "tk_rc t = NGX_OK" | "\<not> timedout" "\<not> gone" "tk_rc t \<noteq> NGX_OK"
    by blast
  then show ?thesis using s1 s3 s4 by cases (simp_all add: partial_completion_def Let_def)
qed

end
