(* ===== verification/Handler_Theorems.thy ===== *)
theory Handler_Theorems
  imports Handler_Spec Demo
begin

text \<open>
  The theorems about a purge request as a whole: it is safe for the world it shares, its counters
  are right, and it is finalized exactly once.
\<close>

section \<open>The three entry points\<close>

text \<open>A purge request runs from the handler of the location, again from the write event when its
  cache file had to be read first, and at the end of a walk in a thread.\<close>

definition request_runs :: "ngx_core \<Rightarrow> http_core \<Rightarrow> req_env \<Rightarrow> req \<Rightarrow> req \<Rightarrow> bool" where
  "request_runs N H E r r' \<longleftrightarrow>
     r' = snd (protocol_handler N H E r) \<or> r' = purge_handler N H E r \<or>
     (\<exists>timedout gone t. r' = partial_completion E timedout gone t r)"

lemma request_runs_safe:
  assumes "ngx_core_ok N" and "http_core_ok H" and "open_law E" and "request_runs N H E r r'"
  shows "safe_step N E r r'"
  using assms(4) protocol_handler_life(1) [OF assms(1-3) prod.collapse [symmetric]]
    purge_handler_life(1) [OF assms(1-3)] partial_completion_safe
  by (auto simp: request_runs_def)

text \<open>C8: However a purge request ends - declined, failed for lack of memory, waiting, or done - it
  leaves the store and the cache zone well-formed, leaks no block of the shared memory, keeps the bytes
  of the cache zone accounted for, marks no zone ready or unready, and only ever removes: no file and
  no index entry appears, and an index entry that stays is the same as before.\<close>

theorem request_safe:
  assumes "ngx_core_ok N" and "http_core_ok H" and "open_law E" and "world_ok N r"
    and "\<And>cache zone. runtime_lookup_zone (rq_watch r) cache = Some zone \<Longrightarrow> good_zone zone"
    and "request_runs N H E r r'"
  shows "store_ok N (rq_shm r') \<and> cache_ok (dk_cache (rq_disk r')) \<and>
    stray (rq_shm r') = stray (rq_shm r) \<and> boot_done (rq_shm r') = boot_done (rq_shm r) \<and>
    (\<forall>z p. view (rq_shm r') z p = view (rq_shm r) z p \<or> view (rq_shm r') z p = None) \<and>
    dom (os_files (dk_os (rq_disk r'))) \<subseteq> dom (os_files (dk_os (rq_disk r))) \<and>
    fc_size (dk_cache (rq_disk r')) - cache_bytes (dk_cache (rq_disk r')) =
      fc_size (dk_cache (rq_disk r)) - cache_bytes (dk_cache (rq_disk r))"
proof -
  have "good_zones r" using assms(5) by (simp add: good_zones_def)
  then show ?thesis using request_runs_safe [OF assms(1-3,6)] assms(4)
    by (auto simp: safe_step_def world_ok_def only_removes_def indexed_def file_there_def cache_slack_def)
qed

lemma demo_zones: "runtime_lookup_zone (rq_watch (demo_req key)) cache = Some zone \<Longrightarrow> good_zone zone"
  by (auto simp: demo_req_def demo_watch_def runtime_lookup_zone_def lookup_zone_index_def zi_cache_def demo_zone_def
      good_zone_def split: if_splits)

lemma demo_good_zones [simp]: "good_zones (demo_req key)"
  using demo_zones by (simp add: good_zones_def)

definition demo_headers :: "(ngx_str \<times> ngx_str) list" where
  "demo_headers = [(''Cache-Tag'', ''t'')]"

definition demo_after :: "ngx_rc \<times> req" where
  "demo_after = protocol_handler core_total demo_http (demo_env demo_headers ''key'') (demo_req ''key'')"

lemma demo_runs: "request_runs core_total demo_http (demo_env demo_headers ''key'') (demo_req ''key'') (snd demo_after)"
  by (simp add: request_runs_def demo_after_def)

lemma demo_after_code:
  "case protocol_handler core_total H (demo_env demo_headers ''key'') (demo_req ''key'') of
     (rc, r') \<Rightarrow> rc = NGX_DONE \<and> rq_final r' = [NGX_OK] \<and> rq_metrics r' \<noteq> None"
  by code_simp

theorem request_safe_witness:
  "store_ok core_total (rq_shm (snd demo_after)) \<and> cache_ok (dk_cache (rq_disk (snd demo_after))) \<and>
   dom (os_files (dk_os (rq_disk (snd demo_after)))) \<subseteq> {demo_path}"
proof -
  have d: "dom (os_files (dk_os (rq_disk (demo_req ''key'')))) = {demo_path}" by (simp add: demo_req_def)
  from request_safe [OF core_total_ok(1) demo_http_ok demo_open_law demo_world demo_zones demo_runs] d
  show ?thesis by simp
qed

section \<open>Counting\<close>

text \<open>C10: The counters tell the truth about each other: over any run of a purge request every
  shared counter of purged entries grows by exactly what the counter of the request grows by, for
  every kind of purge and both modes; so for a new request the numbers in its response are what it
  added to the statistics.\<close>

theorem counters_agree:
  assumes "ngx_core_ok N" and "http_core_ok H" and "open_law E" and "world_ok N r"
    and "\<And>cache zone. runtime_lookup_zone (rq_watch r) cache = Some zone \<Longrightarrow> good_zone zone"
    and "request_runs N H E r r'" and "metrics_ctx E r = Some m"
  shows "\<exists>m'. metrics_ctx E r' = Some m' \<and>
    (\<forall>t soft. shared_purged t soft m' - shared_purged t soft m = ctx_purged t soft r' - ctx_purged t soft r)"
proof -
  have "good_zones r" using assms(5) by (simp add: good_zones_def)
  then show ?thesis using request_runs_safe [OF assms(1-3,6)] assms(4,7)
    by (auto simp: safe_step_def coherent_def)
qed

lemma demo_metrics: "metrics_ctx (demo_env hs key) r = rq_metrics r"
  by (simp add: metrics_ctx_def demo_env_def demo_main_def)

lemma demo_count_code:
  "ctx_purged STATS_TAG False (snd (protocol_handler core_total H (demo_env demo_headers ''key'') (demo_req ''key''))) = 1"
  by code_simp

theorem counters_agree_witness:
  "\<exists>m. rq_metrics (snd demo_after) = Some m \<and> shared_purged STATS_TAG False m = 1"
proof -
  have m: "metrics_ctx (demo_env demo_headers ''key'') (demo_req ''key'') = Some zero_metrics"
    unfolding demo_metrics by (simp add: demo_req_def)
  have z: "shared_purged STATS_TAG False zero_metrics = 0" "ctx_purged STATS_TAG False (demo_req ''key'') = 0"
    by (simp_all add: shared_purged_def zero_metrics_def ctx_purged_def demo_req_def)
  from counters_agree [OF core_total_ok(1) demo_http_ok demo_open_law demo_world _ demo_runs m] demo_zones
  obtain m' where m': "rq_metrics (snd demo_after) = Some m'"
    "shared_purged STATS_TAG False m' - shared_purged STATS_TAG False zero_metrics =
      ctx_purged STATS_TAG False (snd demo_after) - ctx_purged STATS_TAG False (demo_req ''key'')"
    unfolding demo_metrics by blast
  have "ctx_purged STATS_TAG False (snd demo_after) = 1" using demo_count_code by (simp add: demo_after_def)
  then show ?thesis using m' z by auto
qed

section \<open>Finalized once\<close>

text \<open>C7: The handler of a location either answers with a code of its own, and then it has sent
  nothing, finalized nothing and holds no reference; or it returns \<open>NGX_DONE\<close>, and then it has taken
  exactly one reference on the request and left it in exactly one of three states: finalized once,
  with at most one response; waiting for its cache file to be read, with the purge handler as its write
  handler; or blocked once on a walk in a thread.\<close>

theorem request_lifecycle:
  assumes "ngx_core_ok N" and "http_core_ok H" and "open_law E" and "world_ok N r"
    and "\<And>cache zone. runtime_lookup_zone (rq_watch r) cache = Some zone \<Longrightarrow> good_zone zone"
    and "\<not> rq_aio r" and "protocol_handler N H E r = (rc, r')"
  shows "(rc \<noteq> NGX_DONE \<longrightarrow> life r' = life r) \<and>
    (rc = NGX_DONE \<longrightarrow> rq_count r' = rq_count r + 1 \<and>
      ((\<exists>x rs. rq_final r' = rq_final r @ [x] \<and> rq_responses r' = rq_responses r @ rs \<and> length rs \<le> 1 \<and>
          \<not> rq_aio r' \<and> rq_blocked r' = rq_blocked r) \<or>
       (rq_final r' = rq_final r \<and> rq_responses r' = rq_responses r \<and>
          (\<not> rq_aio r' \<and> rq_blocked r' = rq_blocked r \<and> rq_write_event r' = Purge_handler \<or>
           rq_aio r' \<and> rq_blocked r' = rq_blocked r + 1 \<and> rq_task r' \<noteq> None))))"
proof -
  have z: "good_zones r" using assms(5) by (simp add: good_zones_def)
  note l = protocol_handler_life [OF assms(1-3,7)]
  show ?thesis
  proof (cases "rc = NGX_DONE")
    case True
    from l(3) [OF assms(4) z assms(6) True] show ?thesis using True assms(6)
      by (auto simp: Let_def answered_def waits_def offloaded_def life_def)
  next
    case False
    then show ?thesis using l(2) [OF assms(4) z] by blast
  qed
qed

theorem request_lifecycle_witness:
  "\<exists>x rs. rq_final (snd demo_after) = [x] \<and> rq_responses (snd demo_after) = rs \<and> length rs \<le> 1 \<and>
     rq_count (snd demo_after) = 2"
proof -
  obtain rc r' where a: "protocol_handler core_total demo_http (demo_env demo_headers ''key'') (demo_req ''key'') = (rc, r')"
    by fastforce
  have rc: "rc = NGX_DONE" "rq_final r' = [NGX_OK]" using demo_after_code [of demo_http] a by simp_all
  have aio: "\<not> rq_aio (demo_req ''key'')" by simp
  have f: "rq_count (demo_req ''key'') = 1" "rq_responses (demo_req ''key'') = []" by (simp_all add: demo_req_def)
  from request_lifecycle [OF core_total_ok(1) demo_http_ok demo_open_law demo_world demo_zones aio a] rc
  show ?thesis by (auto simp: demo_after_def a f)
qed

lemma respond_disk: "rq_disk (respond E r) = rq_disk r"
proof -
  obtain ctx r1 where g: "get_request_ctx r = (ctx, r1)" by fastforce
  have "rq_disk r1 = rq_disk r" using get_request_ctx_world [OF g, of r] by (simp add: same_world_def)
  then show ?thesis
    by (auto simp: respond_def finalize_def send_response_def send_body_def g Let_def split: prod.splits bool.splits if_splits)
qed

text \<open>The completion of a walk that did not time out.\<close>

lemma partial_completion_ends:
  fixes E gone t r d
  defines "r2 \<equiv> partial_completion E False gone t (r\<lparr>rq_disk := d\<rparr>)"
  shows "rq_disk r2 = d \<and> rq_blocked r2 = rq_blocked r - 1 \<and> \<not> rq_aio r2 \<and>
    (if gone then rq_final r2 = rq_final r \<and> rq_responses r2 = rq_responses r
     else \<exists>x rs. rq_final r2 = rq_final r @ [x] \<and> rq_responses r2 = rq_responses r @ rs \<and> length rs \<le> 1 \<and>
        (tk_rc t \<noteq> NGX_OK \<longrightarrow> x = NGX_HTTP 500 \<and> rs = []))"
proof -
  let ?r1 = "r\<lparr>rq_disk := d, rq_blocked := rq_blocked r - 1, rq_aio := False\<rparr>"
  let ?q = "record_purge_request E STATS_WILDCARD (tk_soft t)
    (record_purge E STATS_WILDCARD (tk_soft t) (of_nat (pc_purged (tk_partial t))) ?r1)"
  have s: "same_world ?r1 ?q" by simp
  consider "gone" "r2 = ?r1" | "\<not> gone" "tk_rc t = NGX_OK" "r2 = respond E (?q\<lparr>rq_write_event := Empty_handler\<rparr>)"
    | "\<not> gone" "tk_rc t \<noteq> NGX_OK" "r2 = finalize (NGX_HTTP 500) ?r1"
    unfolding r2_def partial_completion_def Let_def by (cases gone; cases "tk_rc t = NGX_OK") simp_all
  then show ?thesis
  proof cases
    case 2
    from respond_life(2) [of "?q\<lparr>rq_write_event := Empty_handler\<rparr>" E] s show ?thesis
      by (auto simp: 2 respond_disk answered_def same_world_def)
  qed (simp_all add: finalize_def)
qed

text \<open>The write events of a request: each runs the purge again, until it is finalized.  The
  environment may differ from event to event.  \<open>read_done\<close>: \<^verbatim>\<open>ngx_http_file_cache_open\<close> no
  longer answers that the file is still being read or locked.\<close>

fun write_events :: "ngx_core \<Rightarrow> http_core \<Rightarrow> req_env list \<Rightarrow> req \<Rightarrow> req" where
  "write_events N H [] r = r"
| "write_events N H (E # Es) r =
     (let r1 = purge_handler N H E r
      in if rq_final r1 = rq_final r \<and> rq_write_event r1 = Purge_handler then write_events N H Es r1 else r1)"

definition read_done :: "req_env \<Rightarrow> bool" where
  "read_done E \<longleftrightarrow> (\<forall>c d. fst (en_open E c d) \<noteq> Open_again)"

lemma read_done_goes_on: "read_done E \<Longrightarrow> \<not> must_wait N E r"
  by (auto simp: must_wait_def read_done_def open_cache_def split: prod.splits) (metis fst_conv)

lemma write_event_again:
  assumes "ngx_core_ok N" "http_core_ok H" "open_law E" "world_ok N r" "good_zones r" "\<not> rq_aio r"
  shows "(rq_final (purge_handler N H E r) = rq_final r) = must_wait N E r"
    and "must_wait N E r \<Longrightarrow> rq_write_event (purge_handler N H E r) = Purge_handler \<and>
      rq_responses (purge_handler N H E r) = rq_responses r"
  using purge_handler_outcome(2) [OF assms(1-6)]
  by (cases "must_wait N E r"; force simp: waits_def life_def answered_def)+

lemma write_events_end:
  assumes ok: "ngx_core_ok N" "http_core_ok H"
    and "\<forall>E \<in> set Es. open_law E" and "\<exists>E \<in> set Es. read_done E"
    and "world_ok N r" "good_zones r" "\<not> rq_aio r"
  shows "answered r (write_events N H Es r)"
  using assms(3-)
proof (induction Es arbitrary: r)
  case (Cons E Es)
  let ?r1 = "purge_handler N H E r"
  have law: "open_law E" using Cons.prems(1) by simp
  note o = purge_handler_outcome [OF ok law]
  show ?case
  proof (cases "must_wait N E r")
    case True
    have w: "waits r ?r1" using o(2) [OF Cons.prems(3-5)] True by simp
    then have l: "rq_final ?r1 = rq_final r" "rq_write_event ?r1 = Purge_handler" "\<not> rq_aio ?r1"
      using Cons.prems(5) by (simp_all add: waits_def life_def)
    have s: "world_ok N ?r1" "good_zones ?r1"
      using o(1) Cons.prems(3,4) only_removes_zones by (auto simp: safe_step_def)
    have "\<not> read_done E" using True read_done_goes_on by blast
    then have "answered ?r1 (write_events N H Es ?r1)"
      using Cons.IH [OF _ _ s l(3)] Cons.prems(1,2) by simp
    then have "answered r (write_events N H Es ?r1)" using w by (simp add: answered_def waits_def life_def)
    then show ?thesis using l by (simp add: Let_def)
  next
    case False
    have a: "answered r ?r1" using o(2) [OF Cons.prems(3-5)] False by simp
    then have "rq_final ?r1 \<noteq> rq_final r" by (auto simp: answered_def)
    with a show ?thesis by (simp add: Let_def)
  qed
qed simp

text \<open>C9: A request that waits comes to its end.  Waiting for its cache file: a write event
  finalizes the request unless \<^verbatim>\<open>ngx_http_file_cache_open\<close> says for this very request that the file is
  not yet read, and only then it arms the write event again; so over any sequence of write events in
  one of which the reading is done, the request is finalized, exactly once, with at most one response.
  Waiting for a walk in a thread: write events do nothing; the walk purges what it could of the
  matching files it visited below the directory of the cache; its completion unblocks the request and,
  unless the request is gone, finalizes it once: with the code of the response when the walk succeeded
  and as an internal error otherwise.  The timer of the task only reports: it leaves the request to the
  completion.\<close>

theorem waiting_request_ends:
  assumes "ngx_core_ok N" and "http_core_ok H" and "\<forall>E \<in> set Es. open_law E" and "world_ok N r"
    and "\<And>cache zone. runtime_lookup_zone (rq_watch r) cache = Some zone \<Longrightarrow> good_zone zone"
    and "pc_purged (tk_partial t) = 0" and "partial_thread N H t (rq_disk r) = (t', d)"
  shows "(\<not> rq_aio r \<and> (\<exists>E \<in> set Es. read_done E) \<longrightarrow> (\<exists>x rs. length rs \<le> 1 \<and>
      rq_final (write_events N H Es r) = rq_final r @ [x] \<and>
      rq_responses (write_events N H Es r) = rq_responses r @ rs)) \<and>
    (\<not> rq_aio r \<longrightarrow> (\<forall>E \<in> set Es. let r1 = purge_handler N H E r in
      (rq_final r1 = rq_final r) = must_wait N E r \<and>
      (must_wait N E r \<longrightarrow> rq_write_event r1 = Purge_handler \<and> rq_responses r1 = rq_responses r))) \<and>
    (rq_aio r \<longrightarrow> (\<forall>E. purge_handler N H E r = r)) \<and>
    (tk_rc t' = NGX_OK \<longrightarrow>
      walk_result N H (tk_soft t) (pc_key_partial (tk_partial t)) (tk_root t) (rq_disk r) d (pc_purged (tk_partial t'))) \<and>
    (let r1 = r\<lparr>rq_disk := d\<rparr>; r2 = partial_completion E False gone t' r1 in
      world_ok N r1 \<and> partial_completion E True gone t' r1 = r1 \<and> rq_disk r2 = d \<and>
      rq_blocked r2 = rq_blocked r - 1 \<and> \<not> rq_aio r2 \<and>
      (if gone then rq_final r2 = rq_final r \<and> rq_responses r2 = rq_responses r
       else \<exists>x rs. rq_final r2 = rq_final r @ [x] \<and> rq_responses r2 = rq_responses r @ rs \<and> length rs \<le> 1 \<and>
          (tk_rc t' \<noteq> NGX_OK \<longrightarrow> x = NGX_HTTP 500 \<and> rs = [])))"
proof -
  let ?r1 = "r\<lparr>rq_disk := d\<rparr>" and ?r2 = "partial_completion E False gone t' (r\<lparr>rq_disk := d\<rparr>)"
  have z: "good_zones r" using assms(5) by (simp add: good_zones_def)
  obtain ok pc where w: "partial_walk N H (tk_root t) (tk_soft t) (tk_partial t) (rq_disk r) = (ok, pc, d)"
    and t': "t' = t\<lparr>tk_partial := pc, tk_rc := (if ok then NGX_OK else NGX_ERROR)\<rparr>"
    using assms(7) by (auto simp: partial_thread_def split: prod.splits)
  have pc0: "tk_partial t = \<lparr>pc_key_partial = pc_key_partial (tk_partial t), pc_purged = 0\<rparr>" using assms(6) by simp
  have c: "cache_ok (dk_cache (rq_disk r))" using assms(4) by (simp add: world_ok_def)
  have walk: "walk_result N H (tk_soft t) (pc_key_partial (tk_partial t)) (tk_root t) (rq_disk r) d (pc_purged (tk_partial t'))"
    if "tk_rc t' = NGX_OK"
  proof -
    have "ok" using that t' by (simp split: if_splits)
    with w have "partial_walk N H (tk_root t) (tk_soft t) \<lparr>pc_key_partial = pc_key_partial (tk_partial t), pc_purged = 0\<rparr>
        (rq_disk r) = (True, pc, d)" using pc0 by (metis (full_types))
    from partial_walk_spec [OF assms(2) c this] show ?thesis by (simp add: t')
  qed
  have w1: "world_ok N ?r1" using partial_walk_world [OF assms(2) c w] assms(4) by (simp add: world_ok_def)
  have ends: "\<exists>x rs. length rs \<le> 1 \<and> rq_final (write_events N H Es r) = rq_final r @ [x] \<and>
      rq_responses (write_events N H Es r) = rq_responses r @ rs" if "\<not> rq_aio r" "\<exists>E \<in> set Es. read_done E"
    using write_events_end [OF assms(1-3) that(2) assms(4) z that(1)] unfolding answered_def by blast
  have again: "let r1 = purge_handler N H E r in (rq_final r1 = rq_final r) = must_wait N E r \<and>
      (must_wait N E r \<longrightarrow> rq_write_event r1 = Purge_handler \<and> rq_responses r1 = rq_responses r)"
    if "\<not> rq_aio r" "E \<in> set Es" for E
    using write_event_again [OF assms(1,2) _ assms(4) z that(1)] assms(3) that(2) by (simp add: Let_def)
  have aio: "rq_aio r \<Longrightarrow> purge_handler N H E r = r" for E by (simp add: purge_handler_def)
  have fin: "rq_disk ?r2 = d \<and> rq_blocked ?r2 = rq_blocked r - 1 \<and> \<not> rq_aio ?r2 \<and>
      (if gone then rq_final ?r2 = rq_final r \<and> rq_responses ?r2 = rq_responses r
       else \<exists>x rs. rq_final ?r2 = rq_final r @ [x] \<and> rq_responses ?r2 = rq_responses r @ rs \<and> length rs \<le> 1 \<and>
          (tk_rc t' \<noteq> NGX_OK \<longrightarrow> x = NGX_HTTP 500 \<and> rs = []))"
    by (rule partial_completion_ends)
  have timer: "partial_completion E True gone t' ?r1 = ?r1" by (simp add: partial_completion_def)
  show ?thesis unfolding Let_def
    by (intro conjI ballI allI impI) (use ends again [unfolded Let_def] aio walk w1 fin timer in blast)+
qed

definition demo_task :: partial_task where
  "demo_task = \<lparr>tk_root = ''/c'', tk_soft = False, tk_partial = \<lparr>pc_key_partial = [], pc_purged = 0\<rparr>, tk_rc = NGX_ERROR\<rparr>"

text \<open>An environment in which the file is still being read.\<close>

definition reading_env :: req_env where
  "reading_env = (demo_env [] ''key'')\<lparr>en_open := (\<lambda>c d. (Open_again, c, d))\<rparr>"

lemma reading_laws: "open_law reading_env" "read_done (demo_env [] ''key'')"
  by (auto simp: open_law_def reading_env_def read_done_def demo_env_def demo_open_def)

theorem waiting_request_ends_witness:
  "\<exists>t' d. partial_thread core_total demo_http demo_task (rq_disk (demo_req ''key'')) = (t', d) \<and>
     demo_path \<notin> dom (os_files (dk_os d)) \<and>
     (\<exists>x. rq_final (partial_completion (demo_env [] ''key'') False False t' ((demo_req ''key'')\<lparr>rq_disk := d\<rparr>)) = [x]) \<and>
     (\<exists>x. rq_final (write_events core_total demo_http [reading_env, demo_env [] ''key''] (demo_req ''key'')) = [x])"
proof -
  obtain t' d where p: "partial_thread core_total demo_http demo_task (rq_disk (demo_req ''key'')) = (t', d)" by fastforce
  have ok: "tk_rc t' = NGX_OK" using p
    by (auto simp: partial_thread_def partial_walk_def demo_task_def demo_http_def http_ref_def http_with_def demo_req_def Let_def
        split: prod.splits)
  have t0: "pc_purged (tk_partial demo_task) = 0" by (simp add: demo_task_def)
  have b: "below (tk_root demo_task) demo_path" by (simp add: demo_task_def demo_walk_below)
  have h: "tk_soft demo_task = False" "pc_key_partial (tk_partial demo_task) = []" by (simp_all add: demo_task_def)
  let ?Es = "[reading_env, demo_env [] ''key'']"
  have laws: "\<forall>E \<in> set ?Es. open_law E" "\<exists>E \<in> set ?Es. read_done E" using reading_laws by simp_all
  from waiting_request_ends [OF core_total_ok(1) demo_http_ok laws(1) demo_world [of "''key''"] _ t0 p,
      of "demo_env [] ''key''" False] demo_zones laws(2)
  have r: "walk_result core_total demo_http False [] (tk_root demo_task) (rq_disk (demo_req ''key'')) d (pc_purged (tk_partial t'))"
    "\<exists>x. rq_final (partial_completion (demo_env [] ''key'') False False t' ((demo_req ''key'')\<lparr>rq_disk := d\<rparr>)) = [x]"
    "\<exists>x. rq_final (write_events core_total demo_http ?Es (demo_req ''key'')) = [x]"
    using ok unfolding h by (auto simp: Let_def)
  have files: "os_files (dk_os (rq_disk (demo_req ''key''))) = [demo_path \<mapsto> demo_file]" by (simp add: demo_req_def)
  have walk: "walk_tree demo_http (dk_os (rq_disk (demo_req ''key''))) (tk_root demo_task) = ([demo_path], True)"
    using b by (simp add: demo_http_def http_ref_def http_with_def demo_req_def)
  have "purgeable core_total demo_http False [] (dk_os (rq_disk (demo_req ''key''))) demo_path"
    by (simp add: purgeable_def partial_match_def refused_def)
  then have "demo_path \<notin> dom (os_files (dk_os d))"
    using r(1) walk by (auto simp: walk_result_def walk_effect_def path_purged_def)
  with p r(2,3) show ?thesis by blast
qed

end
