(* ===== verification/Hooks.thy ===== *)
theory Hooks
  imports Request
begin

text \<open>
  How cached responses enter the index: the header filter that remembers the tags of a response
  about to be cached, the log-phase handler that writes the index entry, and their registration
  (\<^verbatim>\<open>src/src/ngx_cache_pilot_index_runtime.c\<close>).
\<close>

text \<open>What the hooks see of the response: whether there is an upstream, whether it said that the
  response may be cached, whether the response came from the cache, the response's headers, and the
  result of the next filter.\<close>

record resp_env =
  re_upstream :: bool
  re_cacheable :: bool
  re_cache_hit :: bool
  re_headers_out :: "(ngx_str \<times> ngx_str) list"
  re_next :: ngx_rc

definition wanted_headers :: "req_env \<Rightarrow> ngx_str list" where
  "wanted_headers E = (case lc_cache_tag_headers (en_loc E) of Some hs \<Rightarrow> hs | None \<Rightarrow> [])"

definition header_filter :: "ngx_core \<Rightarrow> req_env \<Rightarrow> resp_env \<Rightarrow> req \<Rightarrow> ngx_rc \<times> req" where
  "header_filter N E R r =
     (if rq_cache r = None \<or> \<not> re_upstream R \<or> \<not> re_cacheable R then (re_next R, r)
      else if \<not> location_enabled (en_loc E) then (re_next R, r)
      else (case runtime_lookup_zone (rq_watch r) (hc_file_cache (the (rq_cache r))) of
          None \<Rightarrow> (re_next R, r)
        | Some zone \<Rightarrow>
            if \<not> store_writer (rq_store r) then (re_next R, r)
            else (case response_headers N (rq_pool r) (wanted_headers E) (re_headers_out R) of
                (rc, pl1, tags) \<Rightarrow>
                  let r1 = r\<lparr>rq_pool := pl1\<rparr> in
                  if rc \<noteq> NGX_OK then (NGX_ERROR, r1)
                  else (case get_request_ctx r1 of
                      (None, r2) \<Rightarrow> (NGX_ERROR, r2)
                    | (Some ctx, r2) \<Rightarrow>
                        (re_next R, r2\<lparr>rq_ctx := Some (ctx\<lparr>cx_index_tags := tags,
                           cx_index_zone_name := iz_zone_name zone\<rparr>)\<rparr>)))))"

text \<open>The tags and the zone of the entry; \<open>None\<close> when the response is not for the index.\<close>

definition log_tags :: "req \<Rightarrow> (ngx_str list option \<times> ngx_str) option \<times> req" where
  "log_tags r =
     (case rq_ctx r of
        Some ctx \<Rightarrow>
          (case cx_index_tags ctx of
             Some tags \<Rightarrow> (Some (Some tags, cx_index_zone_name ctx), r)
           | None \<Rightarrow> (None, r))
      | None \<Rightarrow> (None, r))"

definition log_recover :: "ngx_core \<Rightarrow> req_env \<Rightarrow> resp_env \<Rightarrow> req \<Rightarrow> (ngx_str list option \<times> ngx_str) option \<times> req" where
  "log_recover N E R r =
     (if re_upstream R \<and> re_cache_hit R then (None, r)
      else if \<not> location_enabled (en_loc E) then (None, r)
      else (case runtime_lookup_zone (rq_watch r) (hc_file_cache (the (rq_cache r))) of
          None \<Rightarrow> (None, r)
        | Some zone \<Rightarrow>
            (case response_headers N (rq_pool r) (wanted_headers E) (re_headers_out R) of
               (rc, pl1, tags) \<Rightarrow>
                 if rc \<noteq> NGX_OK then (None, r\<lparr>rq_pool := pl1\<rparr>)
                 else (Some (tags, iz_zone_name zone), r\<lparr>rq_pool := pl1\<rparr>))))"

definition log_handler :: "ngx_core \<Rightarrow> req_env \<Rightarrow> resp_env \<Rightarrow> req \<Rightarrow> ngx_rc \<times> req" where
  "log_handler N E R r =
     (if rq_cache r = None \<or> length (hc_file_name (the (rq_cache r))) = 0 then (NGX_OK, r)
      else (case (case log_tags r of (Some tz, r0) \<Rightarrow> (Some tz, r0) | (None, r0) \<Rightarrow> log_recover N E R r0) of
          (None, r1) \<Rightarrow> (NGX_OK, r1)
        | (Some (tags, zone_name), r1) \<Rightarrow>
            if \<not> store_writer (rq_store r1) then (NGX_OK, r1)
            else (case pool_alloc (rq_pool r1) of
                (False, pl2) \<Rightarrow> (NGX_OK, r1\<lparr>rq_pool := pl2\<rparr>)
              | (True, pl2) \<Rightarrow>
                  (case upsert_file_meta N (en_now E) (rq_shm r1) zone_name (hc_file_name (the (rq_cache r1)))
                          (concat (hc_keys (the (rq_cache r1)))) (en_now E) 0 tags of
                     (rc, s) \<Rightarrow> (NGX_OK, r1\<lparr>rq_pool := pl2, rq_shm := s\<rparr>)))))"

section \<open>Registration\<close>

text \<open>The chain of header filters is known by its first filter and the one this module calls next.\<close>

datatype filter = Core_filter nat | Index_header_filter

datatype log_hook = Other_log nat | Index_log_handler

record hooks =
  hk_top_filter :: filter
  hk_next_filter :: "filter option"
  hk_log_handlers :: "log_hook list"

definition postconfiguration :: "pool \<Rightarrow> hooks \<Rightarrow> ngx_rc \<times> hooks" where
  "postconfiguration pl h =
     (let h1 = h\<lparr>hk_next_filter := Some (hk_top_filter h), hk_top_filter := Index_header_filter\<rparr>
      in case pool_alloc pl of
           (False, _) \<Rightarrow> (NGX_ERROR, h1)
         | (True, _) \<Rightarrow> (NGX_OK, h1\<lparr>hk_log_handlers := hk_log_handlers h1 @ [Index_log_handler]\<rparr>))"

end
