(* ===== verification/Worker_Spec.thy ===== *)
theory Worker_Spec
  imports Handler_Spec Hooks Metrics
begin

text \<open>
  A worker as a state machine: the events it handles, one after another, on the world its requests
  share.  An event is one run of one handler to its end; between two events of a request any others
  may happen.
\<close>

section \<open>The hooks\<close>

text \<open>The tags of a response, and what the hooks need of it: names without NUL, as nginx has them.\<close>

definition response_tags :: "req_env \<Rightarrow> resp_env \<Rightarrow> ngx_str list" where
  "response_tags E R =
     take max_tokens_per_scan (dedup_ci [] (header_tokens (wanted_headers E) (re_headers_out R)))"

definition names_ok :: "req \<Rightarrow> bool" where
  "names_ok r \<longleftrightarrow> (\<forall>c. rq_cache r = Some c \<longrightarrow> c_nul \<notin> set (hc_file_name c)) \<and>
     (\<forall>x. rq_ctx r = Some x \<longrightarrow> c_nul \<notin> set (cx_index_zone_name x))"

lemma header_filter_world:
  assumes "header_filter N E R r = (rc, r')"
  shows "same_world r r'"
proof -
  obtain rc1 pl1 tags where h: "response_headers N (rq_pool r) (wanted_headers E) (re_headers_out R) = (rc1, pl1, tags)"
    by (metis prod_cases3)
  obtain ctx r2 where g: "get_request_ctx (r\<lparr>rq_pool := pl1\<rparr>) = (ctx, r2)" by fastforce
  have "same_world r r2" by (simp add: get_request_ctx_world [OF g])
  then show ?thesis using assms
    by (simp add: header_filter_def h g Let_def split: if_splits option.splits) (auto split: option.splits)
qed

text \<open>The log handler does nothing or writes one entry.\<close>

lemma log_handler_cases:
  assumes "log_handler N E R r = (rc, r')"
  obtains (skip) "rc = NGX_OK" and "same_world r r'"
  | (entry) c tags zn s rc2 pl where "rc = NGX_OK" and "rq_cache r = Some c" and "store_writer (rq_store r)"
      and "upsert_file_meta N (en_now E) (rq_shm r) zn (hc_file_name c) (concat (hc_keys c)) (en_now E) 0 tags = (rc2, s)"
      and "r' = r\<lparr>rq_pool := pl, rq_shm := s\<rparr>"
      and "(\<exists>x. rq_ctx r = Some x \<and> cx_index_zone_name x = zn \<and> cx_index_tags x = tags) \<or>
       (\<exists>zone. runtime_lookup_zone (rq_watch r) (hc_file_cache c) = Some zone \<and> iz_zone_name zone = zn)"
proof -
  define found where "found = (case log_tags r of (Some tz, r0) \<Rightarrow> (Some tz, r0) | (None, r0) \<Rightarrow> log_recover N E R r0)"
  obtain tz r1 where f: "found = (tz, r1)" by fastforce
  have lt: "snd (log_tags r) = r" by (simp add: log_tags_def split: option.splits)
  have tz: "(\<exists>pl. r1 = r\<lparr>rq_pool := pl\<rparr>) \<and> (\<forall>tags zn. tz = Some (tags, zn) \<longrightarrow>
      (\<exists>x. rq_ctx r = Some x \<and> cx_index_zone_name x = zn \<and> cx_index_tags x = tags) \<or>
      (\<exists>zone. runtime_lookup_zone (rq_watch r) (hc_file_cache (the (rq_cache r))) = Some zone \<and> iz_zone_name zone = zn))"
  proof (cases "fst (log_tags r)")
    case None
    then have "log_recover N E R r = (tz, r1)" using f lt by (simp add: found_def split: prod.splits)
    moreover have "\<exists>pl. r = r\<lparr>rq_pool := pl\<rparr>" by (rule exI [of _ "rq_pool r"]) simp
    ultimately show ?thesis
      by (auto simp: log_recover_def split: if_splits option.splits prod.splits)
  next
    case (Some a)
    then have "tz = Some a" "r1 = r" using f lt by (auto simp: found_def split: prod.splits)
    moreover have "\<exists>pl. r = r\<lparr>rq_pool := pl\<rparr>" by (rule exI [of _ "rq_pool r"]) simp
    ultimately show ?thesis using Some by (auto simp: log_tags_def split: option.splits)
  qed
  then obtain pl0 where r1: "r1 = r\<lparr>rq_pool := pl0\<rparr>" by blast
  show thesis
  proof (cases "rq_cache r = None \<or> length (hc_file_name (the (rq_cache r))) = 0")
    case True
    then show thesis using assms skip by (auto simp: log_handler_def)
  next
    case False
    then obtain c where c: "rq_cache r = Some c" by auto
    have eq: "log_handler N E R r = (case found of (None, r1) \<Rightarrow> (NGX_OK, r1)
        | (Some (tags, zone_name), r1) \<Rightarrow> if \<not> store_writer (rq_store r1) then (NGX_OK, r1)
            else (case pool_alloc (rq_pool r1) of (False, pl2) \<Rightarrow> (NGX_OK, r1\<lparr>rq_pool := pl2\<rparr>)
              | (True, pl2) \<Rightarrow> (case upsert_file_meta N (en_now E) (rq_shm r1) zone_name (hc_file_name (the (rq_cache r1)))
                          (concat (hc_keys (the (rq_cache r1)))) (en_now E) 0 tags of
                     (rc, s) \<Rightarrow> (NGX_OK, r1\<lparr>rq_pool := pl2, rq_shm := s\<rparr>))))"
      unfolding log_handler_def found_def using False by (simp only: if_False)
    show thesis
    proof (cases tz)
      case None
      then have "(rc, r') = (NGX_OK, r1)" using assms eq f by simp
      then have "rc = NGX_OK" "same_world r r'" using r1 by simp_all
      then show thesis by (rule skip)
    next
      case (Some a)
      obtain tags zn where a: "a = (tags, zn)" by fastforce
      obtain b pl2 where p: "pool_alloc pl0 = (b, pl2)" by fastforce
      obtain rc2 s where u: "upsert_file_meta N (en_now E) (rq_shm r) zn (hc_file_name c) (concat (hc_keys c)) (en_now E) 0 tags =
          (rc2, s)" by fastforce
      show thesis
      proof (cases "store_writer (rq_store r) \<and> b")
        case False
        then have "(rc, r') = (NGX_OK, r1) \<or> (rc, r') = (NGX_OK, r1\<lparr>rq_pool := pl2\<rparr>)"
          using assms eq f r1 Some a p by (cases b) (auto split: if_splits)
        then have "rc = NGX_OK" "same_world r r'" using r1 by auto
        then show thesis by (rule skip)
      next
        case True
        have "log_handler N E R r = (NGX_OK, r\<lparr>rq_pool := pl2, rq_shm := s\<rparr>)"
          using eq f r1 Some a p u c True by simp
        then show thesis using entry [OF _ c _ u] assms True tz Some a c by auto
      qed
    qed
  qed
qed

lemma log_handler_keeps:
  assumes ok: "ngx_core_ok N" and w: "world_ok N r" and z: "good_zones r" and nul: "names_ok r"
    and l: "log_handler N E R r = (rc, r')"
  shows "world_ok N r' \<and> stray (rq_shm r') = stray (rq_shm r) \<and> boot_done (rq_shm r') = boot_done (rq_shm r) \<and>
    rq_watch r' = rq_watch r \<and> rq_disk r' = rq_disk r"
  using l
proof (cases rule: log_handler_cases)
  case skip
  then show ?thesis using world_ok_same [OF skip(2) w] by (simp add: same_world_def)
next
  case (entry c tags zn s rc2 pl)
  have sok: "store_ok N (rq_shm r)" using w by (simp add: world_ok_def)
  have n: "c_nul \<notin> set zn" "c_nul \<notin> set (hc_file_name c)"
    using entry(2,6) nul z by (auto simp: names_ok_def good_zones_def good_zone_def)
  from upsert_file_meta_cases [OF ok sok n entry(4)] w show ?thesis by (simp add: entry(5) world_ok_def)
qed

text \<open>The statistics endpoint reads.\<close>

lemma snapshot_zone_world: "snapshot_zone E sz r = (snap, r') \<Longrightarrow> same_world r r'"
  by (auto simp: snapshot_zone_def Let_def split: prod.splits if_splits)

lemma snapshot_zones_world: "snapshot_zones E szs r = (snaps, r') \<Longrightarrow> same_world r r'"
proof (induction szs arbitrary: r snaps r')
  case (Cons sz szs)
  obtain snap r1 where s: "snapshot_zone E sz r = (snap, r1)" by fastforce
  then show ?case using Cons snapshot_zone_world [OF s] same_world_trans by (fastforce split: prod.splits)
qed simp

lemma metrics_handler_reads:
  assumes "metrics_handler N E r = (rc, r')"
  shows "rq_disk r' = rq_disk r \<and> rq_shm r' = rq_shm r \<and> rq_watch r' = rq_watch r \<and> rq_final r' = rq_final r"
proof -
  have "rq_disk q = rq_disk p" "rq_shm q = rq_shm p" "rq_watch q = rq_watch p" "rq_final q = rq_final p"
    if "snapshot_zones E szs p = (snaps, q)" for szs p snaps q
    using snapshot_zones_world [OF that] by (simp_all add: same_world_def)
  then show ?thesis using assms
    by (auto simp: metrics_handler_def Let_def split: if_splits prod.splits bool.splits)
qed

section \<open>Events\<close>

text \<open>What happens in a worker.  A walk in a thread is one event, \<open>Walk\<close>, when nothing happens meanwhile;
  otherwise each file it visits is an event of its own, \<open>Walk_file\<close>.  \<open>New\<close> is a request nginx starts: everything of its own is fresh.
  \<open>Nginx\<close> is what nginx, its cache manager and its loader do to the files and to the cache zone.
  \<open>Bootstrap\<close> is the retry timer, with the scratch memory of its scan.\<close>

datatype worker_event =
    New pool "http_cache option"
  | Purge req_env
  | Write_event req_env
  | Walk partial_task
  | Walk_file bool partial_ctx ngx_str
  | Walk_done req_env bool bool partial_task
  | Response req_env resp_env
  | Log req_env resp_env
  | Statistics metrics_env
  | Bootstrap boot_env int pool
  | Nginx disk "http_cache option"

definition fresh_request :: "pool \<Rightarrow> http_cache option \<Rightarrow> req \<Rightarrow> req" where
  "fresh_request pl c r =
     r\<lparr>rq_ctx := None, rq_pool := pl, rq_cache := c, rq_responses := [], rq_final := [],
       rq_write_event := Core_handler, rq_count := 1, rq_blocked := 0, rq_aio := False, rq_task := None\<rparr>"

definition worker_of :: "pool \<Rightarrow> req \<Rightarrow> worker" where
  "worker_of al r = \<lparr>wk_store = rq_store r, wk_watch = rq_watch r, wk_shm = rq_shm r,
     wk_pool = rq_cycle_pool r, wk_alloc = al\<rparr>"

inductive worker_step :: "ngx_core \<Rightarrow> http_core \<Rightarrow> main_conf \<Rightarrow> req \<Rightarrow> worker_event \<Rightarrow> req \<Rightarrow> bool"
  for N H m where
  new: "worker_step N H m r (New pl c) (fresh_request pl c r)"
| purge: "open_law E \<Longrightarrow> protocol_handler N H E r = (rc, r') \<Longrightarrow> worker_step N H m r (Purge E) r'"
| write_event: "open_law E \<Longrightarrow> worker_step N H m r (Write_event E) (purge_handler N H E r)"
| walk: "partial_thread N H t (rq_disk r) = (t', d) \<Longrightarrow> worker_step N H m r (Walk t) (r\<lparr>rq_disk := d\<rparr>)"
| walk_file: "(if soft then soft_partial_file_handler N H else delete_partial_file_handler N H) (pc, rq_disk r) path = (pc', d) \<Longrightarrow>
     worker_step N H m r (Walk_file soft pc path) (r\<lparr>rq_disk := d\<rparr>)"
| walk_done: "worker_step N H m r (Walk_done E timedout gone t) (partial_completion E timedout gone t r)"
| response: "header_filter N E R r = (rc, r') \<Longrightarrow> worker_step N H m r (Response E R) r'"
| log: "names_ok r \<Longrightarrow> log_handler N E R r = (rc, r') \<Longrightarrow> worker_step N H m r (Log E R) r'"
| statistics: "metrics_handler N E r = (rc, r') \<Longrightarrow> worker_step N H m r (Statistics E) r'"
| bootstrap: "now \<noteq> 0 \<Longrightarrow> boot_names_ok B now (mc_zones m) \<Longrightarrow>
     bootstrap_timer_handler N B now (Some m) (worker_of al r) = w \<Longrightarrow>
     worker_step N H m r (Bootstrap B now al) (r\<lparr>rq_watch := wk_watch w, rq_shm := wk_shm w\<rparr>)"
| nginx: "cache_ok (dk_cache d) \<Longrightarrow> worker_step N H m r (Nginx d c) (r\<lparr>rq_disk := d, rq_cache := c\<rparr>)"

inductive_cases purge_stepE: "worker_step N H m r (Purge E) r'"
inductive_cases log_stepE: "worker_step N H m r (Log E R) r'"

inductive worker_run :: "ngx_core \<Rightarrow> http_core \<Rightarrow> main_conf \<Rightarrow> req \<Rightarrow> worker_event list \<Rightarrow> req \<Rightarrow> bool"
  for N H m where
  nil: "worker_run N H m r [] r"
| cons: "worker_step N H m r e r1 \<Longrightarrow> worker_run N H m r1 es r2 \<Longrightarrow> worker_run N H m r (e # es) r2"

section \<open>The invariant of a worker\<close>

text \<open>The store and the cache zone are well-formed, and the tree of zones finds the zones of the
  configuration.\<close>

definition worker_ok :: "ngx_core \<Rightarrow> main_conf \<Rightarrow> req \<Rightarrow> bool" where
  "worker_ok N m r \<longleftrightarrow> world_ok N r \<and> watch_ok (rq_watch r) \<and> watch_zones (rq_watch r) = mc_zones m"

definition zones_ok :: "main_conf \<Rightarrow> bool" where
  "zones_ok m \<longleftrightarrow> distinct (map iz_cache (mc_zones m)) \<and> (\<forall>z \<in> set (mc_zones m). good_zone z)"

lemma find_zone_in: "find_zone zs cache = Some z \<Longrightarrow> z \<in> set zs"
  by (induction zs) (auto split: if_splits)

lemma worker_good_zones:
  assumes "worker_ok N m r" and "zones_ok m"
  shows "good_zones r"
  using assms runtime_lookup_zone_ok [of "rq_watch r"] find_zone_in
  by (fastforce simp: worker_ok_def zones_ok_def good_zones_def)

text \<open>What one event can do: \<open>evolves\<close> also says which event may write to the index.\<close>

definition evolves :: "req \<Rightarrow> worker_event \<Rightarrow> req \<Rightarrow> bool" where
  "evolves r e r' \<longleftrightarrow> stray (rq_shm r') = stray (rq_shm r) \<and>
     (\<forall>z. boot_done (rq_shm r) z \<longrightarrow> boot_done (rq_shm r') z) \<and>
     ((\<forall>z p. indexed r' z p = indexed r z p \<or> indexed r' z p = None) \<or>
      (\<exists>E R. e = Log E R) \<or> (\<exists>B now al. e = Bootstrap B now al))"

lemma evolves_safe:
  assumes "safe_step N E r r'" and "world_ok N r" and "good_zones r"
  shows "world_ok N r' \<and> rq_watch r' = rq_watch r \<and> evolves r e r'"
  using assms by (auto simp: safe_step_def only_removes_def evolves_def)

lemma evolves_same:
  assumes "rq_shm r' = rq_shm r"
  shows "evolves r e r'"
  using assms by (simp add: evolves_def indexed_def)

lemma bootstrap_timer_keeps:
  assumes ok: "ngx_core_ok N" and w: "worker_ok N m r" and now: "now \<noteq> 0" "boot_names_ok B now (mc_zones m)"
    and b: "bootstrap_timer_handler N B now (Some m) (worker_of al r) = wk"
  defines "r' \<equiv> r\<lparr>rq_watch := wk_watch wk, rq_shm := wk_shm wk\<rparr>"
  shows "worker_ok N m r' \<and> evolves r (Bootstrap B now al) r'"
proof -
  obtain rc s al1 wr where t: "try_bootstrap_zones N B now (Some m) (rq_store r) (rq_shm r) al ((rq_watch r)\<lparr>wr_timer := False\<rparr>) =
      (rc, s, al1, wr)" by (metis prod_cases4)
  have r': "r' = r\<lparr>rq_watch := wr\<lparr>wr_timer := rc = NGX_AGAIN\<rparr>, rq_shm := s\<rparr>"
    using b t by (auto simp: r'_def bootstrap_timer_handler_def worker_of_def)
  have timer: "watch_ok (x\<lparr>wr_timer := y\<rparr>) = watch_ok x" "watch_zones (x\<lparr>wr_timer := y\<rparr>) = watch_zones x" for x y
    by (simp_all add: watch_ok_def watch_zones_def zi_cache_def)
  have sok: "store_ok N (rq_shm r)" using w by (simp add: worker_ok_def world_ok_def)
  have "store_ok N s \<and> stray s = stray (rq_shm r) \<and> (\<forall>z. boot_done (rq_shm r) z \<longrightarrow> boot_done s z) \<and>
      watch_zones wr = watch_zones (rq_watch r) \<and> watch_ok wr"
  proof (cases "mc_zones m = [] \<or> \<not> store_writer (rq_store r)")
    case True
    then have "s = rq_shm r \<and> wr = (rq_watch r)\<lparr>wr_timer := False\<rparr>"
      using t by (cases "mc_zones m = []") (simp_all add: try_bootstrap_zones_def)
    then show ?thesis using w sok by (simp add: worker_ok_def timer)
  next
    case False
    then have "try_bootstrap_loop N B now (mc_zones m) False (rq_shm r) al ((rq_watch r)\<lparr>wr_timer := False\<rparr>) = (rc, s, al1, wr)"
      using t by (simp add: try_bootstrap_zones_def)
    from try_bootstrap_loop_ok [OF ok sok now this] w show ?thesis by (simp add: worker_ok_def timer)
  qed
  then show ?thesis using w by (auto simp: r' worker_ok_def world_ok_def evolves_def timer)
qed

lemma worker_step_keeps:
  assumes ok: "ngx_core_ok N" "http_core_ok H" and zs: "zones_ok m" and s: "worker_step N H m r e r'" and w: "worker_ok N m r"
  shows "worker_ok N m r' \<and> evolves r e r'"
  using s w
proof (cases rule: worker_step.cases)
  case (new pl c)
  then show ?thesis using w by (simp add: worker_ok_def world_ok_def fresh_request_def evolves_same)
next
  case (purge E rc)
  from evolves_safe [OF protocol_handler_life(1) [OF ok purge(2,3)]] show ?thesis
    using w worker_good_zones [OF w zs] by (auto simp: worker_ok_def)
next
  case (write_event E)
  from evolves_safe [OF purge_handler_life(1) [OF ok write_event(3)]] show ?thesis
    using w worker_good_zones [OF w zs] write_event(2) by (auto simp: worker_ok_def)
next
  case (walk t t' d)
  then obtain b pc where "partial_walk N H (tk_root t) (tk_soft t) (tk_partial t) (rq_disk r) = (b, pc, d)"
    by (auto simp: partial_thread_def split: prod.splits)
  from partial_walk_world [OF ok(2) _ this] show ?thesis using w walk
    by (simp add: worker_ok_def world_ok_def evolves_same)
next
  case (walk_file soft pc path pc' d)
  then have "walk_step N H soft (pc, rq_disk r) path = (pc', d)" by (cases soft) (simp_all add: partial_handlers)
  from walk_step_effect(1) [OF ok(2) _ this] show ?thesis using w walk_file(2)
    by (simp add: worker_ok_def world_ok_def step_effect_def evolves_same walk_file(1))
next
  case (walk_done E timedout gone t)
  from evolves_safe [OF partial_completion_safe] show ?thesis
    using w worker_good_zones [OF w zs] walk_done(2) by (auto simp: worker_ok_def)
next
  case (response E R rc)
  from header_filter_world [OF response(2)] show ?thesis
    using w world_ok_same by (auto simp: worker_ok_def same_world_def evolves_same)
next
  case (log E R rc)
  from log_handler_keeps [OF ok(1) _ _ log(2,3)] show ?thesis
    using w worker_good_zones [OF w zs] log(1) by (auto simp: worker_ok_def evolves_def)
next
  case (statistics E rc)
  from metrics_handler_reads [OF statistics(2)] show ?thesis
    using w by (simp add: worker_ok_def world_ok_def evolves_same)
next
  case (bootstrap now B al wk)
  show ?thesis using bootstrap(1,2) bootstrap_timer_keeps [OF ok(1) w bootstrap(3-5)] by simp
next
  case (nginx d c)
  then show ?thesis using w by (simp add: worker_ok_def world_ok_def evolves_same)
qed

text \<open>The lifting to runs, by rule induction.\<close>

lemma worker_run_keeps:
  assumes "worker_run N H m r es r'" and "ngx_core_ok N" "http_core_ok H" "zones_ok m" "worker_ok N m r"
  shows "worker_ok N m r' \<and> stray (rq_shm r') = stray (rq_shm r) \<and>
    (\<forall>z. boot_done (rq_shm r) z \<longrightarrow> boot_done (rq_shm r') z) \<and>
    ((\<forall>e \<in> set es. \<forall>E R B now al. e \<noteq> Log E R \<and> e \<noteq> Bootstrap B now al) \<longrightarrow>
       (\<forall>z p. indexed r' z p = indexed r z p \<or> indexed r' z p = None))"
  using assms
proof (induction rule: worker_run.induct)
  case (nil r)
  then show ?case by simp
next
  case (cons r e r1 es r2)
  note k = worker_step_keeps [OF cons.prems(1-3) cons.hyps(1) cons.prems(4)]
  note ih = cons.IH [OF cons.prems(1-3) conjunct1 [OF k]]
  have "\<forall>z p. indexed r2 z p = indexed r z p \<or> indexed r2 z p = None"
    if "\<forall>e \<in> set (e # es). \<forall>E R B now al. e \<noteq> Log E R \<and> e \<noteq> Bootstrap B now al"
    using that k ih unfolding evolves_def by (metis list.set_intros(1,2))
  then show ?case using k ih by (auto simp: evolves_def)
qed

section \<open>From a response to its index entry\<close>

lemma response_headers_ok:
  assumes "ngx_core_ok N" and "headers_no_nul wanted hs"
  shows "response_headers N [] wanted hs =
    (NGX_OK, [], Some (take max_tokens_per_scan (dedup_ci [] (header_tokens wanted hs))))"
  using headers_loop_ok [OF assms, of "[]"] by (simp add: response_headers_def)

text \<open>The filter remembers the tags of a response that is about to be cached.\<close>

lemma header_filter_tags:
  assumes "ngx_core_ok N" and "headers_no_nul (wanted_headers E) (re_headers_out R)" and "rq_pool r = []"
    and "rq_cache r = Some c" and "re_upstream R" and "re_cacheable R" and "location_enabled (en_loc E)"
    and "runtime_lookup_zone (rq_watch r) (hc_file_cache c) = Some zone" and "store_writer (rq_store r)"
  obtains x where "header_filter N E R r = (re_next R, r\<lparr>rq_ctx := Some x\<rparr>)"
    and "cx_index_tags x = Some (response_tags E R)" and "cx_index_zone_name x = iz_zone_name zone"
proof -
  let ?ts = "Some (response_tags E R)"
  have h: "response_headers N (rq_pool r) (wanted_headers E) (re_headers_out R) = (NGX_OK, [], ?ts)"
    using response_headers_ok [OF assms(1,2)] assms(3) by (simp add: response_tags_def)
  obtain y where y: "get_request_ctx (r\<lparr>rq_pool := []\<rparr>) = (Some y, r\<lparr>rq_pool := [], rq_ctx := Some y\<rparr>)"
    by (cases "rq_ctx r") (auto simp: get_request_ctx_def)
  have r: "r\<lparr>rq_pool := [], rq_ctx := u\<rparr> = r\<lparr>rq_ctx := u\<rparr>" for u using assms(3) by (cases r) simp
  let ?x = "y\<lparr>cx_index_tags := ?ts, cx_index_zone_name := iz_zone_name zone\<rparr>"
  have "header_filter N E R r = (re_next R, r\<lparr>rq_ctx := Some ?x\<rparr>)"
    using assms(4-9) h y r by (simp add: header_filter_def Let_def)
  then show thesis by (rule that) simp_all
qed

lemma log_handler_writes:
  assumes "rq_pool r = []" and "rq_cache r = Some c" and "hc_file_name c \<noteq> []" and "store_writer (rq_store r)"
    and "rq_ctx r = Some x" and "cx_index_tags x = Some tags"
  shows "log_handler N E R r = (NGX_OK, r\<lparr>rq_shm := snd (upsert_file_meta N (en_now E) (rq_shm r)
    (cx_index_zone_name x) (hc_file_name c) (concat (hc_keys c)) (en_now E) 0 (Some tags))\<rparr>)"
proof -
  have "r\<lparr>rq_pool := [], rq_shm := s\<rparr> = r\<lparr>rq_shm := s\<rparr>" for s using assms(1) by (cases r) simp
  then show ?thesis using assms by (simp add: log_handler_def log_tags_def split: prod.splits)
qed

text \<open>A request with no tags of its own recovers them from its response.\<close>

lemma log_handler_recovers:
  assumes "ngx_core_ok N" and "headers_no_nul (wanted_headers E) (re_headers_out R)"
    and "rq_pool r = []" and "rq_cache r = Some c" and "hc_file_name c \<noteq> []" and "store_writer (rq_store r)"
    and "\<And>x. rq_ctx r = Some x \<Longrightarrow> cx_index_tags x = None" and "\<not> (re_upstream R \<and> re_cache_hit R)"
    and "location_enabled (en_loc E)" and "runtime_lookup_zone (rq_watch r) (hc_file_cache c) = Some zone"
  shows "log_handler N E R r = (NGX_OK, r\<lparr>rq_shm := snd (upsert_file_meta N (en_now E) (rq_shm r)
    (iz_zone_name zone) (hc_file_name c) (concat (hc_keys c)) (en_now E) 0 (Some (response_tags E R)))\<rparr>)"
proof -
  have p: "r\<lparr>rq_pool := [], rq_shm := s\<rparr> = r\<lparr>rq_shm := s\<rparr>" "r\<lparr>rq_pool := []\<rparr> = r" for s using assms(3) by (cases r; simp)+
  have h: "response_headers N (rq_pool r) (wanted_headers E) (re_headers_out R) = (NGX_OK, [], Some (response_tags E R))"
    using response_headers_ok [OF assms(1,2)] assms(3) by (simp add: response_tags_def)
  have l: "log_tags r = (None, r)" using assms(7) by (simp add: log_tags_def split: option.splits)
  have "log_recover N E R r = (Some (Some (response_tags E R), iz_zone_name zone), r)"
    using assms(4,8-10) h p(2) by (auto simp: log_recover_def)
  then show ?thesis using assms(3-6) l p(1) by (simp add: log_handler_def split: prod.splits)
qed

end
