(* ===== verification/Worker_Theorems.thy ===== *)
theory Worker_Theorems
  imports Worker_Spec Demo
begin

text \<open>
  The theorems about a worker: its invariant over every run, a response that is tagged, indexed and
  purged by its tag, and what the log phase does to the entry of a request that is itself a purge.
\<close>

section \<open>The invariant\<close>

text \<open>C5: Whatever a worker does, in any order - requests and their continuations, walks in threads,
  responses and their log phase, statistics, the retry timer, and everything nginx itself does to the
  cache - the store and the cache zone stay well-formed, no block of the shared memory leaks, a zone
  that was indexed once stays marked so, the tree of zones finds exactly the zones of the
  configuration, and only the log phase and the retry timer ever add or change an index entry.\<close>

theorem worker_invariant:
  assumes "ngx_core_ok N" and "http_core_ok H" and "zones_ok m"
    and "world_ok N r" and "watch_ok (rq_watch r)" and "watch_zones (rq_watch r) = mc_zones m"
    and "worker_run N H m r es r'"
  shows "store_ok N (rq_shm r') \<and> cache_ok (dk_cache (rq_disk r')) \<and> stray (rq_shm r') = stray (rq_shm r) \<and>
    (\<forall>zn. boot_done (rq_shm r) zn \<longrightarrow> boot_done (rq_shm r') zn) \<and>
    (\<forall>cache. runtime_lookup_zone (rq_watch r') cache = find_zone (mc_zones m) cache) \<and>
    ((\<forall>e \<in> set es. (\<forall>E R. e \<noteq> Log E R) \<and> (\<forall>B now al. e \<noteq> Bootstrap B now al)) \<longrightarrow>
       (\<forall>zn p. view (rq_shm r') zn p = view (rq_shm r) zn p \<or> view (rq_shm r') zn p = None))"
proof -
  have w: "worker_ok N m r" using assms(4-6) by (simp add: worker_ok_def)
  note k = worker_run_keeps [OF assms(7,1-3) w]
  have "runtime_lookup_zone (rq_watch r') cache = find_zone (mc_zones m) cache" for cache
    using k runtime_lookup_zone_ok [of "rq_watch r'"] assms(3) by (simp add: worker_ok_def zones_ok_def)
  then show ?thesis using k by (simp add: worker_ok_def world_ok_def indexed_def)
qed

definition demo_events :: "worker_event list" where
  "demo_events = [Purge (demo_env [(''Cache-Tag'', ''t'')] ''key''), New [] None]"

definition demo_end :: req where
  "demo_end = fresh_request [] None
     (snd (protocol_handler core_total demo_http (demo_env [(''Cache-Tag'', ''t'')] ''key'') (demo_req ''key'')))"

lemma demo_worker_run: "worker_run core_total demo_http demo_main (demo_req ''key'') demo_events demo_end"
  unfolding demo_events_def demo_end_def
  by (rule worker_run.cons [OF worker_step.purge [OF demo_open_law prod.collapse [symmetric]]
        worker_run.cons [OF worker_step.new worker_run.nil]])

lemma demo_worker_ok: "zones_ok demo_main" "watch_ok (rq_watch (demo_req key))"
  "watch_zones (rq_watch (demo_req key)) = mc_zones demo_main" "mc_zones demo_main = [demo_zone]" "iz_cache demo_zone = 7"
  by (simp_all add: zones_ok_def demo_main_def demo_req_def demo_watch_def watch_ok_def watch_zones_def demo_zone_def
      good_zone_def zi_cache_def lessThan_Suc)

theorem worker_invariant_witness:
  "store_ok core_total (rq_shm demo_end) \<and> boot_done (rq_shm demo_end) ''z'' \<and>
   runtime_lookup_zone (rq_watch demo_end) 7 = Some demo_zone \<and> view (rq_shm demo_end) ''z'' [] = None"
proof -
  have s: "rq_shm (demo_req ''key'') = demo_shm" by (simp add: demo_req_def)
  have n: "view demo_shm ''z'' [] = None" using demo_shm_facts(2) by (simp add: demo_path_def)
  from worker_invariant [OF core_total_ok(1) demo_http_ok demo_worker_ok(1) demo_world demo_worker_ok(2,3) demo_worker_run]
  show ?thesis using demo_shm_facts(3) demo_worker_ok(4,5) n by (simp add: s demo_events_def) metis
qed

section \<open>From a response to the purge of its tag\<close>

lemma worker_run_nil [simp]: "worker_run N H m r [] r' \<longleftrightarrow> r' = r"
  by (auto elim: worker_run.cases intro: worker_run.nil)

lemma worker_run_cons [simp]:
  "worker_run N H m r (e # es) r' \<longleftrightarrow> (\<exists>r1. worker_step N H m r e r1 \<and> worker_run N H m r1 es r')"
  by (auto elim: worker_run.cases intro: worker_run.cons)

inductive_simps response_step [simp]: "worker_step N H m r (Response E R) r'"
inductive_simps nginx_step [simp]: "worker_step N H m r (Nginx d c) r'"
inductive_simps log_step [simp]: "worker_step N H m r (Log E R) r'"
inductive_simps new_step [simp]: "worker_step N H m r (New pl c) r'"

text \<open>The index after a response was cached and logged: an entry for its file under its key and its
  tags.\<close>

lemma response_indexed:
  assumes ok: "ngx_core_ok N" "slab_total N" "world_ok N r" "store_writer (rq_store r)" "rq_pool r = []"
    and E: "headers_no_nul (wanted_headers E) (re_headers_out R)" "location_enabled (en_loc E)"
    and R: "re_upstream R" "re_cacheable R"
    and c: "rq_cache r = Some c" "runtime_lookup_zone (rq_watch r) (hc_file_cache c) = Some zone" "good_zone zone"
    and c': "hc_file_name c' \<noteq> []" "c_nul \<notin> set (hc_file_name c')"
    and run: "worker_run N H m r [Response E R, Nginx d (Some c'), Log E2 R2] r'"
  shows "world_ok N r'" and "rq_watch r' = rq_watch r" and "rq_store r' = rq_store r" and "rq_disk r' = d"
    and "indexed r' (iz_zone_name zone) (hc_file_name c') =
      Some (concat (hc_keys c'), en_now E2, 0, response_tags E R)"
    and "boot_done (rq_shm r') = boot_done (rq_shm r)"
proof -
  obtain x where h: "header_filter N E R r = (re_next R, r\<lparr>rq_ctx := Some x\<rparr>)"
    and x: "cx_index_tags x = Some (response_tags E R)" "cx_index_zone_name x = iz_zone_name zone"
    using header_filter_tags [OF ok(1) E(1) ok(5) c(1) R E(2) c(2) ok(4)] by blast
  let ?r2 = "r\<lparr>rq_ctx := Some x, rq_disk := d, rq_cache := Some c'\<rparr>"
  obtain rc s where u: "upsert_file_meta N (en_now E2) (rq_shm r) (iz_zone_name zone) (hc_file_name c')
      (concat (hc_keys c')) (en_now E2) 0 (Some (response_tags E R)) = (rc, s)" by fastforce
  have "log_handler N E2 R2 ?r2 = (NGX_OK, ?r2\<lparr>rq_shm := s\<rparr>)"
    using log_handler_writes [of ?r2 c' x "response_tags E R" N E2 R2] ok(4,5) c' x u by simp
  then have r': "r' = ?r2\<lparr>rq_shm := s\<rparr>" and d: "cache_ok (dk_cache d)" using run h by auto
  have sok: "store_ok N (rq_shm r)" using ok(3) by (simp add: world_ok_def)
  have n: "c_nul \<notin> set (iz_zone_name zone)" using c(3) by (simp add: good_zone_def)
  note up = upsert_file_meta_cases [OF ok(1) sok n c'(2) u]
  have rc: "rc = NGX_OK" using upsert_total [OF ok(2)] u by (metis fst_conv)
  show "world_ok N r'" "rq_watch r' = rq_watch r" "rq_store r' = rq_store r" "rq_disk r' = d"
    "boot_done (rq_shm r') = boot_done (rq_shm r)"
    using up(1,6) d by (simp_all add: r' world_ok_def)
  show "indexed r' (iz_zone_name zone) (hc_file_name c') =
      Some (concat (hc_keys c'), en_now E2, 0, response_tags E R)"
    using up(4) [OF rc] by (simp add: r' indexed_def tags_elts_def)
qed

text \<open>C4: A tag that a response carried purges the response.  A response about to be cached passes the
  header filter, nginx writes its file, and the log phase indexes it under the response's tags (when
  memory suffices).  A later purge request for one of these tags that answers success or
  \<open>NOT_FOUND\<close> has purged this file: it is gone or says that it expired, and once it is gone the index
  does not list it any more.\<close>

theorem tagged_response_purged:
  assumes "ngx_core_ok N" and "http_core_ok H" and "slab_total N" and "world_ok N r" and "store_writer (rq_store r)"
    and "rq_pool r = []" and "headers_no_nul (wanted_headers E) (re_headers_out R)"
    and "location_enabled (en_loc E)" and "re_upstream R" and "re_cacheable R" and "rq_cache r = Some c"
    and "runtime_lookup_zone (rq_watch r) (hc_file_cache c) = Some zone" and "good_zone zone"
    and "hc_file_name c' \<noteq> []" and "c_nul \<notin> set (hc_file_name c')"
    and "worker_run N H m r [Response E R, Nginx d (Some c'), Log E2 R2, New pl c2] r1"
    and "index_purge N H E3 (hc_file_cache c) tags r1 = (rc, r2)"
    and "t \<in> set (response_tags E R)" and "t \<in> set tags"
    and "rc = NGX_OK \<or> rc = NGX_DECLINED \<and> declined_with r2 = NOT_FOUND"
  shows "path_purged H (request_mode N E3 (pc_soft (purge_conf E3))) (dk_os (rq_disk r2)) (hc_file_name c') \<and>
    (\<not> file_there r2 (hc_file_name c') \<longrightarrow> indexed r2 (iz_zone_name zone) (hc_file_name c') = None)"
proof -
  obtain r0 where r0: "worker_run N H m r [Response E R, Nginx d (Some c'), Log E2 R2] r0"
    and r1: "r1 = fresh_request pl c2 r0" using assms(16) by auto
  note i = response_indexed [OF assms(1,3-6) assms(7-15) r0]
  have same: "world_ok N r1" "rq_watch r1 = rq_watch r" "indexed r1 = indexed r0"
    using i(1,2) by (simp_all add: r1 fresh_request_def world_ok_def indexed_def fun_eq_iff)
  have z: "runtime_lookup_zone (rq_watch r1) (hc_file_cache c) = Some zone" using assms(12) same(2) by simp
  have "hc_file_name c' \<in> tag_paths r1 (iz_zone_name zone) tags"
    using i(5) assms(18,19) by (auto simp: tag_paths_def paths_by_tags_def same(3))
  with index_purge_spec [OF assms(1,2) same(1) z assms(13,17)] assms(20) show ?thesis by blast
qed

definition demo_resp :: resp_env where
  "demo_resp = \<lparr>re_upstream = True, re_cacheable = True, re_cache_hit = False,
     re_headers_out = [(''cache-tag'', ''v'')], re_next = NGX_OK\<rparr>"

definition demo_stored :: http_cache where
  "demo_stored = (demo_cache ''key'')\<lparr>hc_file_name := demo_path\<rparr>"

definition demo_empty :: req where
  "demo_empty = (demo_req ''key'')\<lparr>rq_shm := fst (snd (set_zone_state core_total 5 empty_shm ''z''
     \<lparr>st_bootstrap_complete = True, st_last_bootstrap_at = 5, st_last_updated_at = 5\<rparr>))\<rparr>"

definition demo_tagged :: req where
  "demo_tagged = snd (header_filter core_total (demo_env [] ''key'') demo_resp demo_empty)"

definition demo_logged :: req where
  "demo_logged = snd (log_handler core_total (demo_env [] ''key'') demo_resp
     (demo_tagged\<lparr>rq_disk := demo_disk, rq_cache := Some demo_stored\<rparr>))"

definition demo_cached :: req where
  "demo_cached = fresh_request [] (Some (demo_cache ''key'')) demo_logged"

lemma demo_cached_code:
  "fst (index_purge core_total H (demo_env [] ''key'') 7 [''v''] demo_cached) = NGX_OK"
  by code_simp

lemma demo_tagged_code:
  "case rq_ctx demo_tagged of Some x \<Rightarrow> cx_index_zone_name x = ''z'' | None \<Rightarrow> False"
  by code_simp

lemma demo_response_tags: "response_tags (demo_env [] ''key'') demo_resp = [''v'']"
  by code_simp

lemma demo_empty_fields: "rq_cache demo_empty = Some (demo_cache ''key'')" "rq_pool demo_empty = []"
  "rq_watch demo_empty = demo_watch" "store_writer (rq_store demo_empty)"
  by (simp_all add: demo_empty_def demo_req_def store_writer_def)

lemma demo_empty_world: "world_ok core_total demo_empty"
proof -
  let ?st = "\<lparr>st_bootstrap_complete = True, st_last_bootstrap_at = 5, st_last_updated_at = 5\<rparr>"
  obtain rc s st where t: "set_zone_state core_total 5 empty_shm ''z'' ?st = (rc, s, st)" by (metis prod_cases3)
  have z: "c_nul \<notin> set ''z''" by simp
  from set_zone_state_spec [OF core_total_ok(1) store_ok_empty(1) z t] show ?thesis
    using demo_world [of "''key''"] by (simp add: demo_empty_def t world_ok_def)
qed

lemma demo_cached_run: "worker_run core_total demo_http demo_main demo_empty
    [Response (demo_env [] ''key'') demo_resp, Nginx demo_disk (Some demo_stored), Log (demo_env [] ''key'') demo_resp,
     New [] (Some (demo_cache ''key''))] demo_cached"
proof -
  let ?r = "demo_tagged\<lparr>rq_disk := demo_disk, rq_cache := Some demo_stored\<rparr>"
  have n: "names_ok ?r" using demo_tagged_code demo_path_no_nul
    by (auto simp: names_ok_def demo_stored_def split: option.splits)
  have "worker_step core_total demo_http demo_main demo_empty (Response (demo_env [] ''key'') demo_resp) demo_tagged"
    by (rule worker_step.response) (simp add: demo_tagged_def prod_eq_iff)
  moreover have "worker_step core_total demo_http demo_main demo_tagged (Nginx demo_disk (Some demo_stored)) ?r"
    by (rule worker_step.nginx) (simp add: demo_cache_ok)
  moreover have "worker_step core_total demo_http demo_main ?r (Log (demo_env [] ''key'') demo_resp) demo_logged"
    by (rule worker_step.log [OF n]) (simp add: demo_logged_def prod_eq_iff)
  moreover have "worker_step core_total demo_http demo_main demo_logged (New [] (Some (demo_cache ''key''))) demo_cached"
    unfolding demo_cached_def by (rule worker_step.new)
  ultimately show ?thesis by (blast intro: worker_run.intros)
qed

theorem tagged_response_purged_witness:
  "let r2 = snd (index_purge core_total demo_http (demo_env [] ''key'') 7 [''v''] demo_cached)
   in \<not> file_there r2 demo_path \<and> indexed r2 ''z'' demo_path = None"
proof -
  obtain r2 where p: "index_purge core_total demo_http (demo_env [] ''key'') 7 [''v''] demo_cached = (NGX_OK, r2)"
    using demo_cached_code by (metis prod.collapse)
  have m: "request_mode core_total (demo_env [] ''key'') (pc_soft (purge_conf (demo_env [] ''key''))) = False"
    by code_simp
  have t: "slab_total core_total" by (rule core_total_ok(2))
  have h: "headers_no_nul (wanted_headers (demo_env [] ''key'')) (re_headers_out demo_resp)"
    unfolding headers_no_nul_def c_nul_def by code_simp
  have l: "location_enabled (en_loc (demo_env [] ''key''))" by code_simp
  have u: "re_upstream demo_resp" "re_cacheable demo_resp" by (simp_all add: demo_resp_def)
  have z: "runtime_lookup_zone (rq_watch demo_empty) (hc_file_cache (demo_cache ''key'')) = Some demo_zone"
    using demo_lookup [of "''key''"] by (simp add: demo_empty_def)
  have f: "hc_file_name demo_stored = demo_path" "demo_path \<noteq> []" by (simp_all add: demo_stored_def demo_path_def)
  have v: "''v'' \<in> set (response_tags (demo_env [] ''key'') demo_resp)" by (simp add: demo_response_tags)
  have i: "index_purge core_total demo_http (demo_env [] ''key'') (hc_file_cache (demo_cache ''key'')) [''v''] demo_cached = (NGX_OK, r2)"
    using p by simp
  from tagged_response_purged [OF core_total_ok(1) demo_http_ok t demo_empty_world demo_empty_fields(4,2) h l u
      demo_empty_fields(1) z demo_good(1) _ _ demo_cached_run i v]
  show ?thesis using f demo_path_no_nul by (auto simp: p m path_purged_def file_there_def)
qed

section \<open>The log phase of a purge request\<close>

text \<open>C37: The log phase indexes every request that leaves the name of a cache file behind.  A request
  with no tags of its own, not served from the cache, in an indexing location - a purge request among
  them - enters its file with the tags of its own response, whatever the index listed before: the old
  tags are forgotten, so a purge by one of them no longer reaches the file.\<close>

theorem log_phase_retags:
  assumes "ngx_core_ok N" and "slab_total N" and "store_ok N (rq_shm r)" and "store_writer (rq_store r)"
    and "headers_no_nul (wanted_headers E) (re_headers_out R)" and "rq_pool r = []" and "rq_cache r = Some c"
    and "hc_file_name c \<noteq> []" and "c_nul \<notin> set (hc_file_name c)"
    and "\<And>x. rq_ctx r = Some x \<Longrightarrow> cx_index_tags x = None" and "\<not> (re_upstream R \<and> re_cache_hit R)"
    and "location_enabled (en_loc E)" and "runtime_lookup_zone (rq_watch r) (hc_file_cache c) = Some zone"
    and "good_zone zone" and "log_handler N E R r = (rc, r')"
  shows "rc = NGX_OK \<and> rq_disk r' = rq_disk r \<and>
    indexed r' = (indexed r)(iz_zone_name zone := (indexed r (iz_zone_name zone))(hc_file_name c \<mapsto>
      (concat (hc_keys c), en_now E, 0, response_tags E R))) \<and>
    (set (response_tags E R) \<inter> set tags = {} \<longrightarrow> hc_file_name c \<notin> tag_paths r' (iz_zone_name zone) tags)"
proof -
  obtain rc2 s where u: "upsert_file_meta N (en_now E) (rq_shm r) (iz_zone_name zone) (hc_file_name c)
      (concat (hc_keys c)) (en_now E) 0 (Some (response_tags E R)) = (rc2, s)" by fastforce
  have l: "rc = NGX_OK" "r' = r\<lparr>rq_shm := s\<rparr>"
    using log_handler_recovers [OF assms(1,5-7,8,4,10-13)] assms(15) u by simp_all
  have n: "c_nul \<notin> set (iz_zone_name zone)" using assms(14) by (simp add: good_zone_def)
  have "rc2 = NGX_OK" using upsert_total [OF assms(2)] u by (metis fst_conv)
  note v = upsert_file_meta_cases(4) [OF assms(1,3) n assms(9) u this]
  have i: "indexed r' = (indexed r)(iz_zone_name zone := (indexed r (iz_zone_name zone))(hc_file_name c \<mapsto>
      (concat (hc_keys c), en_now E, 0, response_tags E R)))"
    using v by (simp add: l(2) indexed_def fun_eq_iff tags_elts_def)
  then show ?thesis by (auto simp: l tag_paths_def paths_by_tags_def)
qed

definition demo_soft_end :: "http_core \<Rightarrow> req" where
  "demo_soft_end H = snd (protocol_handler core_total H (demo_env [(''X-Mode'', ''soft'')] ''key'') (demo_req ''key''))"

definition demo_answer :: resp_env where
  "demo_answer = demo_resp\<lparr>re_cacheable := False, re_headers_out := []\<rparr>"

lemma demo_soft_end_code:
  "case protocol_handler core_total (http_with w) (demo_env [(''X-Mode'', ''soft'')] ''key'') (demo_req ''key'') of
     (rc, r) \<Rightarrow> rc = NGX_DONE \<and> rq_final r = [NGX_OK] \<and> rq_pool r = [] \<and> store_writer (rq_store r) \<and>
       (case rq_ctx r of Some x \<Rightarrow> cx_index_tags x = None | None \<Rightarrow> False) \<and>
       (case rq_cache r of Some c \<Rightarrow> hc_file_name c = demo_path \<and> hc_file_cache c = 7 \<and> hc_keys c = [''key'']
          | None \<Rightarrow> False)"
  by code_simp

theorem log_phase_retags_witness:
  "demo_path \<in> tag_paths (demo_req ''key'') ''z'' [''t''] \<and>
   demo_path \<notin> tag_paths (snd (log_handler core_total (demo_env [] ''key'') demo_answer (demo_soft_end demo_http))) ''z'' [''t'']"
proof -
  let ?E = "demo_env [(''X-Mode'', ''soft'')] ''key''" and ?r = "demo_soft_end demo_http"
  obtain w where w: "demo_http = http_with w" by (auto simp: demo_http_def http_ref_def)
  obtain rc r where p: "protocol_handler core_total demo_http ?E (demo_req ''key'') = (rc, r)" by fastforce
  have r: "?r = r" by (simp add: demo_soft_end_def p)
  from demo_soft_end_code [of w] p obtain x c where f: "rq_ctx r = Some x" "cx_index_tags x = None" "rq_pool r = []"
    "store_writer (rq_store r)" "rq_cache r = Some c" "hc_file_name c = demo_path" "hc_file_cache c = 7"
    by (auto simp: w split: option.splits)
  have good: "good_zones (demo_req ''key'')"
    using worker_good_zones [of core_total demo_main "demo_req ''key''"] demo_worker_ok by (simp add: worker_ok_def)
  from evolves_safe [OF protocol_handler_life(1) [OF core_total_ok(1) demo_http_ok demo_open_law p] demo_world good]
  have k: "store_ok core_total (rq_shm r)" "rq_watch r = rq_watch (demo_req ''key'')" by (auto simp: world_ok_def)
  have h: "headers_no_nul (wanted_headers (demo_env [] ''key'')) (re_headers_out demo_answer)"
    unfolding headers_no_nul_def c_nul_def by code_simp
  have l: "location_enabled (en_loc (demo_env [] ''key''))" "\<not> (re_upstream demo_answer \<and> re_cache_hit demo_answer)"
    "response_tags (demo_env [] ''key'') demo_answer = []" by code_simp+
  have n: "hc_file_name c \<noteq> []" "c_nul \<notin> set (hc_file_name c)" using demo_path_no_nul by (simp_all add: f demo_path_def)
  have ctx: "\<And>y. rq_ctx r = Some y \<Longrightarrow> cx_index_tags y = None" using f by simp
  have z: "runtime_lookup_zone (rq_watch r) (hc_file_cache c) = Some demo_zone" using k(2) f by simp
  from log_phase_retags [OF core_total_ok(1,2) k(1) f(4) h f(3,5) n ctx l(2,1) z demo_good(1) prod.collapse [symmetric],
      of "[''t'']"]
  show ?thesis using demo_indexed by (auto simp: r f l(3) tag_paths_def paths_by_tags_def)
qed

end
