(* ===== verification/Commands.thy ===== *)
theory Commands
  imports Conf
begin

text \<open>
  The directives of the module as nginx sees them: the table of its commands with the blocks they may
  stand in and the number of their arguments, and what reading one directive does
  (\<^verbatim>\<open>src/src/ngx_cache_pilot_module.c\<close>).
\<close>

section \<open>The table\<close>

datatype conf_level = Main_level | Srv_level | Loc_level

datatype arg_spec = Take1 | One_more | Flag_arg | Any_args

datatype setter = Set_size_slot | Set_flag_slot | Set_enum_slot
  | Tag_headers_conf | Fastcgi_purge_conf | Proxy_purge_conf | Scgi_purge_conf | Uwsgi_purge_conf
  | Mode_header_conf | Stats_conf

record command =
  cm_name :: string
  cm_levels :: "conf_level list"
  cm_args :: arg_spec
  cm_set :: setter

definition response_types :: "(string \<times> resp_type) list" where
  "response_types = [(''json'', RESPONSE_TYPE_JSON), (''text'', RESPONSE_TYPE_TEXT)]"

definition any_level :: "conf_level list" where
  "any_level = [Main_level, Srv_level, Loc_level]"

definition module_commands :: "command list" where
  "module_commands =
     [\<lparr>cm_name = ''cache_pilot_index_zone_size'', cm_levels = [Main_level], cm_args = Take1, cm_set = Set_size_slot\<rparr>,
      \<lparr>cm_name = ''cache_pilot_tag_headers'', cm_levels = any_level, cm_args = One_more, cm_set = Tag_headers_conf\<rparr>,
      \<lparr>cm_name = ''cache_pilot_index'', cm_levels = any_level, cm_args = Flag_arg, cm_set = Set_flag_slot\<rparr>,
      \<lparr>cm_name = ''fastcgi_cache_purge'', cm_levels = any_level, cm_args = One_more, cm_set = Fastcgi_purge_conf\<rparr>,
      \<lparr>cm_name = ''proxy_cache_purge'', cm_levels = any_level, cm_args = One_more, cm_set = Proxy_purge_conf\<rparr>,
      \<lparr>cm_name = ''scgi_cache_purge'', cm_levels = any_level, cm_args = One_more, cm_set = Scgi_purge_conf\<rparr>,
      \<lparr>cm_name = ''uwsgi_cache_purge'', cm_levels = any_level, cm_args = One_more, cm_set = Uwsgi_purge_conf\<rparr>,
      \<lparr>cm_name = ''cache_pilot_purge_response_type'', cm_levels = any_level, cm_args = Take1, cm_set = Set_enum_slot\<rparr>,
      \<lparr>cm_name = ''cache_pilot_purge_mode_header'', cm_levels = any_level, cm_args = Take1, cm_set = Mode_header_conf\<rparr>,
      \<lparr>cm_name = ''cache_pilot_stats'', cm_levels = [Loc_level], cm_args = Any_args, cm_set = Stats_conf\<rparr>]"

section \<open>Reading a directive\<close>

text \<open>nginx's setters for a size, a flag and an enumeration, on the slot they set, and its compiler of
  complex values are parameters.  A setter gets the old value of the slot and the arguments, the name
  of the directive first.\<close>

record conf_slots =
  co_size :: "nat option \<Rightarrow> ngx_str list \<Rightarrow> conf_result \<times> nat option"
  co_flag :: "flag \<Rightarrow> ngx_str list \<Rightarrow> conf_result \<times> flag"
  co_enum :: "(string \<times> resp_type) list \<Rightarrow> resp_type option \<Rightarrow> ngx_str list \<Rightarrow> conf_result \<times> resp_type option"
  co_compile :: "ngx_str \<Rightarrow> complex_value option"

text \<open>What a directive can change: the main configuration, and the block it stands in.\<close>

record conf_block =
  cb_main :: main_conf
  cb_core :: core_loc
  cb_loc :: loc_conf

definition set_loc :: "conf_result \<times> loc_conf \<Rightarrow> conf_block \<Rightarrow> conf_result \<times> conf_block" where
  "set_loc rc b = (case rc of (r, c) \<Rightarrow> (r, b\<lparr>cb_loc := c\<rparr>))"

fun run_setter ::
  "conf_slots \<Rightarrow> conf_level \<Rightarrow> pool \<Rightarrow> (ngx_str \<times> addr) option list option list \<Rightarrow> ngx_str list \<Rightarrow>
     setter \<Rightarrow> conf_block \<Rightarrow> conf_result \<times> conf_block" where
  "run_setter S level pl mains args Set_size_slot b =
     (case co_size S (mc_index_shm_size (cb_main b)) args of
        (r, n) \<Rightarrow> (r, b\<lparr>cb_main := (cb_main b)\<lparr>mc_index_shm_size := n\<rparr>\<rparr>))"
| "run_setter S level pl mains args Set_flag_slot b =
     (case co_flag S (lc_cache_index (cb_loc b)) args of
        (r, f) \<Rightarrow> (r, b\<lparr>cb_loc := (cb_loc b)\<lparr>lc_cache_index := f\<rparr>\<rparr>))"
| "run_setter S level pl mains args Set_enum_slot b =
     (case co_enum S response_types (lc_resptype (cb_loc b)) args of
        (r, t) \<Rightarrow> (r, b\<lparr>cb_loc := (cb_loc b)\<lparr>lc_resptype := t\<rparr>\<rparr>))"
| "run_setter S level pl mains args Tag_headers_conf b =
     set_loc (headers_conf (level = Loc_level) pl args (cb_loc b)) b"
| "run_setter S level pl mains args Fastcgi_purge_conf b =
     set_loc (fastcgi_cache_purge_conf (co_compile S) pl args (cb_loc b)) b"
| "run_setter S level pl mains args Proxy_purge_conf b =
     set_loc (proxy_cache_purge_conf (co_compile S) pl args (cb_loc b)) b"
| "run_setter S level pl mains args Scgi_purge_conf b =
     set_loc (scgi_cache_purge_conf (co_compile S) pl args (cb_loc b)) b"
| "run_setter S level pl mains args Uwsgi_purge_conf b =
     set_loc (uwsgi_cache_purge_conf (co_compile S) pl args (cb_loc b)) b"
| "run_setter S level pl mains args Mode_header_conf b =
     set_loc (mode_header_conf (level = Loc_level) args (cb_loc b)) b"
| "run_setter S level pl mains args Stats_conf b =
     (case stats_conf pl mains args (cb_core b) (cb_loc b) of
        (r, core, c) \<Rightarrow> (r, b\<lparr>cb_core := core, cb_loc := c\<rparr>))"

text \<open>nginx calls the setter of a command only in a block the command allows and with a number of
  arguments that it takes; \<open>nargs\<close> counts the name.\<close>

fun args_fit :: "arg_spec \<Rightarrow> nat \<Rightarrow> bool" where
  "args_fit Take1 nargs \<longleftrightarrow> nargs = 2"
| "args_fit Flag_arg nargs \<longleftrightarrow> nargs = 2"
| "args_fit One_more nargs \<longleftrightarrow> nargs \<ge> 2"
| "args_fit Any_args nargs \<longleftrightarrow> nargs \<ge> 1"

definition directive ::
  "conf_slots \<Rightarrow> conf_level \<Rightarrow> pool \<Rightarrow> (ngx_str \<times> addr) option list option list \<Rightarrow> ngx_str list \<Rightarrow>
     conf_block \<Rightarrow> conf_result \<times> conf_block" where
  "directive S level pl mains args b =
     (case find (\<lambda>cmd. args \<noteq> [] \<and> cm_name cmd = hd args) module_commands of
        None \<Rightarrow> (CONF_ERROR, b)
      | Some cmd \<Rightarrow>
          if \<not> List.member (cm_levels cmd) level then (CONF_ERROR, b)
          else if \<not> args_fit (cm_args cmd) (length args) then (CONF_ERROR, b)
          else run_setter S level pl mains args (cm_set cmd) b)"

text \<open>The directives of the module in one block, up to the first error.\<close>

fun read_block ::
  "conf_slots \<Rightarrow> conf_level \<Rightarrow> (pool \<times> (ngx_str \<times> addr) option list option list \<times> ngx_str list) list \<Rightarrow>
     conf_block \<Rightarrow> conf_result \<times> conf_block" where
  "read_block S level [] b = (CONF_OK, b)"
| "read_block S level ((pl, mains, args) # ds) b =
     (case directive S level pl mains args b of
        (r, b1) \<Rightarrow> if r \<noteq> CONF_OK then (r, b1) else read_block S level ds b1)"

end
