(* ===== verification/Conf_Spec.thy ===== *)
theory Conf_Spec
  imports Request Commands
begin

text \<open>
  What reading a configuration establishes: the chain of content handlers of a location ends, and every
  location that can purge through the index has its cache in the table of zones, once.
\<close>

section \<open>The table of zones\<close>

lemma find_zone_append: "find_zone (xs @ ys) c = (case find_zone xs c of None \<Rightarrow> find_zone ys c | Some z \<Rightarrow> Some z)"
  by (induction xs) auto

lemma find_zone_None: "find_zone zs c = None \<longleftrightarrow> c \<notin> iz_cache ` set zs"
  by (induction zs) auto

definition zone_table :: "main_conf option \<Rightarrow> index_zone list" where
  "zone_table m = (case m of None \<Rightarrow> [] | Some x \<Rightarrow> mc_zones x)"

text \<open>One zone per cache, under the name of the cache.\<close>

definition table_ok :: "(addr \<Rightarrow> ngx_str) \<Rightarrow> main_conf option \<Rightarrow> bool" where
  "table_ok names m \<longleftrightarrow> distinct (map iz_cache (zone_table m)) \<and>
     (\<forall>z \<in> set (zone_table m). iz_zone_name z = names (iz_cache z))"

text \<open>The table only grows.\<close>

definition table_grows :: "main_conf option \<Rightarrow> main_conf option \<Rightarrow> bool" where
  "table_grows m m' \<longleftrightarrow> store_configured m' = store_configured m \<and>
     (\<exists>zs. zone_table m' = zone_table m @ zs)"

lemma table_grows_refl [simp]: "table_grows m m"
  by (simp add: table_grows_def)

lemma table_grows_find:
  "table_grows m m' \<Longrightarrow> find_zone (zone_table m) c = Some z \<Longrightarrow> find_zone (zone_table m') c = Some z"
  by (auto simp: table_grows_def find_zone_append)

lemma register_cache_ok:
  assumes "register_cache N names pl m cache hs = (rc, pl', m')" and "table_ok names m"
  shows "table_ok names m'" and "table_grows m m'"
    and "rc = NGX_OK \<Longrightarrow> store_configured m \<Longrightarrow> cache = Some c \<Longrightarrow>
      \<exists>z. find_zone (zone_table m') c = Some z \<and> iz_zone_name z = names c \<and> headers_equal N (iz_headers z) hs"
proof -
  consider (same) "m' = m" "cache = None \<or> \<not> store_configured m \<or> rc \<noteq> NGX_OK"
    | (found) c z where "m' = m" "cache = Some c" "find_zone (zone_table m) c = Some z" "headers_equal N (iz_headers z) hs"
    | (new) c x where "cache = Some c" "m = Some x" "find_zone (zone_table m) c = None"
        "m' = Some (x\<lparr>mc_zones := mc_zones x @ [\<lparr>iz_zone_name = names c, iz_cache = c, iz_headers = hs\<rparr>]\<rparr>)"
    using assms(1)
    by (cases m; cases cache)
      (auto simp: register_cache_def Let_def zone_table_def store_configured_def split: if_splits option.splits prod.splits bool.splits)
  note cases = this
  have z: "find_zone zs c = Some z \<Longrightarrow> z \<in> set zs \<and> iz_cache z = c" for zs and z :: index_zone and c
    by (induction zs) (auto split: if_splits)
  show "table_ok names m'" "table_grows m m'" using cases assms(2)
    by (cases; auto simp: table_ok_def table_grows_def zone_table_def store_configured_def find_zone_None)+
  show "\<exists>z. find_zone (zone_table m') c = Some z \<and> iz_zone_name z = names c \<and> headers_equal N (iz_headers z) hs"
    if "rc = NGX_OK" "store_configured m" "cache = Some c"
    using cases
  proof cases
    case same
    then show ?thesis using that by simp
  next
    case (found d z1)
    then show ?thesis using that z [of "zone_table m" d z1] assms(2) by (auto simp: table_ok_def)
  next
    case (new d x)
    then show ?thesis using that by (auto simp: zone_table_def find_zone_append headers_equal_def)
  qed
qed

section \<open>Merging one location\<close>

text \<open>The configuration of a location before it is merged: no directive sets the handlers.\<close>

definition fresh_loc :: "loc_conf \<Rightarrow> bool" where
  "fresh_loc c \<longleftrightarrow> lc_handler c = None \<and> lc_original_handler c = None \<and> lc_conf c = Ptr_unset \<and> lc_protocol c = None"

lemma fresh_loc_created: "create_loc_conf pl = Some c \<Longrightarrow> fresh_loc c"
  by (auto simp: create_loc_conf_def fresh_loc_def split: prod.splits bool.splits)

lemma fresh_loc_directives:
  "fresh_loc (snd (protocol_conf_set compile pl val c proto)) = fresh_loc c"
  "fresh_loc (snd (mode_header_conf in_loc val c)) = fresh_loc c"
  "fresh_loc (snd (headers_conf in_loc pl val c)) = fresh_loc c"
  "fresh_loc (snd (snd (stats_conf pl mains args core c))) = fresh_loc c"
  "fst (stats_conf pl mains args core c) = CONF_OK \<Longrightarrow> cl_handler (fst (snd (stats_conf pl mains args core c))) = Some Metrics_handler"
  by (auto simp: fresh_loc_def protocol_conf_set_def mode_header_conf_def headers_conf_def stats_conf_def
      split: prod.splits bool.splits)

text \<open>Neither does reading the directives of a block, and none makes the module's handler the content
  handler.\<close>

lemma run_setter_fresh:
  assumes "run_setter S level pl mains args st b = (r, b')"
  shows "fresh_loc (cb_loc b') = fresh_loc (cb_loc b)" and "mc_zones (cb_main b') = mc_zones (cb_main b)"
    and "cl_handler (cb_core b) \<noteq> Some Access_handler \<Longrightarrow> cl_handler (cb_core b') \<noteq> Some Access_handler"
proof -
  let ?keeps = "fresh_loc (cb_loc b') = fresh_loc (cb_loc b) \<and> mc_zones (cb_main b') = mc_zones (cb_main b) \<and>
    (cl_handler (cb_core b) \<noteq> Some Access_handler \<longrightarrow> cl_handler (cb_core b') \<noteq> Some Access_handler)"
  have l: ?keeps if "set_loc y b = (r, b')" "fresh_loc (snd y) = fresh_loc (cb_loc b)" for y
    using that by (auto simp: set_loc_def split: prod.splits)
  have ?keeps
  proof (cases st)
    case Set_size_slot
    then show ?thesis using assms by (auto split: prod.splits)
  next
    case Set_flag_slot
    then show ?thesis using assms by (auto simp: fresh_loc_def split: prod.splits)
  next
    case Set_enum_slot
    then show ?thesis using assms by (auto simp: fresh_loc_def split: prod.splits)
  next
    case Tag_headers_conf
    show ?thesis by (rule l [OF assms [unfolded Tag_headers_conf run_setter.simps] fresh_loc_directives(3)])
  next
    case Fastcgi_purge_conf
    show ?thesis by (rule l [OF assms [unfolded Fastcgi_purge_conf run_setter.simps fastcgi_cache_purge_conf_def] fresh_loc_directives(1)])
  next
    case Proxy_purge_conf
    show ?thesis by (rule l [OF assms [unfolded Proxy_purge_conf run_setter.simps proxy_cache_purge_conf_def] fresh_loc_directives(1)])
  next
    case Scgi_purge_conf
    show ?thesis by (rule l [OF assms [unfolded Scgi_purge_conf run_setter.simps scgi_cache_purge_conf_def] fresh_loc_directives(1)])
  next
    case Uwsgi_purge_conf
    show ?thesis by (rule l [OF assms [unfolded Uwsgi_purge_conf run_setter.simps uwsgi_cache_purge_conf_def] fresh_loc_directives(1)])
  next
    case Mode_header_conf
    show ?thesis by (rule l [OF assms [unfolded Mode_header_conf run_setter.simps] fresh_loc_directives(2)])
  next
    case Stats_conf
    obtain q core c where sc: "stats_conf pl mains args (cb_core b) (cb_loc b) = (q, core, c)" by (metis prod_cases3)
    then have "core = cb_core b \<or> cl_handler core = Some Metrics_handler" "fresh_loc c = fresh_loc (cb_loc b)"
      using fresh_loc_directives(4) [of pl mains args "cb_core b" "cb_loc b"]
      by (auto simp: stats_conf_def split: prod.splits bool.splits if_splits)
    then show ?thesis using assms sc Stats_conf by auto
  qed
  then show "fresh_loc (cb_loc b') = fresh_loc (cb_loc b)" "mc_zones (cb_main b') = mc_zones (cb_main b)"
    "cl_handler (cb_core b) \<noteq> Some Access_handler \<Longrightarrow> cl_handler (cb_core b') \<noteq> Some Access_handler" by blast+
qed

lemma directive_fresh:
  assumes "directive S level pl mains args b = (r, b')"
  shows "fresh_loc (cb_loc b') = fresh_loc (cb_loc b)" and "mc_zones (cb_main b') = mc_zones (cb_main b)"
    and "cl_handler (cb_core b) \<noteq> Some Access_handler \<Longrightarrow> cl_handler (cb_core b') \<noteq> Some Access_handler"
proof -
  have "b' = b \<or> (\<exists>st. run_setter S level pl mains args st b = (r, b'))"
    using assms by (auto simp: directive_def split: option.splits if_splits)
  then show "fresh_loc (cb_loc b') = fresh_loc (cb_loc b)" "mc_zones (cb_main b') = mc_zones (cb_main b)"
    "cl_handler (cb_core b) \<noteq> Some Access_handler \<Longrightarrow> cl_handler (cb_core b') \<noteq> Some Access_handler"
    using run_setter_fresh [of S level pl mains args _ b r b'] by auto
qed

lemma read_block_fresh:
  assumes "read_block S level ds b = (r, b')"
  shows "fresh_loc (cb_loc b') = fresh_loc (cb_loc b) \<and> mc_zones (cb_main b') = mc_zones (cb_main b) \<and>
    (cl_handler (cb_core b) \<noteq> Some Access_handler \<longrightarrow> cl_handler (cb_core b') \<noteq> Some Access_handler)"
  using assms
proof (induction ds arbitrary: b)
  case (Cons d ds)
  obtain pl mains args where d: "d = (pl, mains, args)" by (metis prod_cases3)
  obtain r1 b1 where b1: "directive S level pl mains args b = (r1, b1)" by fastforce
  show ?case using Cons directive_fresh [OF b1] by (auto simp: d b1 split: if_splits)
qed simp

text \<open>\<open>no_loop\<close>: the module's own handler is never kept as the original one.\<close>

definition no_loop :: "loc_conf \<Rightarrow> bool" where
  "no_loop c \<longleftrightarrow> lc_original_handler c \<noteq> Some Access_handler \<and> lc_handler c \<in> {None, Some Protocol_handler}"

lemma fresh_no_loop: "fresh_loc c \<Longrightarrow> no_loop c"
  by (simp add: fresh_loc_def no_loop_def)

text \<open>\<open>attached\<close>: what is true of a location whose handler is the module's.\<close>

definition attached :: "ngx_core \<Rightarrow> (addr \<Rightarrow> ngx_str) \<Rightarrow> (protocol_id \<Rightarrow> proto_loc) \<Rightarrow> loc_conf \<Rightarrow> main_conf option \<Rightarrow> bool" where
  "attached N names plocs c m \<longleftrightarrow> (\<exists>p. protocol_by_id (Some (pr_id p)) = Some p \<and> lc_protocol c = Some (Some (pr_id p)) \<and>
     lc_conf c = Ptr (lc_slot c (pr_id p)) \<and>
     (lc_handler c \<noteq> None \<and> is_set (lc_cache_index c) \<and> store_configured m \<longrightarrow>
        (\<forall>a. pr_cache p (plocs (pr_id p)) = Some a \<longrightarrow>
          (\<exists>z. find_zone (zone_table m) a = Some z \<and> iz_zone_name z = names a \<and>
             headers_equal N (iz_headers z) (lc_cache_tag_headers c)))))"

lemma attached_grows: "attached N names plocs c m \<Longrightarrow> table_grows m m' \<Longrightarrow> attached N names plocs c m'"
proof -
  assume a: "attached N names plocs c m" and g: "table_grows m m'"
  have "store_configured m' = store_configured m" using g by (simp add: table_grows_def)
  then show "attached N names plocs c m'" using a unfolding attached_def by (elim ex_forward) (meson table_grows_find [OF g])
qed

lemma register_if_indexed_ok:
  assumes "register_if_indexed N names p pl s = (res, s')" and "table_ok names (cs_main s)"
  shows "table_ok names (cs_main s') \<and> table_grows (cs_main s) (cs_main s') \<and>
    cs_conf s' = cs_conf s \<and> cs_clcf s' = cs_clcf s \<and>
    (res = CONF_OK \<and> store_configured (cs_main s') \<longrightarrow> (\<forall>a. pr_cache p pl = Some a \<longrightarrow>
      (\<exists>z. find_zone (zone_table (cs_main s')) a = Some z \<and> iz_zone_name z = names a \<and>
        headers_equal N (iz_headers z) (lc_cache_tag_headers (cs_conf s)))))"
proof -
  obtain rc pool1 m1 where r: "register_cache N names (cs_pool s) (cs_main s) (pr_cache p pl) (lc_cache_tag_headers (cs_conf s)) =
    (rc, pool1, m1)" by (metis prod_cases3)
  have s': "s' = s\<lparr>cs_pool := pool1, cs_main := m1\<rparr>" "res = (if rc \<noteq> NGX_OK then CONF_ERROR else CONF_OK)"
    using assms(1) r by (simp_all add: register_if_indexed_def)
  have "store_configured m1 = store_configured (cs_main s)"
    using register_cache_ok(2) [OF r assms(2)] by (simp add: table_grows_def)
  then show ?thesis using register_cache_ok [OF r assms(2)] by (simp add: s')
qed

lemma protocol_attach_ok:
  assumes a: "protocol_attach N names pl p prev s = (res, s')"
    and ok: "table_ok names (cs_main s)" "no_loop (cs_conf s)"
    and h: "cl_handler (cs_clcf s) \<noteq> Some Access_handler" "prev \<noteq> Some Access_handler"
    and p: "protocol_by_id (Some (pr_id p)) = Some p" "pl = plocs (pr_id p)"
  shows "table_ok names (cs_main s') \<and> table_grows (cs_main s) (cs_main s') \<and> no_loop (cs_conf s') \<and>
    (res = CONF_OK \<and> cl_handler (cs_clcf s') = Some Access_handler \<longrightarrow> attached N names plocs (cs_conf s') (cs_main s'))"
proof -
  let ?slot = "protocol_conf_slot (cs_conf s) p"
  let ?orig = "if \<not> is_set (pc_configured ?slot) \<and> prev \<noteq> None then prev
    else if cl_handler (cs_clcf s) = Some Access_handler \<and> prev \<noteq> None then prev else cl_handler (cs_clcf s)"
  have o: "?orig \<noteq> Some Access_handler" using h by simp
  define c1 where "c1 = (cs_conf s)\<lparr>lc_conf := Ptr ?slot, lc_protocol := Some (Some (pr_id p)), lc_original_handler := ?orig\<rparr>"
  define s1 where "s1 = s\<lparr>cs_conf := c1, cs_clcf := (cs_clcf s)\<lparr>cl_handler := Some Access_handler\<rparr>\<rparr>"
  let ?with = "\<lambda>hd. s1\<lparr>cs_conf := c1\<lparr>lc_handler := hd\<rparr>\<rparr>"
  consider (idle) "s' = s" | (error) "res \<noteq> CONF_OK" "s' = s1"
    | (only) hd where "hd \<in> {None, Some Protocol_handler}" "s' = ?with hd" "\<not> (is_set (lc_cache_index c1) \<and> hd \<noteq> None)"
    | (register) "register_if_indexed N names p pl (?with (Some Protocol_handler)) = (res, s')"
  proof -
    let ?key = "complex_value_set (pr_cache_key p pl)" and ?cache = "pr_has_cache p pl" and ?pass = "pr_has_pass p pl"
    let ?hd = "if ?cache \<and> ?key then Some Protocol_handler else None"
    have eq: "(res, s') = (if \<not> ?pass \<and> \<not> ?cache \<and> \<not> ?key \<and> (\<not> is_set (pc_configured ?slot) \<or> length (cl_name (cs_clcf s)) = 0)
        then (CONF_OK, s)
      else if \<not> is_set (pc_configured ?slot) \<and> \<not> ?pass then (CONF_OK, s)
      else if ?pass then (if is_set (lc_cache_index (c1\<lparr>lc_handler := ?hd\<rparr>)) \<and> lc_handler (c1\<lparr>lc_handler := ?hd\<rparr>) \<noteq> None then register_if_indexed N names p pl (?with ?hd)
          else (CONF_OK, ?with ?hd))
      else if \<not> ?key then (CONF_MSG (pr_cache_key_error p), s1)
      else if \<not> ?cache then (CONF_MSG (pr_cache_error p), s1)
      else if is_set (lc_cache_index c1) then register_if_indexed N names p pl (?with (Some Protocol_handler))
      else (CONF_OK, ?with (Some Protocol_handler)))"
      unfolding a [symmetric] protocol_attach_def Let_def c1_def s1_def by (rule refl)
    show thesis using eq that by (cases ?pass; cases ?key; cases ?cache) (auto split: if_splits)
  qed
  then show ?thesis
  proof cases
    case register
    from register_if_indexed_ok [OF this] show ?thesis using ok o p
      by (auto simp: c1_def s1_def no_loop_def attached_def protocol_conf_slot_def)
  qed (use ok h o p in \<open>auto simp: c1_def s1_def no_loop_def attached_def protocol_conf_slot_def\<close>)
qed

text \<open>The loop over the protocols changes the slots until it attaches the first enabled one.\<close>

lemma merge_protocols_cases:
  assumes "merge_protocols N names plocs ps prev s = (found, s3)"
  shows "\<exists>f. s3 = s\<lparr>cs_conf := (cs_conf s)\<lparr>lc_slot := f\<rparr>\<rparr>"
    and "found = None \<or> (\<exists>p \<in> set ps. found = Some (protocol_attach N names (plocs (pr_id p)) p (lc_original_handler prev) s3))"
proof -
  have "(\<exists>f. s3 = s\<lparr>cs_conf := (cs_conf s)\<lparr>lc_slot := f\<rparr>\<rparr>) \<and>
    (found = None \<or> (\<exists>p \<in> set ps. found = Some (protocol_attach N names (plocs (pr_id p)) p (lc_original_handler prev) s3)))"
    using assms
  proof (induction N names plocs ps prev s arbitrary: found s3 rule: merge_protocols.induct)
    case (1 N names plocs prev s)
    then have "s3 = s\<lparr>cs_conf := (cs_conf s)\<lparr>lc_slot := lc_slot (cs_conf s)\<rparr>\<rparr>" by simp
    then show ?case using 1 by (metis fst_conv merge_protocols.simps(1))
  next
    case (2 N names plocs p ps prev s)
    define merged where "merged = merge_conf (protocol_conf_slot (cs_conf s) p) (protocol_conf_slot prev p)"
    define s1 where "s1 = s\<lparr>cs_conf := (cs_conf s)\<lparr>lc_slot := (lc_slot (cs_conf s))(pr_id p := merged)\<rparr>\<rparr>"
    have s1: "\<exists>f. s1 = s\<lparr>cs_conf := (cs_conf s)\<lparr>lc_slot := f\<rparr>\<rparr>" by (auto simp: s1_def)
    show ?case
    proof (cases "is_set (pc_enable merged)")
      case True
      then have "found = Some (protocol_attach N names (plocs (pr_id p)) p (lc_original_handler prev) s1)" "s3 = s1"
        using 2(2) by (auto simp add: Let_def merged_def s1_def)
      then show ?thesis using s1 by simp
    next
      case False
      then have m: "merge_protocols N names plocs ps prev s1 = (found, s3)" using 2(2) by (simp add: Let_def merged_def s1_def)
      from 2(1) [OF merged_def s1_def False m] show ?thesis using s1 by auto
    qed
  qed
  then show "\<exists>f. s3 = s\<lparr>cs_conf := (cs_conf s)\<lparr>lc_slot := f\<rparr>\<rparr>"
    "found = None \<or> (\<exists>p \<in> set ps. found = Some (protocol_attach N names (plocs (pr_id p)) p (lc_original_handler prev) s3))"
    by blast+
qed

lemma ops_id: "pr_id (fastcgi_ops a b c) = FASTCGI" "pr_id (proxy_ops a b c) = PROXY"
  "pr_id (scgi_ops a b c) = SCGI" "pr_id (uwsgi_ops a b c) = UWSGI"
  by (simp_all add: fastcgi_ops_def proxy_ops_def scgi_ops_def uwsgi_ops_def)

lemma protocols_by_id: "p \<in> set protocols \<Longrightarrow> protocol_by_id (Some (pr_id p)) = Some p"
  by (auto simp: protocols_def protocol_by_id_def ops_id)

lemma merge_loc_conf_ok:
  assumes m: "merge_loc_conf N names plocs prev s = (res, s')"
    and ok: "table_ok names (cs_main s)" "fresh_loc (cs_conf s)" "no_loop prev"
    and h: "cl_handler (cs_clcf s) \<noteq> Some Access_handler"
  shows "table_ok names (cs_main s') \<and> table_grows (cs_main s) (cs_main s') \<and> no_loop (cs_conf s') \<and>
    (res = CONF_OK \<and> cl_handler (cs_clcf s') = Some Access_handler \<longrightarrow> attached N names plocs (cs_conf s') (cs_main s'))"
proof -
  let ?conf1 = "merge_settings (cs_main s) plocs prev (cs_conf s)"
  have f1: "fresh_loc ?conf1" using ok(2) by (simp add: merge_settings_def fresh_loc_def Let_def)
  define t where "t = (if lc_cache_tag_headers ?conf1 \<noteq> None then (True, cs_pool s, ?conf1)
             else (case pool_alloc (cs_pool s) of
                 (False, p1) \<Rightarrow> (False, p1, ?conf1)
               | (True, p1) \<Rightarrow>
                   (case push_all p1 [] default_tag_headers of
                      (done, hs) \<Rightarrow> (done, drop 2 p1, ?conf1\<lparr>lc_cache_tag_headers := Some hs\<rparr>))))"
  obtain ok1 pool1 conf2 where t: "t = (ok1, pool1, conf2)" by (rule prod_cases3)
  note p = t [unfolded t_def]
  have f2: "fresh_loc conf2" using p f1 by (auto simp: fresh_loc_def split: if_splits prod.splits bool.splits)
  let ?s2 = "s\<lparr>cs_conf := conf2, cs_pool := pool1\<rparr>"
  obtain found s3 where mp: "merge_protocols N names plocs protocols prev ?s2 = (found, s3)" by fastforce
  note c = merge_protocols_cases [OF mp]
  then obtain f where s3: "s3 = ?s2\<lparr>cs_conf := conf2\<lparr>lc_slot := f\<rparr>\<rparr>" by auto
  have f3: "fresh_loc (cs_conf s3)" using f2 by (simp add: s3 fresh_loc_def)
  note eq = m [unfolded merge_loc_conf_def Let_def p prod.case mp]
  show ?thesis
  proof (cases ok1)
    case False
    then have "s' = ?s2" "res = CONF_ERROR" using eq by simp_all
    then show ?thesis using ok fresh_no_loop [OF f2] by simp
  next
    case ok1: True
    show ?thesis
    proof (cases found)
      case None
      then show ?thesis using eq ok1 ok h f3 by (auto simp: s3 no_loop_def fresh_loc_def)
    next
      case (Some r)
      with c(2) obtain p where p: "p \<in> set protocols"
        and r: "r = protocol_attach N names (plocs (pr_id p)) p (lc_original_handler prev) s3" by auto
      have a: "protocol_attach N names (plocs (pr_id p)) p (lc_original_handler prev) s3 = (res, s')"
        using eq ok1 Some r by simp
      have o: "lc_original_handler prev \<noteq> Some Access_handler" using ok(3) by (simp add: no_loop_def)
      have m3: "cs_main s3 = cs_main s" "cs_clcf s3 = cs_clcf s" by (simp_all add: s3)
      from protocol_attach_ok [where plocs = plocs, OF a _ fresh_no_loop [OF f3] _ o protocols_by_id [OF p] refl] ok(1) h
      show ?thesis by (simp add: m3)
    qed
  qed
qed

section \<open>A whole configuration\<close>

text \<open>nginx creates the configuration of every block, reads its directives, and then merges each block
  once, after the block around it: \<open>config_run\<close> merges any block whose surrounding block was merged.
  The content handler a block starts from is one of another module's.\<close>

record location =
  lo_plocs :: "protocol_id \<Rightarrow> proto_loc"
  lo_conf :: loc_conf
  lo_core :: core_loc

inductive config_run ::
  "ngx_core \<Rightarrow> conf_slots \<Rightarrow> (addr \<Rightarrow> ngx_str) \<Rightarrow> main_conf option \<Rightarrow> location list \<Rightarrow> bool"
  for N S names where
  top: "create_main_conf pl = Some m0 \<Longrightarrow> create_loc_conf pl = Some c0 \<Longrightarrow> cl_handler core0 \<noteq> Some Access_handler \<Longrightarrow>
     read_block S Main_level ds \<lparr>cb_main = m0, cb_core = core0, cb_loc = c0\<rparr> = (CONF_OK, b) \<Longrightarrow>
     init_main_conf add_ok pl2 (cb_main b) = (CONF_OK, m) \<Longrightarrow>
     config_run N S names (Some m) [\<lparr>lo_plocs = plocs, lo_conf = cb_loc b, lo_core = cb_core b\<rparr>]"
| merge: "config_run N S names m locs \<Longrightarrow> parent \<in> set locs \<Longrightarrow>
     create_loc_conf pl = Some c0 \<Longrightarrow> cl_handler core0 \<noteq> Some Access_handler \<Longrightarrow> level \<noteq> Main_level \<Longrightarrow>
     read_block S level ds \<lparr>cb_main = m0, cb_core = core0, cb_loc = c0\<rparr> = (CONF_OK, b) \<Longrightarrow>
     merge_loc_conf N names plocs (lo_conf parent)
       \<lparr>cs_conf = cb_loc b, cs_clcf = cb_core b, cs_main = m, cs_pool = pl2\<rparr> = (CONF_OK, s) \<Longrightarrow>
     config_run N S names (cs_main s) (\<lparr>lo_plocs = plocs, lo_conf = cs_conf s, lo_core = cs_clcf s\<rparr> # locs)"

definition config_ok :: "ngx_core \<Rightarrow> (addr \<Rightarrow> ngx_str) \<Rightarrow> main_conf option \<Rightarrow> location list \<Rightarrow> bool" where
  "config_ok N names m locs \<longleftrightarrow> table_ok names m \<and> (\<forall>l \<in> set locs. no_loop (lo_conf l) \<and>
     (cl_handler (lo_core l) = Some Access_handler \<longrightarrow> attached N names (lo_plocs l) (lo_conf l) m))"

lemma init_main_zones: "init_main_conf add_ok pl m0 = (res, m) \<Longrightarrow> mc_zones m = mc_zones m0"
  by (auto simp: init_main_conf_def store_init_conf_def metrics_init_conf_def Let_def split: prod.splits bool.splits if_splits)

lemma created_main: "create_main_conf pl = Some m \<Longrightarrow> mc_zones m = []"
  by (auto simp: create_main_conf_def split: prod.splits bool.splits)

lemma config_run_ok: "config_run N S names m locs \<Longrightarrow> config_ok N names m locs"
proof (induction rule: config_run.induct)
  case (top pl m0 c0 core0 ds b add_ok pl2 m plocs)
  have "mc_zones m = []" using init_main_zones [OF top(5)] read_block_fresh [OF top(4)] created_main [OF top(1)] by simp
  moreover have "no_loop (cb_loc b)" "cl_handler (cb_core b) \<noteq> Some Access_handler"
    using read_block_fresh [OF top(4)] fresh_loc_created [OF top(2)] top(3) fresh_no_loop by simp_all
  ultimately show ?case by (simp add: config_ok_def table_ok_def zone_table_def)
next
  case (merge m locs parent pl c0 core0 level ds m0 b plocs pl2 s)
  have ok: "table_ok names m" "no_loop (lo_conf parent)" using merge(2,8) by (auto simp: config_ok_def)
  have f: "fresh_loc (cb_loc b)" "cl_handler (cb_core b) \<noteq> Some Access_handler"
    using read_block_fresh [OF merge(6)] fresh_loc_created [OF merge(3)] merge(4) by simp_all
  from merge_loc_conf_ok [OF merge(7)] have k: "table_ok names (cs_main s) \<and> table_grows m (cs_main s) \<and> no_loop (cs_conf s) \<and>
    (cl_handler (cs_clcf s) = Some Access_handler \<longrightarrow> attached N names plocs (cs_conf s) (cs_main s))"
    using ok f by simp
  then show ?case using merge(8) attached_grows by (auto simp: config_ok_def)
qed

end
