(* ===== verification/Conf_Theorems.thy ===== *)
theory Conf_Theorems
  imports Conf_Spec Worker_Spec Demo
begin

text \<open>
  The theorems about a configuration that was read without error, over any tree of blocks: its
  handlers end, and its zones are those the index of a worker needs.
\<close>

section \<open>Handlers\<close>

text \<open>A handler that calls the original handler may call itself: \<open>access_chain\<close> follows the calls of
  the module's own handler, at most as many as its first argument, and is \<open>None\<close> when it needs more.\<close>

fun access_chain :: "nat \<Rightarrow> ngx_core \<Rightarrow> req_env \<Rightarrow> next_step option" where
  "access_chain 0 N E = None"
| "access_chain (Suc n) N E =
     (if access_handler N E = Call Access_handler then access_chain n N E else Some (access_handler N E))"

text \<open>C15: In every location of a configuration the module's handler ends: it calls itself never, so
  one step is enough.  It answers itself or calls one other handler: the purge handler (or
  \<open>404\<close> when the location has no cache to purge) exactly when the purge is on for this request, and
  otherwise the handler that nginx had chosen for the location, or declines when there is none.\<close>

theorem access_handler_ends:
  assumes "config_run N S names m locs" and "l \<in> set locs" and "en_loc E = lo_conf l"
  shows "\<exists>step. access_chain 1 N E = Some step \<and> step \<noteq> Call Access_handler \<and>
    step = (if \<exists>c. lc_conf (lo_conf l) = Ptr c \<and> enabled N E c = NGX_OK
            then (if lc_handler (lo_conf l) = None then Answer (NGX_HTTP 404) else Call Protocol_handler)
            else (case lc_original_handler (lo_conf l) of None \<Rightarrow> Answer NGX_DECLINED | Some h \<Rightarrow> Call h))"
proof -
  have n: "no_loop (lo_conf l)" using config_run_ok [OF assms(1)] assms(2) by (simp add: config_ok_def)
  let ?step = "access_handler N E"
  have s: "?step = (if \<exists>c. lc_conf (lo_conf l) = Ptr c \<and> enabled N E c = NGX_OK
            then (if lc_handler (lo_conf l) = None then Answer (NGX_HTTP 404) else Call Protocol_handler)
            else (case lc_original_handler (lo_conf l) of None \<Rightarrow> Answer NGX_DECLINED | Some h \<Rightarrow> Call h))"
    using n by (auto simp: access_handler_def original_step_def assms(3) Let_def no_loop_def split: conf_ptr.splits option.splits)
  have "?step \<noteq> Call Access_handler" using n unfolding s by (auto simp: no_loop_def split: option.splits)
  then show ?thesis using s by simp
qed

definition demo_created :: loc_conf where
  "demo_created = the (create_loc_conf [])"

definition demo_core :: core_loc where
  "demo_core = \<lparr>cl_name = ''/'', cl_handler = Some (Other_handler 0)\<rparr>"

definition demo_slots :: conf_slots where
  "demo_slots = \<lparr>co_size = (\<lambda>_ _. (CONF_OK, Some 1000)), co_flag = (\<lambda>_ _. (CONF_OK, Set True)),
     co_enum = (\<lambda>_ t _. (CONF_OK, t)), co_compile = (\<lambda>v. Some \<lparr>cv_value = v, cv_lengths = False\<rparr>)\<rparr>"

definition demo_top :: conf_block where
  "demo_top = snd (read_block demo_slots Main_level [([], [], [''cache_pilot_index_zone_size'', ''1000''])]
     \<lparr>cb_main = the (create_main_conf []), cb_core = demo_core, cb_loc = demo_created\<rparr>)"

definition demo_block :: conf_block where
  "demo_block = snd (read_block demo_slots Loc_level [([], [], [''cache_pilot_index'', ''on'']),
       ([], [], [''proxy_cache_purge'', ''PURGE'', ''soft''])]
     \<lparr>cb_main = the (create_main_conf []), cb_core = demo_core, cb_loc = demo_created\<rparr>)"

definition demo_read_main :: main_conf where
  "demo_read_main = snd (init_main_conf (\<lambda>_. True) [] (cb_main demo_top))"

definition demo_merged :: conf_state where
  "demo_merged = snd (merge_loc_conf core_total (\<lambda>_. ''z'') (\<lambda>_. demo_ploc ''key'') (cb_loc demo_top)
     \<lparr>cs_conf = cb_loc demo_block, cs_clcf = cb_core demo_block, cs_main = Some demo_read_main, cs_pool = []\<rparr>)"

definition demo_locations :: "location list" where
  "demo_locations = [\<lparr>lo_plocs = (\<lambda>_. demo_ploc ''key''), lo_conf = cs_conf demo_merged, lo_core = cs_clcf demo_merged\<rparr>,
     \<lparr>lo_plocs = (\<lambda>_. demo_ploc ''key''), lo_conf = cb_loc demo_top, lo_core = cb_core demo_top\<rparr>]"

lemma demo_config_run: "config_run core_total demo_slots (\<lambda>_. ''z'') (cs_main demo_merged) demo_locations"
proof -
  have h: "cl_handler demo_core \<noteq> Some Access_handler" by (simp add: demo_core_def)
  have m0: "create_main_conf [] = Some (the (create_main_conf []))" by (simp add: create_main_conf_def)
  have c0: "create_loc_conf [] = Some demo_created" by (simp add: demo_created_def create_loc_conf_def)
  have t: "read_block demo_slots Main_level [([], [], [''cache_pilot_index_zone_size'', ''1000''])]
     \<lparr>cb_main = the (create_main_conf []), cb_core = demo_core, cb_loc = demo_created\<rparr> = (CONF_OK, demo_top)"
    by (simp only: demo_top_def prod_eq_iff fst_conv snd_conv simp_thms) code_simp
  have b: "read_block demo_slots Loc_level [([], [], [''cache_pilot_index'', ''on'']), ([], [], [''proxy_cache_purge'', ''PURGE'', ''soft''])]
     \<lparr>cb_main = the (create_main_conf []), cb_core = demo_core, cb_loc = demo_created\<rparr> = (CONF_OK, demo_block)"
    by (simp only: demo_block_def prod_eq_iff fst_conv snd_conv simp_thms) code_simp
  have i: "init_main_conf (\<lambda>_. True) [] (cb_main demo_top) = (CONF_OK, demo_read_main)"
    by (simp only: demo_read_main_def prod_eq_iff fst_conv snd_conv simp_thms) code_simp
  let ?top = "\<lparr>lo_plocs = (\<lambda>_. demo_ploc ''key''), lo_conf = cb_loc demo_top, lo_core = cb_core demo_top\<rparr>"
  have m: "merge_loc_conf core_total (\<lambda>_. ''z'') (\<lambda>_. demo_ploc ''key'') (lo_conf ?top)
     \<lparr>cs_conf = cb_loc demo_block, cs_clcf = cb_core demo_block, cs_main = Some demo_read_main, cs_pool = []\<rparr> = (CONF_OK, demo_merged)"
    by (simp only: demo_merged_def prod_eq_iff fst_conv snd_conv simp_thms location.simps) code_simp
  have r: "config_run core_total demo_slots (\<lambda>_. ''z'') (Some demo_read_main) [?top]"
    by (rule config_run.top [OF m0 c0 h t i])
  have "Loc_level \<noteq> Main_level" by simp
  from config_run.merge [OF r _ c0 h this b m] show ?thesis unfolding demo_locations_def by simp
qed

definition demo_purge_env :: req_env where
  "demo_purge_env = (demo_env [] ''key'')\<lparr>en_loc := cs_conf demo_merged\<rparr>"

lemma demo_merged_code:
  "lc_handler (cs_conf demo_merged) = Some Protocol_handler \<and>
   cl_handler (cs_clcf demo_merged) = Some Access_handler \<and> is_set (lc_cache_index (cs_conf demo_merged)) \<and>
   lc_protocol (cs_conf demo_merged) = Some (Some PROXY) \<and>
   (case lc_conf (cs_conf demo_merged) of Ptr c \<Rightarrow> enabled core_total demo_purge_env c = NGX_OK | _ \<Rightarrow> False)"
  by code_simp

theorem access_handler_ends_witness:
  "access_chain 1 core_total demo_purge_env = Some (Call Protocol_handler)"
proof -
  have l: "en_loc demo_purge_env = lo_conf (hd demo_locations)" "hd demo_locations \<in> set demo_locations"
    by (simp_all add: demo_purge_env_def demo_locations_def)
  from access_handler_ends [OF demo_config_run l(2,1)] demo_merged_code show ?thesis
    by (auto simp: demo_locations_def split: conf_ptr.splits)
qed

section \<open>Zones\<close>

text \<open>C14: Whatever blocks a configuration has, reading it without error leaves a table with one
  zone per cache, under the cache's name, as a worker needs it; and every location that the module
  serves, with an index switched on and a cache to purge, finds its cache in the table, with tag
  headers that agree with its own.\<close>

theorem configuration_registers:
  assumes "config_run N S names (Some m) locs" and "\<And>cache. c_nul \<notin> set (names cache)"
  shows "zones_ok m \<and> (\<forall>l \<in> set locs. cl_handler (lo_core l) = Some Access_handler \<longrightarrow>
    (\<exists>p. lc_protocol (lo_conf l) = Some (Some (pr_id p)) \<and> protocol_by_id (Some (pr_id p)) = Some p \<and>
       lc_conf (lo_conf l) = Ptr (lc_slot (lo_conf l) (pr_id p)) \<and>
       (lc_handler (lo_conf l) \<noteq> None \<and> is_set (lc_cache_index (lo_conf l)) \<and> store_configured (Some m) \<longrightarrow>
         (\<forall>cache. pr_cache p (lo_plocs l (pr_id p)) = Some cache \<longrightarrow>
           (\<exists>z. find_zone (mc_zones m) cache = Some z \<and> iz_zone_name z = names cache \<and>
              headers_equal N (iz_headers z) (lc_cache_tag_headers (lo_conf l)))))))"
proof -
  have c: "config_ok N names (Some m) locs" by (rule config_run_ok [OF assms(1)])
  then have "zones_ok m" using assms(2) by (auto simp: config_ok_def table_ok_def zone_table_def zones_ok_def good_zone_def)
  then show ?thesis using c by (auto simp: config_ok_def attached_def zone_table_def)
qed

lemma demo_merged_main: "case cs_main demo_merged of None \<Rightarrow> False | Some m \<Rightarrow> store_configured (Some m)"
  by code_simp

lemma demo_proxy: "protocol_by_id (Some (pr_id p)) = Some p \<Longrightarrow> pr_id p = PROXY \<Longrightarrow> pr_cache p (demo_ploc key) = Some 7"
  by (auto simp: protocol_by_id_def protocols_def ops_id) (simp add: proxy_ops_def demo_ploc_def)

theorem configuration_registers_witness:
  "zones_ok (the (cs_main demo_merged)) \<and> (\<exists>z. find_zone (mc_zones (the (cs_main demo_merged))) 7 = Some z)"
proof -
  obtain m where m: "cs_main demo_merged = Some m" "store_configured (Some m)"
    using demo_merged_main by (auto split: option.splits)
  have n: "\<And>cache :: addr. c_nul \<notin> set ((\<lambda>_. ''z'') cache)" by simp
  have c: "config_run core_total demo_slots (\<lambda>_. ''z'') (Some m) demo_locations" using demo_config_run m(1) by simp
  from configuration_registers [OF c n] m(2) demo_merged_code demo_proxy show ?thesis
    by (auto simp: m(1) demo_locations_def)
qed

end
