(* ===== verification/Metrics_Spec.thy ===== *)
theory Metrics_Spec
  imports Metrics
begin

text \<open>
  How long the statistics can be: bounds for every piece the serialisers print, and from them that the
  buffer of the handler holds the whole text.
\<close>

section \<open>Lengths\<close>

lemma len_append: "length a \<le> i \<Longrightarrow> length b \<le> j \<Longrightarrow> length (a @ b) \<le> i + j"
  by simp

lemma len_tq: "length s \<le> i \<Longrightarrow> length (tq s) \<le> i"
  by simp

lemma len_ui: "length (ui w) \<le> 20"
  unfolding ui_def by (rule length_decimal_word)

lemma len_read: "length (metrics_read m f) \<le> 20"
  unfolding metrics_read_def by (rule len_ui)

lemma len_state: "length (index_state_str st) \<le> 10" "length (decimal (index_state_code st)) \<le> 1"
  by (cases st; simp add: decimal.simps)+

definition int64 :: "int \<Rightarrow> bool" where
  "int64 x \<longleftrightarrow> - (2 ^ 63) \<le> x \<and> x < 2 ^ 63"

lemma len_int: "int64 x \<Longrightarrow> length (decimal_int x) \<le> 20"
proof -
  assume x: "int64 x"
  have "\<bar>x\<bar> < 10 ^ 19" using x by (simp add: int64_def abs_if)
  then have "nat \<bar>x\<bar> < 10 ^ 19" by (simp add: nat_less_iff)
  then have l: "length (decimal (nat \<bar>x\<bar>)) \<le> 19" by (rule length_decimal) simp
  show ?thesis
  proof (cases "x < 0")
    case True
    then show ?thesis using l by (simp add: decimal_int_def)
  next
    case False
    then show ?thesis using l by (simp add: decimal_int_def)
  qed
qed

text \<open>Bounds of lists of pieces.\<close>

lemma len_if: "length a \<le> i \<Longrightarrow> length b \<le> j \<Longrightarrow> length (if P then a else b) \<le> max i j"
  by auto

lemma len_pieces:
  "length (concat []) \<le> 0"
  "length x \<le> i \<Longrightarrow> length (concat xs) \<le> j \<Longrightarrow> length (concat (x # xs)) \<le> i + j"
  "length (concat xs) \<le> i \<Longrightarrow> length (concat ys) \<le> j \<Longrightarrow> length (concat (xs @ ys)) \<le> i + j"
  "length (concat xs) \<le> i \<Longrightarrow> length (concat ys) \<le> j \<Longrightarrow> length (concat (if P then xs else ys)) \<le> max i j"
  by auto

lemmas len_rules = len_pieces len_append len_if len_tq len_ui len_read len_state

lemma concat_map_length: "(\<And>x. x \<in> set xs \<Longrightarrow> length (f x) \<le> k) \<Longrightarrow> length (concat (map f xs)) \<le> length xs * k"
proof (induction xs)
  case (Cons x xs)
  then have "length (f x) \<le> k" "length (concat (map f xs)) \<le> length xs * k" by simp_all
  then show ?case by simp
qed simp

section \<open>JSON\<close>

text \<open>What a snapshot must be like for the budget of its zone: numbers of 64 bits, a name of at most
  64 bytes, one of the reasons the code knows.\<close>

definition zone_fits :: "zone_snapshot \<Rightarrow> bool" where
  "zone_fits s \<longleftrightarrow> length (sn_name s) \<le> 64 \<and> length (index_not_ready_reason s) \<le> 19 \<and>
     int64 (sn_size s) \<and> int64 (sn_max_size s) \<and> int64 (sn_index_max_size s) \<and>
     int64 (sn_last_bootstrap_at s) \<and> int64 (sn_last_updated_at s)"

lemma zone_fitsD:
  assumes "zone_fits s"
  shows "length (sn_name s) \<le> 64" "length (index_not_ready_reason s) \<le> 19"
    "length (decimal_int (sn_size s)) \<le> 20" "length (decimal_int (sn_max_size s)) \<le> 20"
    "length (decimal_int (sn_index_max_size s)) \<le> 20" "length (decimal_int (sn_last_bootstrap_at s)) \<le> 20"
    "length (decimal_int (sn_last_updated_at s)) \<le> 20"
  using assms len_int by (auto simp: zone_fits_def)

lemma json_pair_length: "length name \<le> i \<Longrightarrow> length a \<le> 20 \<Longrightarrow> length b \<le> 20 \<Longrightarrow> length (json_pair name a b) \<le> i + 61"
  by (simp add: json_pair_def)

lemma json_head_length:
  assumes "int64 now"
  shows "length (json_head now snaps m) \<le> 750"
  unfolding json_head_def
  apply (rule order_trans)
   apply (rule len_append len_tq len_ui len_read len_int [OF assms] json_pair_length order_refl)+
  apply simp
  done

lemma json_zone_length:
  assumes "zone_fits s"
  shows "length (concat (json_zone s)) \<le> 500"
  unfolding json_zone_def
  apply (rule order_trans)
   apply (rule len_rules zone_fitsD [OF assms] order_refl)+
  apply simp
  done

lemma json_zones_length:
  "\<forall>s \<in> set snaps. zone_fits s \<Longrightarrow> length (concat (json_zones first snaps)) \<le> 501 * length snaps"
proof (induction snaps arbitrary: first)
  case (Cons s snaps)
  then have "length (concat (json_zone s)) \<le> 500" "length (concat (json_zones False snaps)) \<le> 501 * length snaps"
    using json_zone_length by simp_all
  then show ?case by simp
qed simp

section \<open>Prometheus\<close>

lemma prom_type_mode_length:
  "length metric \<le> i \<Longrightarrow> length ty \<le> j \<Longrightarrow> length mode \<le> k \<Longrightarrow> length v \<le> 20 \<Longrightarrow>
     length (prom_type_mode metric ty mode v) \<le> i + j + k + 39"
  by (simp add: prom_type_mode_def)

lemma prom_zone_length:
  "zone_fits s \<Longrightarrow> length metric \<le> 52 \<Longrightarrow> length v \<le> 20 \<Longrightarrow> length (prom_zone metric (sn_name s) v) \<le> 150"
  using zone_fitsD(1) [of s] by (simp add: prom_zone_def)

lemma prom_head_length: "length (concat (prom_head m)) \<le> 1900"
  unfolding prom_head_def
  apply (rule order_trans)
   apply (rule prom_type_mode_length len_rules order_refl)+
  apply simp
  done

lemma prom_boot_length: "zone_fits s \<Longrightarrow> length (concat (prom_boot s)) \<le> 300"
  unfolding prom_boot_def
  apply (rule order_trans)
   apply (rule len_rules prom_zone_length zone_fitsD | assumption | simp; fail | rule order_refl)+
  done

lemma prom_entries_length: "zone_fits s \<Longrightarrow> length (prom_entries s) \<le> 440"
  unfolding prom_entries_def
  apply (rule order_trans)
   apply (rule len_rules zone_fitsD order_refl | assumption)+
  apply simp
  done

lemma prom_state_length: "zone_fits s \<Longrightarrow> length (prom_state s) \<le> 140"
  unfolding prom_state_def
  apply (rule order_trans)
   apply (rule len_rules zone_fitsD order_refl | assumption)+
  apply simp
  done

text \<open>Either all zones of an answer have an index or none.\<close>

definition uniform :: "zone_snapshot list \<Rightarrow> bool" where
  "uniform snaps \<longleftrightarrow> (\<forall>s \<in> set snaps. sn_has_index s) \<or> (\<forall>s \<in> set snaps. \<not> sn_has_index s)"

lemma prom_indexed_length:
  assumes "uniform snaps" and "\<And>s. s \<in> set snaps \<Longrightarrow> length (line s) \<le> k" and "length descr \<le> d"
  shows "length (concat (prom_indexed descr line False snaps)) \<le> d + length snaps * k"
proof -
  have idx: "length (concat (prom_indexed descr line True xs)) \<le> length xs * k"
    if "\<forall>s \<in> set xs. sn_has_index s \<and> length (line s) \<le> k" for xs
    using that by (induction xs) auto
  have none: "prom_indexed descr line prev xs = []" if "\<forall>s \<in> set xs. \<not> sn_has_index s" for prev xs
    using that by (induction xs arbitrary: prev) auto
  from assms(1) show ?thesis unfolding uniform_def
  proof
    assume a: "\<forall>s \<in> set snaps. sn_has_index s"
    show ?thesis
    proof (cases snaps)
      case (Cons s xs)
      then have "length (concat (prom_indexed descr line True xs)) \<le> length xs * k" "length (line s) \<le> k"
        using idx [of xs] a assms(2) by simp_all
      then show ?thesis using Cons a assms(3) by simp
    qed simp
  qed (simp add: none)
qed

lemma prom_pieces_length:
  assumes fits: "\<forall>s \<in> set snaps. zone_fits s" and u: "uniform snaps"
  shows "length (concat (prom_pieces snaps m)) \<le> 3850 + length snaps * 1770"
proof -
  have f: "zone_fits s" if "s \<in> set snaps" for s using fits that by blast
  note n = zone_fitsD(3-7) [OF f]
  have line: "length (concat (map (\<lambda>s. prom_zone metric (sn_name s) (v s)) snaps)) \<le> length snaps * 150"
    if "length metric \<le> 52" "\<And>s. s \<in> set snaps \<Longrightarrow> length (v s) \<le> 20" for metric v
    by (rule concat_map_length) (rule prom_zone_length [OF f that(1) that(2)])
  have maps: "length (concat (map (\<lambda>s. prom_zone ''nginx_cache_pilot_zone_size_bytes'' (sn_name s) (decimal_int (sn_size s))) snaps)) \<le> length snaps * 150"
    "length (concat (map (\<lambda>s. prom_zone ''nginx_cache_pilot_zone_max_size_bytes'' (sn_name s) (decimal_int (sn_max_size s))) snaps)) \<le> length snaps * 150"
    "length (concat (map (\<lambda>s. prom_zone ''nginx_cache_pilot_zone_cold'' (sn_name s) (if sn_cold s then ''1'' else ''0'')) snaps)) \<le> length snaps * 150"
    by (rule line; simp add: n)+
  have states: "length (concat (map prom_entries snaps)) \<le> length snaps * 440"
    "length (concat (map prom_state snaps)) \<le> length snaps * 140"
    by (rule concat_map_length; simp add: f prom_entries_length prom_state_length)+
  have "length (concat (map (\<lambda>s. concat (prom_boot s)) snaps)) \<le> length snaps * 300"
    by (rule concat_map_length) (simp add: f prom_boot_length)
  moreover have "concat (concat (map prom_boot xs)) = concat (map (\<lambda>s. concat (prom_boot s)) xs)" for xs
    by (induction xs) simp_all
  ultimately have boot: "length (concat (concat (map prom_boot snaps))) \<le> length snaps * 300" by simp
  have ix: "length (concat (prom_indexed descr (\<lambda>s. prom_zone metric (sn_name s) (v s)) False snaps)) \<le> length descr + length snaps * 150"
    if "length metric \<le> 52" "\<And>s. s \<in> set snaps \<Longrightarrow> length (v s) \<le> 20" for descr metric v
    by (rule prom_indexed_length [OF u _ order_refl]) (rule prom_zone_length [OF f that(1) that(2)])
  have info: "length (concat (prom_indexed descr (\<lambda>s. tq ''nginx_cache_pilot_index_info{zone=`'' @ sn_name s @ tq ''`,backend=`shm`} 1~'')
      False snaps)) \<le> length descr + length snaps * 140" for descr
    by (rule prom_indexed_length [OF u _ order_refl]) (use zone_fitsD(1) [OF f] in \<open>fastforce intro: order_trans\<close>)
  show ?thesis unfolding prom_pieces_def
    apply (rule order_trans)
     apply (rule len_pieces prom_head_length maps states boot info | rule ix, (simp; fail), (simp add: n; fail) | rule len_rules order_refl)+
    apply simp
    done
qed

section \<open>The buffer\<close>

lemma align_le: "0 < a \<Longrightarrow> n \<le> align n a"
proof -
  assume a: "0 < a"
  have "n + a - 1 = (n + a - 1) div a * a + (n + a - 1) mod a" by simp
  moreover have "(n + a - 1) mod a \<le> a - 1" using a by (simp add: Suc_leI less_Suc_eq_le [symmetric])
  ultimately show ?thesis using a unfolding align_def by linarith
qed

lemma statistics_fit:
  assumes "\<forall>s \<in> set snaps. zone_fits s" and "uniform snaps" and "snaps \<noteq> []" and "int64 now" and "0 < pagesize"
  shows "write_json (metrics_buf_size FORMAT_JSON (length snaps) pagesize) now snaps m =
      json_head now snaps m @ tq ''`zones`:{'' @ concat (json_zones True snaps) @ ''}}''"
    and "write_prometheus (metrics_buf_size FORMAT_PROMETHEUS (length snaps) pagesize) snaps m = concat (prom_pieces snaps m)"
proof -
  have n: "1 \<le> length snaps" using assms(3) by (cases snaps) auto
  have size: "512 + length snaps * 1024 \<le> metrics_buf_size FORMAT_JSON (length snaps) pagesize"
    "3072 + length snaps * 2560 \<le> metrics_buf_size FORMAT_PROMETHEUS (length snaps) pagesize"
    unfolding metrics_buf_size_def metrics_format.case by (rule align_le [OF assms(5)])+
  have "length (json_head now snaps m @ tq ''`zones`:{'' @ concat (json_zones True snaps) @ ''}}'') \<le> 512 + length snaps * 1024"
    using json_head_length [OF assms(4), of snaps m] json_zones_length [OF assms(1), of True] n by simp
  then have "length (json_head now snaps m @ tq ''`zones`:{'' @ concat (json_zones True snaps) @ ''}}'') \<le>
      metrics_buf_size FORMAT_JSON (length snaps) pagesize"
    using size(1) by (rule order_trans)
  then show "write_json (metrics_buf_size FORMAT_JSON (length snaps) pagesize) now snaps m =
      json_head now snaps m @ tq ''`zones`:{'' @ concat (json_zones True snaps) @ ''}}''"
    by (simp add: write_json_def print_all_take)
  have "length (concat (prom_pieces snaps m)) \<le> 3072 + length snaps * 2560"
    using prom_pieces_length [OF assms(1,2), of m] n by simp
  then have "length (concat (prom_pieces snaps m)) \<le> metrics_buf_size FORMAT_PROMETHEUS (length snaps) pagesize"
    using size(2) by (rule order_trans)
  then show "write_prometheus (metrics_buf_size FORMAT_PROMETHEUS (length snaps) pagesize) snaps m = concat (prom_pieces snaps m)"
    by (simp add: write_prometheus_def print_all_take)
qed

section \<open>Snapshots\<close>

lemma snapshot_zone_facts:
  assumes "snapshot_zone E sz r = (snap, r')"
    and "length (sz_name sz) \<le> 64" and "int64 (fc_size (me_caches E (sz_cache sz)))" "int64 (fc_max_size (me_caches E (sz_cache sz)))"
    and "store_configured (en_main E) \<Longrightarrow> int64 (int (the (mc_index_shm_size (the (en_main E)))))"
    and "\<And>st. get_zone_state (en_now E) (rq_shm r) (sz_name sz) = (NGX_OK, st) \<Longrightarrow>
      int64 (st_last_bootstrap_at st) \<and> int64 (st_last_updated_at st)"
  shows "zone_fits snap" and "sn_has_index snap = store_configured (en_main E)" and "rq_shm r' = rq_shm r"
proof -
  have z: "int64 0" by (simp add: int64_def)
  obtain v e u where w: "walk_rbtree (fc_nodes (me_caches E (sz_cache sz))) (fc_tree (me_caches E (sz_cache sz))) (en_now E) (0, 0, 0) =
    (v, e, u)" by (metis prod_cases3)
  obtain rc st where g: "get_zone_state (en_now E) (rq_shm r) (sz_name sz) = (rc, st)" by fastforce
  show "zone_fits snap" "sn_has_index snap = store_configured (en_main E)" "rq_shm r' = rq_shm r"
    using assms(1-5) assms(6) [of st] z
    by (auto simp: snapshot_zone_def Let_def w g zone_fits_def index_not_ready_reason_def split: if_splits prod.splits)
qed

lemma snapshot_zones_facts:
  assumes "snapshot_zones E szs r = (snaps, r')"
    and "\<And>sz. sz \<in> set szs \<Longrightarrow> length (sz_name sz) \<le> 64 \<and> int64 (fc_size (me_caches E (sz_cache sz))) \<and>
      int64 (fc_max_size (me_caches E (sz_cache sz)))"
    and "store_configured (en_main E) \<Longrightarrow> int64 (int (the (mc_index_shm_size (the (en_main E)))))"
    and "\<And>sz st. sz \<in> set szs \<Longrightarrow> get_zone_state (en_now E) (rq_shm r) (sz_name sz) = (NGX_OK, st) \<Longrightarrow>
      int64 (st_last_bootstrap_at st) \<and> int64 (st_last_updated_at st)"
  shows "(\<forall>s \<in> set snaps. zone_fits s \<and> sn_has_index s = store_configured (en_main E)) \<and> length snaps = length szs"
  using assms(1,2,4)
proof (induction szs arbitrary: r snaps)
  case (Cons sz szs)
  obtain snap r1 where s: "snapshot_zone E sz r = (snap, r1)" by fastforce
  obtain snaps1 where ss: "snapshot_zones E szs r1 = (snaps1, r')" "snaps = snap # snaps1"
    using Cons.prems(1) s by (auto split: prod.splits)
  have sz: "sz \<in> set (sz # szs)" by simp
  note f = snapshot_zone_facts [OF s _ _ _ assms(3) Cons.prems(3) [OF sz]]
  have "length (sz_name sz) \<le> 64" "int64 (fc_size (me_caches E (sz_cache sz)))" "int64 (fc_max_size (me_caches E (sz_cache sz)))"
    using Cons.prems(2) by simp_all
  note f = f [OF this]
  have "(\<forall>s \<in> set snaps1. zone_fits s \<and> sn_has_index s = store_configured (en_main E)) \<and> length snaps1 = length szs"
    by (rule Cons.IH [OF ss(1)]) (use Cons.prems(2,3) f(3) in auto)
  then show ?case using f ss(2) by simp
qed simp

lemma snapshot_zones_keeps:
  "snapshot_zones E szs r = (snaps, r') \<Longrightarrow>
     rq_pool r' = rq_pool r \<and> rq_responses r' = rq_responses r \<and> rq_metrics r' = rq_metrics r"
proof (induction szs arbitrary: r snaps)
  case (Cons sz szs)
  obtain snap r1 where s: "snapshot_zone E sz r = (snap, r1)" by fastforce
  then have "rq_pool r1 = rq_pool r \<and> rq_responses r1 = rq_responses r \<and> rq_metrics r1 = rq_metrics r"
    by (auto simp: snapshot_zone_def Let_def split: prod.splits if_splits)
  then show ?case using Cons s by (auto split: prod.splits)
qed simp

text \<open>The handler when memory suffices and nginx goes on after the header.\<close>

lemma metrics_handler_runs:
  assumes "me_get E \<or> en_head E" and "en_discard E = NGX_OK" and "lc_stat_zones (en_loc E) = Some szs" and "szs \<noteq> []"
    and "rq_pool r = []" and "\<not> rc_stops (en_send_header E) (en_head E)" and "snapshot_zones E szs r = (snaps, r2)"
    and "metrics_handler N E r = (rc, r')"
  defines "m \<equiv> if mc_metrics_zone (the (en_main E)) then rq_metrics r else None"
    and "cap \<equiv> metrics_buf_size (negotiate_format N E) (length szs) (me_pagesize E)"
  defines "body \<equiv> case negotiate_format N E of FORMAT_PROMETHEUS \<Rightarrow> write_prometheus cap snaps m
    | FORMAT_JSON \<Rightarrow> write_json cap (en_now E) snaps m"
  shows "rc = en_output E \<and> (\<exists>resp. rq_responses r' = rq_responses r @ [resp] \<and> rs_body resp = Some body \<and>
    rs_content_length resp = length body \<and> rs_status resp = 200)"
proof -
  have p: "r\<lparr>rq_pool := []\<rparr> = r" using assms(5) by (cases r) simp
  note k = snapshot_zones_keeps [OF assms(7)]
  show ?thesis using assms(1-4,6,8) k assms(5)
    by (auto simp: metrics_handler_def Let_def p assms(7) m_def cap_def body_def split: metrics_format.splits)
qed

end
