(* ===== verification/Answer_Theorems.thy ===== *)
theory Answer_Theorems
  imports Worker_Spec Metrics_Spec Demo
begin

text \<open>
  The answers of the module are whole: the buffers its texts are printed into are large enough, the
  key in a JSON response reads back, and the statistics count the nodes of the cache zone.
\<close>

section \<open>The response of a purge\<close>

lemma c_string_no_nul: "c_nul \<notin> set s \<Longrightarrow> c_string s = s"
  unfolding c_string_def by (rule takeWhile_eq_all_conv [THEN iffD2]) auto

lemma ui_length: "unat w < 10 ^ 10 \<Longrightarrow> length (ui w) \<le> 10"
  unfolding ui_def by (rule length_decimal) simp_all

text \<open>The constant text of the response has 178 characters at most; 265 bytes are set aside for it and
  the eight counters.\<close>

lemma purged_json_length:
  "length (purged_json c) = 135 + length (ui (cx_purged_exact_hard c)) + length (ui (cx_purged_exact_soft c)) +
     length (ui (cx_purged_wildcard_hard c)) + length (ui (cx_purged_wildcard_soft c)) +
     length (ui (cx_purged_tag_hard c)) + length (ui (cx_purged_tag_soft c)) +
     length (ui (cx_purged_all_hard c)) + length (ui (cx_purged_all_soft c))"
  by (simp add: purged_json_def)

lemma body_json_fits:
  assumes "\<And>t soft. unat (ctx_purged t soft (r\<lparr>rq_ctx := Some c\<rparr>)) < 10 ^ 10" and "c_nul \<notin> set kd"
  shows "length (body_json kd path (Some c)) \<le> body_templ_text_size + length kd + length path + 256"
proof -
  have "length (ui (ctx_purged t soft (r\<lparr>rq_ctx := Some c\<rparr>))) \<le> 10" for t soft by (rule ui_length [OF assms(1)])
  note l = this [of STATS_EXACT False] this [of STATS_EXACT True] this [of STATS_WILDCARD False] this [of STATS_WILDCARD True]
    this [of STATS_TAG False] this [of STATS_TAG True] this [of STATS_ALL False] this [of STATS_ALL True]
  have "length (purged_json c) \<le> 215" using l by (simp add: purged_json_length ctx_purged_def)
  then show ?thesis by (simp add: body_json_def c_string_no_nul [OF assms(2)] body_templ_text_size_def)
qed

text \<open>C38: The JSON answer of a purge is whole.  When memory suffices and none of the eight counters
  of the request has more than ten digits, the body is the complete text - nothing is cut off at the
  end of its buffer -, its length is the length announced in the header, and the string a JSON reader
  finds at the place of the key is the key of the request, whatever characters it has.\<close>

theorem response_whole:
  assumes "hc_keys (the (rq_cache r)) = key # keys" and "rq_pool r = []"
    and "lc_resptype (en_loc E) \<noteq> Some RESPONSE_TYPE_TEXT" and "\<not> en_head E" and "\<not> rc_stops (en_send_header E) False"
    and "\<And>t soft. unat (ctx_purged t soft r) < 10 ^ 10" and "send_response E r = (rc, r')"
  shows "\<exists>resp body c rest. rc = en_output E \<and> rq_responses r' = rq_responses r @ [resp] \<and>
     rs_status resp = 200 \<and> rs_content_type resp = content_type_json \<and>
     rs_body resp = Some body \<and> rs_content_length resp = length body \<and>
     (\<forall>t soft. ctx_purged t soft r = ctx_purged t soft (r\<lparr>rq_ctx := Some c\<rparr>)) \<and>
     body = tq ''{`key`: `'' @ json_escape key @ tq ''`, `cache_pilot`: {'' @
       (if response_path_value r = [] then [] else tq ''`purge_path`: `'' @ response_path_value r @ tq ''`, '') @ purged_json c \<and>
     json_unescape (drop 9 body) = Some (key, rest)"
proof -
  obtain c r1 where g: "get_request_ctx r = (Some c, r1)" and pool: "rq_pool r1 = []"
    and r1: "rq_responses r1 = rq_responses r" "response_path_value r1 = response_path_value r"
    and c: "\<And>t soft. ctx_purged t soft r = ctx_purged t soft (r\<lparr>rq_ctx := Some c\<rparr>)"
  proof (cases "rq_ctx r")
    case None
    have "ctx_purged t soft r = ctx_purged t soft (r\<lparr>rq_ctx := Some empty_ctx\<rparr>)" for t soft
      by (simp add: ctx_purged_def None empty_ctx_def split: purge_stats.splits)
    then show thesis
      using that [of empty_ctx "r\<lparr>rq_pool := [], rq_ctx := Some empty_ctx\<rparr>"] None assms(2)
      by (simp add: get_request_ctx_def response_path_value_def empty_ctx_def)
  next
    case (Some x)
    then show thesis using that [of x r] assms(2) by (simp add: get_request_ctx_def ctx_purged_def)
  qed
  let ?kd = "json_escape key" and ?path = "response_path_value r"
  have fits: "length (body_json ?kd ?path (Some c)) \<le> body_templ_text_size + length ?kd + length ?path + 256"
    using body_json_fits [where r = r and c = c and kd = ?kd and path = ?path] assms(6) c json_escape_no_nul by simp
  have s: "slprintf (body_templ_text_size + length ?kd + length ?path + 256 + 1) [] (body_json ?kd ?path (Some c)) =
    body_json ?kd ?path (Some c)" using slprintf_fits [of "[]"] fits by simp
  have b: "body_json ?kd ?path (Some c) = tq ''{`key`: `'' @ ?kd @ tq ''`, `cache_pilot`: {'' @
       (if ?path = [] then [] else tq ''`purge_path`: `'' @ ?path @ tq ''`, '') @ purged_json c"
    by (simp add: body_json_def c_string_no_nul [OF json_escape_no_nul])
  have d: "drop 9 (body_json ?kd ?path (Some c)) = ?kd @ CHR 0x22 # tq '', `cache_pilot`: {'' @
       (if ?path = [] then [] else tq ''`purge_path`: `'' @ ?path @ tq ''`, '') @ purged_json c"
    unfolding b by (simp add: tq_def)
  have "send_body E 200 content_type_json (body_json ?kd ?path (Some c)) r1 = (rc, r')"
  proof -
    have "r1\<lparr>rq_pool := []\<rparr> = r1" using pool by (cases r1) simp
    moreover have "send_body E 200 content_type_json (body_json ?kd ?path (Some c)) (r1\<lparr>rq_pool := []\<rparr>) = (rc, r')"
      using assms(1,3,4,7) s by (simp add: send_response_def g pool r1(2))
    ultimately show ?thesis by simp
  qed
  then show ?thesis using assms(4,5) json_unescape_escape d r1(1) c b by (auto simp: send_body_def)
qed

definition demo_quoted :: ngx_str where
  "demo_quoted = ''a'' @ [CHR 0x22, CHR 0x0A] @ ''b''"

theorem response_whole_witness:
  "\<exists>body rest. map rs_body (rq_responses (snd (send_response (demo_env [] []) (demo_req demo_quoted)))) = [Some body] \<and>
     json_unescape (drop 9 body) = Some (demo_quoted, rest)"
proof -
  let ?E = "demo_env [] []" and ?r = "demo_req demo_quoted"
  obtain rc r' where s: "send_response ?E ?r = (rc, r')" by fastforce
  have k: "hc_keys (the (rq_cache ?r)) = demo_quoted # []" "rq_responses ?r = []" "rq_ctx ?r = None"
    by (simp_all add: demo_req_def demo_cache_def)
  have e: "lc_resptype (en_loc ?E) \<noteq> Some RESPONSE_TYPE_TEXT" "\<not> en_head ?E" "\<not> rc_stops (en_send_header ?E) False"
    by (simp_all add: demo_env_def demo_loc_def rc_stops_def)
  have n: "\<And>t soft. unat (ctx_purged t soft ?r) < 10 ^ 10" by (simp add: ctx_purged_def k)
  have p: "rq_pool ?r = []" by simp
  from response_whole [OF k(1) p e n s] show ?thesis by (auto simp: s k)
qed

section \<open>The statistics\<close>

text \<open>The three states of a node of the cache zone.\<close>

definition updating_node :: "cache_node \<Rightarrow> bool" where
  "updating_node n \<longleftrightarrow> cn_exists n \<and> cn_updating n"

definition valid_node :: "int \<Rightarrow> cache_node \<Rightarrow> bool" where
  "valid_node now n \<longleftrightarrow> cn_exists n \<and> \<not> cn_updating n \<and> now < cn_valid_sec n"

definition expired_node :: "int \<Rightarrow> cache_node \<Rightarrow> bool" where
  "expired_node now n \<longleftrightarrow> cn_exists n \<and> \<not> cn_updating n \<and> cn_valid_sec n \<le> now"

definition nodes_with :: "(cache_node \<Rightarrow> bool) \<Rightarrow> file_cache \<Rightarrow> addr set" where
  "nodes_with P fc = {a. \<exists>n. fc_nodes fc a = Some n \<and> P n}"

lemma walk_rbtree_counts:
  "walk_rbtree nodes t now (v, e, u) =
     (let as = map snd (inorder t); num = (\<lambda>P. of_nat (length (filter (\<lambda>a. P (the (nodes a))) as))) in
      (v + num (valid_node now), e + num (expired_node now), u + num updating_node))"
proof (induction t arbitrary: v e u)
  case (RbNode c l k a r)
  show ?case by (simp add: RbNode Let_def valid_node_def expired_node_def updating_node_def add_ac)
qed simp

lemma cache_tree_nodes:
  assumes "cache_ok fc"
  shows "distinct (map snd (inorder (fc_tree fc)))" and "set (map snd (inorder (fc_tree fc))) = dom (fc_nodes fc)"
proof -
  let ?xs = "inorder (fc_tree fc)" and ?str = "\<lambda>a. cn_key (the (fc_nodes fc a))"
  have t: "tree_of memn2cmp_ref (\<lambda>a. cn_node_key (the (fc_nodes fc a))) ?str (fc_tree fc) (dom (fc_nodes fc))"
    using assms by (simp add: cache_ok_def cache_wf_def)
  then have s: "set ?xs = (\<lambda>a. (cn_node_key (the (fc_nodes fc a)), a)) ` dom (fc_nodes fc)"
    and w: "sorted_wrt (node_less memn2cmp_ref ?str) ?xs" by (simp_all add: tree_of_def)
  have "\<not> node_less memn2cmp_ref ?str x x" for x by (rule mc.node_less_irrefl) simp
  then have "sorted_wrt (node_less memn2cmp_ref ?str) ys \<Longrightarrow> distinct ys" for ys by (induction ys) auto
  with w have "distinct ?xs" by blast
  moreover have "inj_on snd (set ?xs)" unfolding s by (auto intro: inj_onI)
  ultimately show "distinct (map snd ?xs)" by (simp add: distinct_map)
  show "set (map snd ?xs) = dom (fc_nodes fc)" using s by (force simp: image_iff)
qed

lemma walk_rbtree_card:
  assumes "cache_ok fc"
  shows "walk_rbtree (fc_nodes fc) (fc_tree fc) now (0, 0, 0) =
    (of_nat (card (nodes_with (valid_node now) fc)), of_nat (card (nodes_with (expired_node now) fc)),
     of_nat (card (nodes_with updating_node fc)))"
proof -
  let ?as = "map snd (inorder (fc_tree fc))"
  have "length (filter (\<lambda>a. P (the (fc_nodes fc a))) ?as) = card (nodes_with P fc)" for P
  proof -
    have "set (filter (\<lambda>a. P (the (fc_nodes fc a))) ?as) = nodes_with P fc"
      using cache_tree_nodes(2) [OF assms] by (auto simp: nodes_with_def)
    then show ?thesis using cache_tree_nodes(1) [OF assms] distinct_card distinct_filter by metis
  qed
  then show ?thesis by (simp add: walk_rbtree_counts)
qed

lemma node_states:
  assumes "cache_ok fc"
  shows "card (nodes_with (valid_node now) fc) + card (nodes_with (expired_node now) fc) + card (nodes_with updating_node fc) =
    card (nodes_with cn_exists fc)"
proof -
  let ?V = "nodes_with (valid_node now) fc" and ?E = "nodes_with (expired_node now) fc" and ?U = "nodes_with updating_node fc"
  have fin: "finite (nodes_with P fc)" for P
    by (rule finite_subset [of _ "dom (fc_nodes fc)"]) (use assms in \<open>auto simp: nodes_with_def cache_ok_def\<close>)
  have "nodes_with cn_exists fc = ?V \<union> ?E \<union> ?U"
    by (auto simp: nodes_with_def valid_node_def expired_node_def updating_node_def)
  moreover have "?V \<inter> ?E = {}" "(?V \<union> ?E) \<inter> ?U = {}"
    by (auto simp: nodes_with_def valid_node_def expired_node_def updating_node_def)
  ultimately show ?thesis by (simp add: card_Un_disjoint fin)
qed

text \<open>C39: The statistics count what is in the cache.  The three counters of a snapshot are the numbers
  of the nodes of the zone that are valid, expired and being updated; together they count every node
  whose file exists, each in exactly one counter.\<close>

theorem snapshot_counts:
  assumes "cache_ok (me_caches E (sz_cache sz))" and "snapshot_zone E sz r = (snap, r')"
  shows "let fc = me_caches E (sz_cache sz); now = en_now E;
       num = (\<lambda>P. card {a. \<exists>n. fc_nodes fc a = Some n \<and> cn_exists n \<and> P n})
     in sn_entries_updating snap = of_nat (num cn_updating) \<and>
        sn_entries_valid snap = of_nat (num (\<lambda>n. \<not> cn_updating n \<and> now < cn_valid_sec n)) \<and>
        sn_entries_expired snap = of_nat (num (\<lambda>n. \<not> cn_updating n \<and> cn_valid_sec n \<le> now)) \<and>
        sn_entries_valid snap + sn_entries_expired snap + sn_entries_updating snap = of_nat (num (\<lambda>n. True))"
proof -
  let ?fc = "me_caches E (sz_cache sz)" and ?now = "en_now E"
  have e: "sn_entries_valid snap = of_nat (card (nodes_with (valid_node ?now) ?fc))"
    "sn_entries_expired snap = of_nat (card (nodes_with (expired_node ?now) ?fc))"
    "sn_entries_updating snap = of_nat (card (nodes_with updating_node ?fc))"
    using assms(2) by (auto simp: snapshot_zone_def walk_rbtree_card [OF assms(1)] Let_def split: prod.splits if_splits)
  have "sn_entries_valid snap + sn_entries_expired snap + sn_entries_updating snap = of_nat (card (nodes_with cn_exists ?fc))"
    using node_states [OF assms(1), of ?now, symmetric] by (simp add: e)
  then show ?thesis using e by (simp add: Let_def nodes_with_def valid_node_def expired_node_def updating_node_def)
qed

definition demo_stats :: metrics_env where
  "demo_stats = req_env.extend (demo_env [] [])
     (metrics_env.fields True (Some ''prometheus'') 4096 (\<lambda>_. dk_cache demo_disk) True)"

theorem snapshot_counts_witness:
  "sn_entries_valid (fst (snapshot_zone demo_stats \<lparr>sz_name = ''z'', sz_cache = 7\<rparr> (demo_req ''key''))) +
   sn_entries_expired (fst (snapshot_zone demo_stats \<lparr>sz_name = ''z'', sz_cache = 7\<rparr> (demo_req ''key''))) +
   sn_entries_updating (fst (snapshot_zone demo_stats \<lparr>sz_name = ''z'', sz_cache = 7\<rparr> (demo_req ''key''))) = 1"
proof -
  obtain snap r' where s: "snapshot_zone demo_stats \<lparr>sz_name = ''z'', sz_cache = 7\<rparr> (demo_req ''key'') = (snap, r')" by fastforce
  have m: "me_caches demo_stats a = dk_cache demo_disk" for a
    by (simp add: demo_stats_def metrics_env.defs req_env.defs)
  have c: "cache_ok (me_caches demo_stats (sz_cache \<lparr>sz_name = ''z'', sz_cache = 7\<rparr>))"
    by (simp add: m)
  have n: "{a. \<exists>n. fc_nodes (dk_cache demo_disk) a = Some n \<and> cn_exists n} = {4}"
    by (auto simp: demo_disk_def demo_node_def)
  note x = conjunct2 [OF conjunct2 [OF conjunct2 [OF snapshot_counts [OF c s, unfolded Let_def m simp_thms n]]]]
  show ?thesis using x by (simp add: s)
qed

text \<open>C40: The statistics are whole.  With names of at most 64 bytes and numbers that fit their C types,
  an answer of the statistics endpoint - JSON or Prometheus, for any number of zones and any values of
  the counters - fits the buffer set aside for it: nothing is cut off, and its length is the one
  announced.\<close>

theorem statistics_whole:
  assumes "me_get E \<or> en_head E" and "en_discard E = NGX_OK" and "lc_stat_zones (en_loc E) = Some szs" and "szs \<noteq> []"
    and "rq_pool r = []" and "\<not> rc_stops (en_send_header E) (en_head E)" and "0 < me_pagesize E" and "int64 (en_now E)"
    and "\<And>sz. sz \<in> set szs \<Longrightarrow> length (sz_name sz) \<le> 64 \<and> int64 (fc_size (me_caches E (sz_cache sz))) \<and>
      int64 (fc_max_size (me_caches E (sz_cache sz)))"
    and "store_configured (en_main E) \<Longrightarrow> int64 (int (the (mc_index_shm_size (the (en_main E)))))"
    and "\<And>sz st. sz \<in> set szs \<Longrightarrow> get_zone_state (en_now E) (rq_shm r) (sz_name sz) = (NGX_OK, st) \<Longrightarrow>
      int64 (st_last_bootstrap_at st) \<and> int64 (st_last_updated_at st)"
    and "metrics_handler N E r = (rc, r')"
  shows "let snaps = fst (snapshot_zones E szs r); m = (if mc_metrics_zone (the (en_main E)) then rq_metrics r else None)
    in rc = en_output E \<and> length snaps = length szs \<and> (\<exists>resp body. rq_responses r' = rq_responses r @ [resp] \<and>
      rs_status resp = 200 \<and> rs_body resp = Some body \<and> rs_content_length resp = length body \<and>
      body = (case negotiate_format N E of
          FORMAT_JSON \<Rightarrow> json_head (en_now E) snaps m @ tq ''`zones`:{'' @ concat (json_zones True snaps) @ ''}}''
        | FORMAT_PROMETHEUS \<Rightarrow> concat (prom_pieces snaps m)))"
proof -
  obtain snaps r2 where s: "snapshot_zones E szs r = (snaps, r2)" by fastforce
  have f: "(\<forall>s \<in> set snaps. zone_fits s \<and> sn_has_index s = store_configured (en_main E)) \<and> length snaps = length szs"
    by (rule snapshot_zones_facts [OF s assms(9-11)])
  then have u: "\<forall>s \<in> set snaps. zone_fits s" "uniform snaps" "snaps \<noteq> []" "length snaps = length szs"
    using assms(4) by (auto simp: uniform_def)
  define m where "m = (if mc_metrics_zone (the (en_main E)) then rq_metrics r else None)"
  note w = statistics_fit [OF u(1-3) assms(8,7), of m, unfolded u(4)]
  note h = metrics_handler_runs [OF assms(1-6) s assms(12), folded m_def]
  show ?thesis
  proof (cases "negotiate_format N E")
    case FORMAT_JSON
    show ?thesis using h u(4) unfolding s fst_conv Let_def m_def [symmetric] FORMAT_JSON metrics_format.case w by blast
  next
    case FORMAT_PROMETHEUS
    show ?thesis using h u(4) unfolding s fst_conv Let_def m_def [symmetric] FORMAT_PROMETHEUS metrics_format.case w by blast
  qed
qed

definition demo_report :: metrics_env where
  "demo_report = demo_stats\<lparr>en_loc := demo_loc\<lparr>lc_stat_zones := Some [\<lparr>sz_name = ''z'', sz_cache = 7\<rparr>]\<rparr>\<rparr>"

lemma demo_state_code:
  "case get_zone_state 5 demo_shm ''z'' of (rc, st) \<Rightarrow> int64 (st_last_bootstrap_at st) \<and> int64 (st_last_updated_at st)"
  unfolding int64_def by code_simp

theorem statistics_whole_witness:
  "\<exists>body. map rs_body (rq_responses (snd (metrics_handler core_total demo_report (demo_req ''key'')))) = [Some body] \<and>
     body = concat (prom_pieces (fst (snapshot_zones demo_report [\<lparr>sz_name = ''z'', sz_cache = 7\<rparr>] (demo_req ''key''))) (Some zero_metrics))"
proof -
  let ?szs = "[\<lparr>sz_name = ''z'', sz_cache = 7\<rparr>]" and ?r = "demo_req ''key''"
  obtain rc r' where h: "metrics_handler core_total demo_report ?r = (rc, r')" by fastforce
  note demo_defs = demo_report_def demo_stats_def metrics_env.defs req_env.defs demo_env_def
  have e: "me_get demo_report \<or> en_head demo_report" "en_discard demo_report = NGX_OK"
    "lc_stat_zones (en_loc demo_report) = Some ?szs" "\<not> rc_stops (en_send_header demo_report) (en_head demo_report)"
    "0 < me_pagesize demo_report" "int64 (en_now demo_report)"
    by (simp_all add: demo_defs rc_stops_def int64_def)
  have c: "me_caches demo_report a = dk_cache demo_disk" "en_main demo_report = Some demo_main" "en_now demo_report = 5" for a
    by (simp_all add: demo_defs)
  have f: "int64 (fc_size (dk_cache demo_disk))" "int64 (fc_max_size (dk_cache demo_disk))"
    "int64 (int (the (mc_index_shm_size demo_main)))" "mc_metrics_zone demo_main"
    by (simp_all add: demo_disk_def demo_main_def int64_def)
  have st: "int64 (st_last_bootstrap_at st) \<and> int64 (st_last_updated_at st)"
    if "sz \<in> set ?szs" "get_zone_state (en_now demo_report) (rq_shm ?r) (sz_name sz) = (NGX_OK, st)" for sz st
    using demo_state_code that by (simp add: c demo_req_def)
  have fmt: "negotiate_format core_total demo_report = FORMAT_PROMETHEUS" by code_simp
  have z: "length (sz_name sz) \<le> 64 \<and> int64 (fc_size (me_caches demo_report (sz_cache sz))) \<and>
      int64 (fc_max_size (me_caches demo_report (sz_cache sz)))" if "sz \<in> set ?szs" for sz using that f by (simp add: c)
  have n: "?szs \<noteq> []" and p: "rq_pool ?r = []" and i: "int64 (int (the (mc_index_shm_size (the (en_main demo_report)))))"
    using f by (simp_all add: c)
  have r: "rq_responses ?r = []" "rq_metrics ?r = Some zero_metrics" by (simp_all add: demo_req_def)
  let ?snaps = "fst (snapshot_zones demo_report ?szs ?r)" and ?m = "if mc_metrics_zone (the (en_main demo_report)) then rq_metrics ?r else None"
  have "let snaps = ?snaps; m = ?m in rc = en_output demo_report \<and> length snaps = length ?szs \<and>
    (\<exists>resp body. rq_responses r' = rq_responses ?r @ [resp] \<and>
      rs_status resp = 200 \<and> rs_body resp = Some body \<and> rs_content_length resp = length body \<and>
      body = (case negotiate_format core_total demo_report of
          FORMAT_JSON \<Rightarrow> json_head (en_now demo_report) snaps m @ tq ''`zones`:{'' @ concat (json_zones True snaps) @ ''}}''
        | FORMAT_PROMETHEUS \<Rightarrow> concat (prom_pieces snaps m)))"
    by (rule statistics_whole [OF e(1-3) n p e(4-6) z i st h])
  then show ?thesis using f(4) by (auto simp: h fmt Let_def r c)
qed

end
