(* ===== verification/Spec2Isabelle.thy ===== *)
theory Spec2Isabelle
  imports Store_Theorems Cache_Theorems Token_Theorems Runtime_Theorems Purge_Theorems Handler_Theorems
    Worker_Theorems Conf_Theorems Answer_Theorems
begin

text \<open>
  A verification development for \<^verbatim>\<open>ngx_cache_pilot\<close>, the nginx module that purges cached responses
  by key, by key prefix, by tag and by zone.

  \<^bold>\<open>The program.\<close>  The module keeps an index of the files of nginx's caches in shared memory: for each
  cache zone the files by path, by key and by tag (\<^verbatim>\<open>src/src/ngx_cache_pilot_index_store.c\<close>).  Files enter
  it when a response has been cached (a header filter remembers the tags, the log phase writes the entry) and by a
  scan of the cache directories when a worker starts (\<^verbatim>\<open>src/src/ngx_cache_pilot_index_runtime.c\<close>).  A purge
  request is switched, classified, and executed against the files on disk, nginx's own cache zone and the index
  (\<^verbatim>\<open>src/src/ngx_cache_pilot_module.c\<close>, \<^verbatim>\<open>src/src/ngx_cache_pilot_index.c\<close>), hard (the file is removed)
  or soft (its header says that it expired); a statistics endpoint reports
  (\<^verbatim>\<open>src/src/ngx_cache_pilot_metrics.c\<close>).

  \<^bold>\<open>Conventions.\<close>  The model is for Linux, a 64-bit nginx of 1.7.9 or later, with its four upstream modules.
  nginx and the C library are not part of the repository: the functions of nginx whose results matter are the fields of
  the records \<open>ngx_core\<close> (theory Ngx) and \<open>http_core\<close> (theory Cache_File) and of the environments \<open>req_env\<close>,
  \<open>resp_env\<close>, \<open>metrics_env\<close>, \<open>boot_env\<close>; what is relied on of them is stated by \<open>ngx_core_ok\<close>,
  \<open>http_core_ok\<close> and \<open>open_law\<close>, and the witnesses instantiate them with concrete functions.  A walk
  of \<^verbatim>\<open>ngx_walk_tree\<close> visits files below its root, each once, and says whether it succeeded; it is not relied on to
  visit all of them, since it skips what it cannot read.  A write to a file may stop after any number of bytes and then
  leaves those bytes written.  \<open>open_law\<close> takes opening a cache file to change no file; nginx can expire another entry
  there when the memory of its own cache zone is exhausted, a case outside the model.  Memory that can
  run out is a \<open>pool\<close>, the list of the outcomes of the next allocations (an empty list never fails), or the slab
  allocator of \<open>ngx_core\<close>.  A \<^verbatim>\<open>goto\<close> or an early return is a branch; a pointer into shared memory is an address
  into one of the heaps of a zone; the mutex of the slab pool is held through every operation of the store, so each is
  one function.  Recursion follows the data (lists, trees, the entries of a directory), so no fuel is needed
  anywhere; the only bound is the one the code has, \<open>max_tokens_per_scan\<close>.

  \<^bold>\<open>Theories and code.\<close>
  \<^item> Ngx: the prelude (nginx types, strings, the slab allocator and its laws, red-black trees of nginx).  Rbtree:
    insertion and lookup in the trees of the module, with the locale \<open>node_order\<close> (a comparison of strings orders a
    tree), interpreted for \<^verbatim>\<open>ngx_memn2cmp\<close> and for the keys of cache nodes.
  \<^item> Shm_Zone, Index_Store: the index (\<open>shm_zone\<close>, \<open>shm\<close> and their operations).  Zone_Wf: its
    invariant; Zone_Ops, Zone_Mem, Zone_Abs: the operations keep it, free what they allocated, and act on the abstract map.
    Zone_Free: the order of their allocations and frees, and the key and tag entries they empty.
    Store_Spec, Store_Collect: the abstract index \<open>view\<close> and the refinement of every operation.  Index_Contract:
    the locale \<open>path_index\<close> of clients of the index and its interpretation.  Store_Free: slab discipline and emptied
    entries over histories of calls.
  \<^item> Os, Cache_File: the file system, the cache zone of nginx, the hard and soft purge of one file;
    Cache_File_Spec what they do.  Tokens: tags and keys from headers and cache files; Token_Spec what they are.
  \<^item> Conf: what directives set, creation, merging and attaching of configurations; Commands: the table of directives;
    Conf_Spec: configurations as reachable states of reading and merging block after block.
  \<^item> Runtime: the shared zone, the tree of zones, the cold-start scan, the retry timer; Runtime_Spec.
  \<^item> Request, Format: what a request consults, its counters, its responses as text.  Purge: the purges, the request
    handler, the handler of a location, offloaded walks.  Purge_Spec: the locale \<open>path_purge\<close> (a loop that purges
    path after path), interpreted for both loops of the code, and each purge against the abstract index; Walk_Spec: walks of
    directories; Handler_Spec: what every function of a request keeps.
  \<^item> Hooks, Metrics: the header filter and the log phase; the statistics.  Metrics_Spec: lengths of the texts.
    Worker_Spec: a worker as a step relation over all its events.
  \<^item> Demo: the concrete world of the witnesses.

  \<^bold>\<open>What the theorems show.\<close>  Store_Theorems: over any history of calls the index is well-formed, leaks nothing,
  and is the map its users think it is; nothing is freed twice and no pointer dangles, a deletion frees the entries it
  empties; collections are exact.  Cache_Theorems: what each return code of the purge of a
  file means, a header write that is cut short included, and the accounting of the zone.  Token_Theorems: extraction is exact and bounded, the key of a cache file
  reads back.  Runtime_Theorems: the tree of zones is a map, the scan makes the index agree with the disk, the retry timer
  is set exactly while a zone is cold, after the start and after every event.  Purge_Theorems: each kind of purge reaches
  exactly the entries it should; a purge by walk exactly those the walk visited, and which files it leaves.
  Handler_Theorems: a request is finalized once, only removes, counts what it did, and comes to its end when it waits:
  at the first write event at which its file has been read, or with the completion of its walk.
  Worker_Theorems: the invariant over all interleavings of handlers, the path of a tag from a response to its purge,
  and the effect of the log phase on requests that purge.  Conf_Theorems: content handlers end, zones are registered.
  Answer_Theorems: no answer is cut off, keys read back, the statistics count the nodes.

  \<^bold>\<open>Bounds.\<close>  Counters wrap at 64 bits as in the code.  A purge answer is whole while its counters have at most ten
  digits (265 bytes are set aside for 181 of text and eight counters); the statistics are whole for zone names of at most
  64 bytes.

  \<^bold>\<open>Not modelled.\<close>  One event of a worker runs to its end before the next starts, as in nginx; a walk in a
  thread is either one event or, when others happen while it runs, one event for each file it visits.  A run has
  one request at a time as its current one; other requests appear as the events between its own.  The declarations
  copied from nginx's upstream modules, the table of the module, forwarding functions of the store, the lookup of a
  thread pool (an argument of the model) and callbacks that only return \<^verbatim>\<open>NGX_OK\<close> have no
  definition of their own; logging is left out.
\<close>

end
